(* ===== verification/Nexus_Prelude.thy ===== *)
theory Nexus_Prelude
  imports Main "HOL-Library.Word"
begin

text \<open>
  Shared ground of the development: the machine types of the Rust sources, the operations of
  \<^verbatim>\<open>str\<close>, \<^verbatim>\<open>hex\<close> and the checked integer methods that several components use, and the lemmas
  about them.

  A Rust \<^verbatim>\<open>String\<close> is its UTF-8 byte sequence, so it is modelled by \<^typ>\<open>string\<close> (a list of
  8-bit characters) and \<^verbatim>\<open>len()\<close> is \<^const>\<open>length\<close>.  Byte arrays and digests are lists of
  8-bit words.  \<^verbatim>\<open>u64\<close> and \<^verbatim>\<open>usize\<close> values are natural numbers and \<^verbatim>\<open>i64\<close> values integers;
  wherever the code can leave the range of the type, the check or the wrap-around is written
  out with the operations below.
\<close>

named_theorems codec_simps \<open>equations of the string and byte codecs\<close>
named_theorems int_simps \<open>equations of the fixed-width integer operations\<close>

type_synonym byte = "8 word"
type_synonym bytes = "byte list"
type_synonym u64 = nat
type_synonym i64 = int
type_synonym ('e, 'a) result = "'e + 'a"

section \<open>Fixed-width integers\<close>

text \<open>\<^verbatim>\<open>u64::checked_add\<close>, \<^verbatim>\<open>u64::checked_sub\<close>, \<^verbatim>\<open>u64::checked_shl\<close>, \<^verbatim>\<open>u64::saturating_add\<close>
  and \<^verbatim>\<open>u64::saturating_sub\<close>.\<close>

definition checked_add64 :: "u64 \<Rightarrow> u64 \<Rightarrow> u64 option" where
  "checked_add64 a b = (if a + b < 2 ^ 64 then Some (a + b) else None)"

definition checked_sub64 :: "u64 \<Rightarrow> u64 \<Rightarrow> u64 option" where
  "checked_sub64 a b = (if b \<le> a then Some (a - b) else None)"

definition checked_shl64 :: "u64 \<Rightarrow> nat \<Rightarrow> u64 option" where
  "checked_shl64 a h = (if h < 64 then Some ((a * 2 ^ h) mod 2 ^ 64) else None)"

definition saturating_add64 :: "u64 \<Rightarrow> u64 \<Rightarrow> u64" where
  "saturating_add64 a b = min (a + b) (2 ^ 64 - 1)"

definition saturating_sub64 :: "u64 \<Rightarrow> u64 \<Rightarrow> u64" where
  "saturating_sub64 a b = (if b \<le> a then a - b else 0)"

text \<open>Wrapping arithmetic of release builds, and the \<^verbatim>\<open>as\<close> casts between the two 64-bit types.\<close>

definition wrap_u64 :: "int \<Rightarrow> u64" where
  "wrap_u64 x = nat (x mod 2 ^ 64)"

definition wrap_i64 :: "int \<Rightarrow> i64" where
  "wrap_i64 x = (x + 2 ^ 63) mod 2 ^ 64 - 2 ^ 63"

definition as_u64 :: "i64 \<Rightarrow> u64" where
  "as_u64 x = wrap_u64 x"

definition as_i64 :: "u64 \<Rightarrow> i64" where
  "as_i64 n = wrap_i64 (int n)"

definition is_i64 :: "int \<Rightarrow> bool" where
  "is_i64 x \<longleftrightarrow> - (2 ^ 63) \<le> x \<and> x < 2 ^ 63"

definition is_u64 :: "nat \<Rightarrow> bool" where
  "is_u64 n \<longleftrightarrow> n < 2 ^ 64"

lemma wrap_i64_id [int_simps]: "is_i64 x \<Longrightarrow> wrap_i64 x = x"
  by (simp add: wrap_i64_def is_i64_def)

lemma wrap_i64_range: "is_i64 (wrap_i64 x)"
proof -
  have "0 \<le> (x + 2 ^ 63) mod 2 ^ 64" "(x + 2 ^ 63) mod 2 ^ 64 < (2 ^ 64 :: int)"
    by simp_all
  then show ?thesis
    by (simp add: wrap_i64_def is_i64_def)
qed

lemma wrap_u64_range: "is_u64 (wrap_u64 x)"
  by (simp add: wrap_u64_def is_u64_def nat_less_iff)

lemma wrap_u64_id [int_simps]: "0 \<le> x \<Longrightarrow> x < 2 ^ 64 \<Longrightarrow> wrap_u64 x = nat x"
  by (simp add: wrap_u64_def)

lemma as_u64_nonneg [int_simps]: "0 \<le> x \<Longrightarrow> is_i64 x \<Longrightarrow> as_u64 x = nat x"
  by (simp add: as_u64_def wrap_u64_def is_i64_def)

lemma as_i64_as_u64: "is_i64 x \<Longrightarrow> as_i64 (as_u64 x) = x"
proof -
  assume r: "is_i64 x"
  have "(int (nat (x mod 2 ^ 64)) + 2 ^ 63) mod 2 ^ 64 = (x + 2 ^ 63) mod (2 ^ 64 :: int)"
    by (simp add: mod_add_left_eq)
  then have "as_i64 (as_u64 x) = wrap_i64 x"
    by (simp add: as_i64_def as_u64_def wrap_u64_def wrap_i64_def)
  then show ?thesis using r by (simp add: wrap_i64_id)
qed

lemma checked_add64_Some [int_simps]: "a + b < 2 ^ 64 \<Longrightarrow> checked_add64 a b = Some (a + b)"
  by (simp add: checked_add64_def)

lemma checked_sub64_Some [int_simps]: "b \<le> a \<Longrightarrow> checked_sub64 a b = Some (a - b)"
  by (simp add: checked_sub64_def)

lemma checked_shl64_one [int_simps]: "h < 64 \<Longrightarrow> checked_shl64 (Suc 0) h = Some (2 ^ h)"
proof -
  assume h: "h < 64"
  then have "(2 :: nat) ^ h < 2 ^ 64" by (rule power_strict_increasing) simp
  then show ?thesis using h by (simp add: checked_shl64_def)
qed

lemma saturating_sub64_eq [int_simps]: "saturating_sub64 a b = a - b"
  by (simp add: saturating_sub64_def)

section \<open>Bit counting\<close>

text \<open>\<^verbatim>\<open>count_ones()\<close> of an unsigned integer.\<close>

fun popcount :: "nat \<Rightarrow> nat" where
  "popcount n = (if n = 0 then 0 else n mod 2 + popcount (n div 2))"

declare popcount.simps [simp del]

lemma popcount_0 [simp]: "popcount 0 = 0"
  by (simp add: popcount.simps)

lemma popcount_double [simp]: "popcount (2 * n) = popcount n"
  by (subst popcount.simps) (cases "n = 0", simp_all)

lemma popcount_double_Suc [simp]: "popcount (Suc (2 * n)) = Suc (popcount n)"
  by (subst popcount.simps) simp

lemma popcount_1 [simp]: "popcount (Suc 0) = 1"
  using popcount_double_Suc [of 0] by simp

lemma popcount_div2: "popcount n = n mod 2 + popcount (n div 2)"
  by (cases "n = 0") (simp_all add: popcount.simps [of n])

lemma popcount_odd: "odd n \<Longrightarrow> popcount n = Suc (popcount (n div 2))"
  by (subst popcount_div2) (simp add: odd_iff_mod_2_eq_one)

lemma popcount_even: "even n \<Longrightarrow> popcount n = popcount (n div 2)"
  by (subst popcount_div2) (simp add: even_iff_mod_2_eq_zero)

lemma popcount_even_Suc: "even n \<Longrightarrow> popcount (Suc n) = Suc (popcount n)"
  by (auto elim!: evenE)

lemma popcount_le: "popcount n \<le> n"
proof (induction n rule: popcount.induct)
  case (1 n)
  show ?case
  proof (cases "n = 0")
    case False
    with 1 have "popcount (n div 2) \<le> n div 2" by simp
    then have "popcount n \<le> n mod 2 + n div 2" by (subst popcount_div2) simp
    also have "\<dots> \<le> n" using mod_mult_div_eq [of n 2] by linarith
    finally show ?thesis .
  qed simp
qed

lemma popcount_Suc_le: "popcount (Suc n) \<le> Suc (popcount n)"
proof (induction n rule: less_induct)
  case (less n)
  show ?case
  proof (cases "even n")
    case True
    then show ?thesis by (simp add: popcount_even_Suc)
  next
    case False
    then obtain k where n: "n = Suc (2 * k)" by (auto elim!: oddE)
    then have "Suc n = 2 * Suc k" by simp
    then have "popcount (Suc n) = popcount (Suc k)" by (metis popcount_double)
    also have "\<dots> \<le> Suc (popcount k)" by (rule less) (simp add: n)
    finally show ?thesis by (simp add: n)
  qed
qed

lemma popcount_shift_add:
  "r < 2 ^ h \<Longrightarrow> popcount (j * 2 ^ h + r) = popcount j + popcount r"
proof (induction h arbitrary: r)
  case 0
  then show ?case by simp
next
  case (Suc h)
  have d: "j * 2 ^ Suc h + r = r + 2 * (j * 2 ^ h)" by simp
  have eq: "(j * 2 ^ Suc h + r) div 2 = j * 2 ^ h + r div 2"
      "(j * 2 ^ Suc h + r) mod 2 = r mod 2"
    unfolding d by simp_all
  have "r div 2 < 2 ^ h" using Suc.prems by auto
  then have "popcount (j * 2 ^ h + r div 2) = popcount j + popcount (r div 2)" by (rule Suc.IH)
  then show ?case
    using eq popcount_div2 [of "j * 2 ^ Suc h + r"] popcount_div2 [of r] by simp
qed

lemma popcount_mult_pow2 [simp]: "popcount (j * 2 ^ h) = popcount j"
  using popcount_shift_add [of 0 h j] by simp

section \<open>The highest set bit\<close>

text \<open>The position of the highest set bit, \<^verbatim>\<open>63 - leading_zeros()\<close>.\<close>

fun ilog2 :: "nat \<Rightarrow> nat" where
  "ilog2 n = (if n < 2 then 0 else Suc (ilog2 (n div 2)))"

declare ilog2.simps [simp del]

lemma ilog2_le: "0 < n \<Longrightarrow> 2 ^ ilog2 n \<le> n"
proof (induction n rule: ilog2.induct)
  case (1 n)
  show ?case
  proof (cases "n < 2")
    case True
    with 1 show ?thesis by (simp add: ilog2.simps [of n])
  next
    case False
    with 1 have "2 ^ ilog2 (n div 2) \<le> n div 2" by simp
    with False show ?thesis by (simp add: ilog2.simps [of n])
  qed
qed

lemma ilog2_less: "n < 2 ^ Suc (ilog2 n)"
proof (induction n rule: ilog2.induct)
  case (1 n)
  show ?case
  proof (cases "n < 2")
    case True
    then show ?thesis by (simp add: ilog2.simps [of n])
  next
    case False
    with 1 have "n div 2 < 2 ^ Suc (ilog2 (n div 2))" by simp
    with False show ?thesis by (simp add: ilog2.simps [of n])
  qed
qed

lemma ilog2_mono: "a \<le> b \<Longrightarrow> ilog2 a \<le> ilog2 b"
proof (induction a arbitrary: b rule: ilog2.induct)
  case (1 a)
  show ?case
  proof (cases "a < 2")
    case True
    then show ?thesis by (simp add: ilog2.simps [of a])
  next
    case False
    with 1 have "ilog2 (a div 2) \<le> ilog2 (b div 2)" by (intro 1) (simp_all add: div_le_mono)
    with False 1 show ?thesis by (simp add: ilog2.simps [of a] ilog2.simps [of b])
  qed
qed

section \<open>Byte strings and hexadecimal\<close>

text \<open>\<^verbatim>\<open>str::as_bytes\<close>.\<close>

definition as_bytes :: "string \<Rightarrow> bytes" where
  "as_bytes s = map of_char s"

lemma of_char_word_inj: "(of_char c :: byte) = of_char d \<longleftrightarrow> c = d"
proof
  assume "(of_char c :: byte) = of_char d"
  then have "unat (of_char c :: byte) = unat (of_char d :: byte)" by simp
  moreover have "unat (of_char e :: byte) = of_char e" for e
  proof -
    have "(of_char e :: byte) = of_nat (of_char e)" by (cases e) simp
    then show ?thesis by (simp add: unat_of_nat)
  qed
  ultimately show "c = d" by simp
qed simp

lemma as_bytes_inj [simp]: "as_bytes s = as_bytes t \<longleftrightarrow> s = t"
proof
  assume "as_bytes s = as_bytes t"
  then show "s = t"
    unfolding as_bytes_def by (rule map_injective) (simp add: inj_def of_char_word_inj)
qed simp

lemma length_as_bytes [simp]: "length (as_bytes s) = length s"
  by (simp add: as_bytes_def)

text \<open>\<^verbatim>\<open>hex::encode\<close> writes lower-case digits; \<^verbatim>\<open>hex::decode\<close> accepts both cases and fails on an
  odd length or a character that is no hexadecimal digit.\<close>

definition hex_digit :: "nat \<Rightarrow> char" where
  "hex_digit n = char_of (if n < 10 then 48 + n else 87 + n)"

definition hex_val :: "char \<Rightarrow> nat option" where
  "hex_val c = (let n = of_char c :: nat in
     if 48 \<le> n \<and> n \<le> 57 then Some (n - 48)
     else if 97 \<le> n \<and> n \<le> 102 then Some (n - 87)
     else if 65 \<le> n \<and> n \<le> 70 then Some (n - 55)
     else None)"

definition hex_byte :: "byte \<Rightarrow> string" where
  "hex_byte b = [hex_digit (unat b div 16), hex_digit (unat b mod 16)]"

definition hex_encode :: "bytes \<Rightarrow> string" where
  "hex_encode bs = concat (map hex_byte bs)"

fun hex_decode :: "string \<Rightarrow> bytes option" where
  "hex_decode [] = Some []"
| "hex_decode [c] = None"
| "hex_decode (c # d # s) =
     (case (hex_val c, hex_val d, hex_decode s) of
        (Some hi, Some lo, Some bs) \<Rightarrow> Some (word_of_nat (16 * hi + lo) # bs)
      | _ \<Rightarrow> None)"

lemma hex_val_digit: "n < 16 \<Longrightarrow> hex_val (hex_digit n) = Some n"
  by (auto simp: hex_val_def hex_digit_def Let_def)

lemma byte_unat_less: "unat (b :: byte) < 256"
  by (rule order_less_le_trans [OF unsigned_less]) simp

lemma hex_decode_byte: "hex_decode (hex_byte b @ s) = map_option ((#) b) (hex_decode s)"
proof -
  have "unat b div 16 < 16" using byte_unat_less [of b] by simp
  then have "hex_val (hex_digit (unat b div 16)) = Some (unat b div 16)" by (rule hex_val_digit)
  moreover have "hex_val (hex_digit (unat b mod 16)) = Some (unat b mod 16)"
    by (rule hex_val_digit) simp
  moreover have "word_of_nat (16 * (unat b div 16) + unat b mod 16) = b" by simp
  ultimately show ?thesis
    by (simp add: hex_byte_def split: option.split)
qed

lemma hex_decode_encode [simp]: "hex_decode (hex_encode bs) = Some bs"
proof (induction bs)
  case Nil
  then show ?case by (simp add: hex_encode_def)
next
  case (Cons b bs)
  then have "hex_decode (concat (map hex_byte bs)) = Some bs" by (simp add: hex_encode_def)
  then show ?case by (simp add: hex_encode_def hex_decode_byte)
qed

lemma hex_encode_inj [simp]: "hex_encode a = hex_encode b \<longleftrightarrow> a = b"
  by (metis hex_decode_encode option.inject)

lemma length_hex_encode [simp]: "length (hex_encode bs) = 2 * length bs"
  by (induction bs) (simp_all add: hex_encode_def hex_byte_def)

lemma hex_digit_not_x: "n < 16 \<Longrightarrow> hex_digit n \<noteq> CHR ''x''"
proof
  assume "n < 16" "hex_digit n = CHR ''x''"
  then have "hex_val (CHR ''x'') = Some n" using hex_val_digit by metis
  then show False by (simp add: hex_val_def)
qed

end
