(* ===== verification/Mmr.thy ===== *)
theory Mmr
  imports Nexus_Prelude
begin

text \<open>
  The Merkle mountain range of \<^verbatim>\<open>src/state/mod.rs\<close>: the accumulator \<^verbatim>\<open>MMRFoundation\<close>, the leaf
  and peak position arithmetic (\<^verbatim>\<open>get_mmr_node_pos\<close>, \<^verbatim>\<open>get_mmr_node_height\<close>, \<^verbatim>\<open>get_mmr_peaks\<close>,
  \<^verbatim>\<open>get_mmr_path\<close>) and the sibling computation of \<^verbatim>\<open>NexusState::get_mmr_proof_metadata\<close>.

  SHA-256 comes from the \<^verbatim>\<open>sha2\<close> crate and is the parameter \<open>H\<close> of every definition that hashes.
  A panic of the code (\<^verbatim>\<open>expect\<close>, an overflowing shift or subtraction in the helpers) is
  \<^const>\<open>None\<close>.  The specification side consists of \<open>block\<close>, the hash of an aligned block of
  \<open>2 ^ h\<close> leaves, and \<open>npos\<close>, the post-order position of that block.
\<close>

type_synonym digest = bytes
type_synonym hasher = "bytes \<Rightarrow> digest"
type_synonym node = "u64 \<times> digest"

section \<open>The accumulator\<close>

record MMRFoundation =
  peaks :: "digest list"
  mmr_size :: nat
  node_count :: u64

definition mmr_new :: MMRFoundation where
  "mmr_new = \<lparr>peaks = [], mmr_size = 0, node_count = 0\<rparr>"

definition zero_root :: string where
  "zero_root = ''0x0000000000000000000000000000000000000000000000000000000000000000''"

definition hex0x :: "bytes \<Rightarrow> string" where
  "hex0x bs = ''0x'' @ hex_encode bs"

text \<open>The \<^verbatim>\<open>while pos & 1 == 1\<close> loop of \<^verbatim>\<open>add_leaf\<close>: pop a peak, hash it in front of the current
  hash, record the new node, halve \<open>pos\<close>.  An empty peak vector is the \<^verbatim>\<open>expect\<close> panic.\<close>

fun merge_peaks ::
  "hasher \<Rightarrow> nat \<Rightarrow> digest \<Rightarrow> digest list \<Rightarrow> u64 \<Rightarrow> (digest \<times> digest list \<times> u64 \<times> node list) option"
where
  "merge_peaks H pos cur pk nc =
     (if odd pos then
        (if pk = [] then None
         else let cur' = H (last pk @ cur) in
           (case merge_peaks H (pos div 2) cur' (butlast pk) (nc + 1) of
              None \<Rightarrow> None
            | Some (c, pk', nc', added) \<Rightarrow> Some (c, pk', nc', (nc, cur') # added)))
      else Some (cur, pk, nc, []))"

declare merge_peaks.simps [simp del]

definition add_leaf :: "hasher \<Rightarrow> bytes \<Rightarrow> MMRFoundation \<Rightarrow> (node list \<times> MMRFoundation) option" where
  "add_leaf H leaf m =
     (let current_hash = H leaf; leaf_pos = node_count m in
      case merge_peaks H (mmr_size m) current_hash (peaks m) (leaf_pos + 1) of
        None \<Rightarrow> None
      | Some (c, pk, nc, added) \<Rightarrow>
          Some ((leaf_pos, current_hash) # added,
                \<lparr>peaks = pk @ [c], mmr_size = mmr_size m + 1, node_count = nc\<rparr>))"

definition get_root :: "hasher \<Rightarrow> MMRFoundation \<Rightarrow> string" where
  "get_root H m =
     (case peaks m of
        [] \<Rightarrow> zero_root
      | p # ps \<Rightarrow> hex0x (fold (\<lambda>q root_hash. H (q @ root_hash)) ps p))"

section \<open>Position helpers\<close>

definition get_mmr_node_pos :: "u64 \<Rightarrow> u64" where
  "get_mmr_node_pos leaf_index = leaf_index * 2 - popcount leaf_index"

text \<open>\<^verbatim>\<open>get_mmr_node_height\<close>: subtract the sizes of complete trees of growing height.  A shift by
  64 bits is an overflow.\<close>

function node_height_loop :: "u64 \<Rightarrow> nat \<Rightarrow> nat option" where
  "node_height_loop p h =
     (if 64 \<le> h + 1 then None
      else if p < 2 ^ (h + 1) - 1 then Some h
      else node_height_loop (p - (2 ^ (h + 1) - 1)) (h + 1))"
  by pat_completeness auto
termination
  by (relation "measure (\<lambda>(p, h). 64 - h)") auto

declare node_height_loop.simps [simp del]

definition get_mmr_node_height :: "u64 \<Rightarrow> nat option" where
  "get_mmr_node_height pos = node_height_loop pos 0"

fun mmr_peaks_loop :: "u64 \<Rightarrow> u64 \<Rightarrow> u64 list option" where
  "mmr_peaks_loop leaf_count offset =
     (if 0 < leaf_count then
        let h = ilog2 leaf_count; full_tree_size = 2 ^ (h + 1) - 1 in
        (if 64 \<le> h + 1 then None
         else map_option ((#) (offset + full_tree_size - 1))
                (mmr_peaks_loop (leaf_count - 2 ^ h) (offset + full_tree_size)))
      else Some [])"

declare mmr_peaks_loop.simps [simp del]

definition get_mmr_peaks :: "u64 \<Rightarrow> u64 list option" where
  "get_mmr_peaks leaf_count = mmr_peaks_loop leaf_count 0"

text \<open>\<^verbatim>\<open>get_mmr_path\<close>: find the peak whose tree holds \<open>pos\<close>, then walk down to \<open>pos\<close> and collect
  the siblings; the result is reversed at the end.\<close>

fun find_target_peak :: "u64 \<Rightarrow> u64 list \<Rightarrow> u64 \<Rightarrow> (u64 \<times> u64) option" where
  "find_target_peak pos [] peak_start = None"
| "find_target_peak pos (peak_pos # ps) peak_start =
     (if pos \<le> peak_pos then Some (peak_pos, peak_start)
      else find_target_peak pos ps (peak_pos + 1))"

function mmr_path_loop :: "u64 \<Rightarrow> u64 \<Rightarrow> u64 \<Rightarrow> u64 list option" where
  "mmr_path_loop pos p subtree_start =
     (if pos < p then
        Option.bind (checked_sub64 p subtree_start) (\<lambda>d.
        Option.bind (get_mmr_node_height d) (\<lambda>h.
        Option.bind (checked_sub64 p (2 ^ h)) (\<lambda>left_child.
          let right_child = p - 1 in
          if pos \<le> left_child then
            map_option ((#) right_child) (mmr_path_loop pos left_child subtree_start)
          else
            map_option ((#) left_child) (mmr_path_loop pos right_child (left_child + 1)))))
      else Some [])"
  by pat_completeness auto
termination
  by (relation "measure (\<lambda>(pos, p, s). p)")
    (auto simp: checked_sub64_def split: if_splits)

declare mmr_path_loop.simps [simp del]

definition get_mmr_path :: "u64 \<Rightarrow> u64 \<Rightarrow> u64 list option" where
  "get_mmr_path pos leaf_count =
     (case get_mmr_peaks leaf_count of
        None \<Rightarrow> None
      | Some ps \<Rightarrow>
         (case find_target_peak pos ps 0 of
            None \<Rightarrow> Some []
          | Some (p, peak_start) \<Rightarrow> map_option rev (mmr_path_loop pos p peak_start)))"

section \<open>Sibling positions of a leaf\<close>

text \<open>The \<^verbatim>\<open>while remaining > 0\<close> loop of \<^verbatim>\<open>get_mmr_proof_metadata\<close>; every \<^verbatim>\<open>?\<close> on a checked
  operation returns \<^const>\<open>None\<close>.\<close>

fun siblings_loop :: "u64 \<Rightarrow> u64 \<Rightarrow> nat \<Rightarrow> nat \<Rightarrow> nat \<Rightarrow> u64 list option" where
  "siblings_loop nc curr_pos height leaves_before remaining =
     (if 0 < remaining then
        Option.bind (checked_shl64 1 height) (\<lambda>pow.
        Option.bind (checked_sub64 pow 1) (\<lambda>low.
        Option.bind (checked_add64 low pow) (\<lambda>offset.
          if odd leaves_before then
            Option.bind (checked_sub64 curr_pos offset) (\<lambda>sibling_pos.
            Option.bind (checked_add64 curr_pos 1) (\<lambda>next_pos.
              map_option ((#) sibling_pos)
                (siblings_loop nc next_pos (height + 1) (leaves_before div 2) (remaining div 2))))
          else
            Option.bind (checked_add64 curr_pos offset) (\<lambda>sibling_pos.
              if sibling_pos < nc then
                Option.bind (checked_add64 sibling_pos 1) (\<lambda>next_pos.
                  map_option ((#) sibling_pos)
                    (siblings_loop nc next_pos (height + 1) (leaves_before div 2) (remaining div 2)))
              else Some []))))
      else Some [])"

declare siblings_loop.simps [simp del]

definition mmr_proof_metadata :: "nat \<Rightarrow> u64 \<Rightarrow> nat \<Rightarrow> (u64 \<times> u64 list) option" where
  "mmr_proof_metadata leaves_len nc leaf_index =
     (if leaves_len \<le> leaf_index then None
      else let pos = 2 * leaf_index - popcount leaf_index in
        if nc \<le> pos then None
        else map_option (Pair pos) (siblings_loop nc pos 0 leaf_index leaves_len))"

section \<open>A concrete hash function\<close>

text \<open>A 32-byte digest that keeps the length and the first 31 bytes of its input.  It stands for
  SHA-256 in the instances of the properties.\<close>

definition sampleH :: hasher where
  "sampleH bs = word_of_nat (length bs) # take 31 (bs @ replicate 31 0)"

lemma length_sampleH: "length (sampleH bs) = 32"
  by (simp add: sampleH_def)

end
