(* ===== verification/Mmr_Correct.thy ===== *)
theory Mmr_Correct
  imports Mmr
begin

text \<open>
  Correctness of the mountain range.  \<open>block H f h j\<close> is the hash of the \<open>j\<close>-th aligned block of
  \<open>2 ^ h\<close> leaves, \<open>peak_stack\<close> the peaks of a range with \<open>m\<close> leaves read off the binary digits of
  \<open>m\<close>, and \<open>npos h j\<close> the post-order position of a block.  The lemmas show that \<^const>\<open>add_leaf\<close>
  never panics on a well-formed range, keeps exactly these peaks, writes every node at its
  post-order position, and that the sibling positions computed for a proof lead to a peak.
\<close>

named_theorems mmr_simps \<open>facts about blocks, positions and node counts\<close>

section \<open>Specification\<close>

fun block :: "hasher \<Rightarrow> (nat \<Rightarrow> digest) \<Rightarrow> nat \<Rightarrow> nat \<Rightarrow> digest" where
  "block H f 0 j = f j"
| "block H f (Suc h) j = H (block H f h (2 * j) @ block H f h (2 * j + 1))"

fun peak_stack :: "hasher \<Rightarrow> (nat \<Rightarrow> digest) \<Rightarrow> nat \<Rightarrow> nat \<Rightarrow> digest list" where
  "peak_stack H f h m =
     (if m = 0 then []
      else if odd m then block H f h (m - 1) # peak_stack H f (Suc h) (m div 2)
      else peak_stack H f (Suc h) (m div 2))"

declare peak_stack.simps [simp del]

definition nodes_upto :: "nat \<Rightarrow> nat" where
  "nodes_upto n = 2 * n - popcount n"

text \<open>The last leaf of a block; the block's node is written when that leaf is added.\<close>

definition last_leaf :: "nat \<Rightarrow> nat \<Rightarrow> nat" where
  "last_leaf h j = (j + 1) * 2 ^ h - 1"

definition npos :: "nat \<Rightarrow> nat \<Rightarrow> nat" where
  "npos h j = 2 * last_leaf h j - popcount j"

definition mmr_wf :: "MMRFoundation \<Rightarrow> bool" where
  "mmr_wf m \<longleftrightarrow> length (peaks m) = popcount (mmr_size m) \<and> node_count m = nodes_upto (mmr_size m)"

text \<open>The number of merges that adding a leaf to a range of \<open>n\<close> leaves causes.\<close>

function trailing_ones :: "nat \<Rightarrow> nat" where
  "trailing_ones n = (if odd n then Suc (trailing_ones (n div 2)) else 0)"
  by pat_completeness auto
termination
  by (relation "measure id") (auto elim!: oddE)

declare trailing_ones.simps [simp del]

fun add_leaves :: "hasher \<Rightarrow> bytes list \<Rightarrow> MMRFoundation \<Rightarrow> (node list \<times> MMRFoundation) option" where
  "add_leaves H [] m = Some ([], m)"
| "add_leaves H (x # xs) m =
     (case add_leaf H x m of
        None \<Rightarrow> None
      | Some (ns, m') \<Rightarrow>
          (case add_leaves H xs m' of
             None \<Rightarrow> None
           | Some (ns', m'') \<Rightarrow> Some (ns @ ns', m'')))"

section \<open>Counting nodes\<close>

lemma peak_stack_0 [simp]: "peak_stack H f k 0 = []"
  by (simp add: peak_stack.simps)

lemma peak_stack_even: "even m \<Longrightarrow> peak_stack H f k m = peak_stack H f (Suc k) (m div 2)"
  by (cases "m = 0") (simp_all add: peak_stack.simps [of H f k m])

lemma peak_stack_odd:
  "odd m \<Longrightarrow> peak_stack H f k m = block H f k (m - 1) # peak_stack H f (Suc k) (m div 2)"
  by (cases "m = 0") (simp_all add: peak_stack.simps [of H f k m])

lemma length_peak_stack: "length (peak_stack H f k m) = popcount m"
proof (induction m arbitrary: k rule: less_induct)
  case (less m)
  show ?case
  proof (cases "m = 0")
    case False
    then have "length (peak_stack H f (Suc k) (m div 2)) = popcount (m div 2)"
      by (intro less) simp
    then show ?thesis
      by (cases "even m") (simp_all add: peak_stack_even peak_stack_odd popcount_even popcount_odd)
  qed simp
qed

lemma trailing_ones_even [simp]: "even n \<Longrightarrow> trailing_ones n = 0"
  by (simp add: trailing_ones.simps [of n])

lemma trailing_ones_odd: "odd n \<Longrightarrow> trailing_ones n = Suc (trailing_ones (n div 2))"
  by (simp add: trailing_ones.simps [of n])

lemma odd_Suc_div2: "odd n \<Longrightarrow> Suc n div 2 = Suc (n div 2)"
  by (auto elim!: oddE)

lemma popcount_Suc_trailing: "popcount (Suc n) + trailing_ones n = Suc (popcount n)"
proof (induction n rule: less_induct)
  case (less n)
  show ?case
  proof (cases "even n")
    case True
    then show ?thesis by (simp add: popcount_even_Suc)
  next
    case False
    then have "popcount (Suc (n div 2)) + trailing_ones (n div 2) = Suc (popcount (n div 2))"
      by (intro less) (auto elim!: oddE)
    with False show ?thesis
      by (simp add: popcount_even [of "Suc n"] popcount_odd [of n] trailing_ones_odd odd_Suc_div2)
  qed
qed

lemma nodes_upto_Suc: "nodes_upto (Suc n) = Suc (nodes_upto n + trailing_ones n)"
  using popcount_Suc_trailing [of n] popcount_le [of n] by (simp add: nodes_upto_def)

lemma nodes_upto_0 [simp]: "nodes_upto 0 = 0"
  by (simp add: nodes_upto_def)

lemma nodes_upto_mono: "m \<le> n \<Longrightarrow> nodes_upto m \<le> nodes_upto n"
  by (rule lift_Suc_mono_le [of nodes_upto]) (simp_all add: nodes_upto_Suc)

lemma nodes_upto_less: "m < n \<Longrightarrow> nodes_upto m < nodes_upto n"
  by (rule lift_Suc_mono_less [of nodes_upto]) (simp_all add: nodes_upto_Suc)

section \<open>Adding a leaf\<close>

text \<open>On a well-formed range the merge loop always finds a peak to pop.\<close>

lemma merge_peaks_length:
  assumes "length pk = popcount pos"
  shows "\<exists>c pk' added. merge_peaks H pos cur pk nc = Some (c, pk', nc + trailing_ones pos, added)
    \<and> Suc (length pk') = popcount (Suc pos) \<and> map fst added = [nc..<nc + trailing_ones pos]"
  using assms
proof (induction pos arbitrary: cur pk nc rule: less_induct)
  case (less pos)
  show ?case
  proof (cases "odd pos")
    case False
    with less.prems show ?thesis
      by (simp add: merge_peaks.simps [of H pos] popcount_even_Suc)
  next
    case True
    then have "pos div 2 < pos" by (auto elim!: oddE)
    moreover have "length (butlast pk) = popcount (pos div 2)"
      using True less.prems by (simp add: popcount_odd)
    ultimately obtain c pk' added where IH:
      "merge_peaks H (pos div 2) (H (last pk @ cur)) (butlast pk) (Suc nc)
         = Some (c, pk', Suc nc + trailing_ones (pos div 2), added)"
      "Suc (length pk') = popcount (Suc (pos div 2))"
      "map fst added = [Suc nc..<Suc nc + trailing_ones (pos div 2)]"
      using less.IH by metis
    moreover have "pk \<noteq> []" using True less.prems by (auto simp: popcount_odd)
    moreover have "popcount (Suc pos) = popcount (Suc (pos div 2))"
      using True by (simp add: popcount_even [of "Suc pos"] odd_Suc_div2)
    ultimately show ?thesis
      using True by (simp add: merge_peaks.simps [of H pos] trailing_ones_odd upt_conv_Cons del: upt_Suc)
  qed
qed

text \<open>The peaks of the range are the blocks named by the binary digits of the leaf count.\<close>

lemma merge_peaks_stack:
  assumes "rev pk = peak_stack H f k pos"
  shows "\<exists>c pk'. merge_peaks H pos (block H f k pos) pk nc =
      Some (c, pk', nc + trailing_ones pos,
            map (\<lambda>i. (nc + i, block H f (k + i + 1) (pos div 2 ^ (i + 1)))) [0..<trailing_ones pos])
    \<and> c # rev pk' = peak_stack H f k (Suc pos)"
  using assms
proof (induction pos arbitrary: k pk nc rule: less_induct)
  case (less pos)
  show ?case
  proof (cases "odd pos")
    case False
    then have "peak_stack H f k (Suc pos) = block H f k pos # peak_stack H f (Suc k) (pos div 2)"
      by (simp add: peak_stack_odd)
    moreover have "peak_stack H f k pos = peak_stack H f (Suc k) (pos div 2)"
      using False by (simp add: peak_stack_even)
    ultimately show ?thesis
      using False less.prems by (simp add: merge_peaks.simps [of H pos] trailing_ones.simps [of pos])
  next
    case True
    then have pos0: "pos \<noteq> 0" by (cases pos) auto
    have st: "rev pk = block H f k (pos - 1) # peak_stack H f (Suc k) (pos div 2)"
      using True pos0 less.prems by (simp add: peak_stack.simps [of H f k pos])
    then have pk: "pk = rev (peak_stack H f (Suc k) (pos div 2)) @ [block H f k (pos - 1)]"
      by (metis rev_rev_ident rev.simps(2))
    define cur' where "cur' = block H f (Suc k) (pos div 2)"
    have two: "2 * (pos div 2) = pos - 1" using True by (auto elim!: oddE)
    have cur: "H (block H f k (pos - 1) @ block H f k pos) = cur'"
      using True pos0 by (simp add: cur'_def two)
    have "rev (butlast pk) = peak_stack H f (Suc k) (pos div 2)" by (simp add: pk)
    from less.IH [OF _ this, of "Suc nc"] pos0 obtain c pk' where
      IH: "merge_peaks H (pos div 2) cur' (butlast pk) (Suc nc) =
          Some (c, pk', Suc nc + trailing_ones (pos div 2),
            map (\<lambda>i. (Suc nc + i, block H f (Suc k + i + 1) (pos div 2 div 2 ^ (i + 1))))
              [0..<trailing_ones (pos div 2)])"
      and c: "c # rev pk' = peak_stack H f (Suc k) (Suc (pos div 2))"
      unfolding cur'_def by auto
    have "peak_stack H f k (Suc pos) = peak_stack H f (Suc k) (Suc (pos div 2))"
      using True by (subst peak_stack.simps) (auto elim!: oddE)
    moreover have "trailing_ones pos = Suc (trailing_ones (pos div 2))"
      using True by (subst trailing_ones.simps) simp
    moreover have "(nc, cur') # map (\<lambda>i. (Suc nc + i, block H f (Suc k + i + 1) (pos div 2 div 2 ^ (i + 1))))
              [0..<trailing_ones (pos div 2)]
        = map (\<lambda>i. (nc + i, block H f (k + i + 1) (pos div 2 ^ (i + 1)))) [0..<Suc (trailing_ones (pos div 2))]"
      by (simp add: upt_conv_Cons map_Suc_upt [symmetric] cur'_def div_mult2_eq del: upt_Suc block.simps)
    ultimately show ?thesis
      using True pk cur IH c by (simp add: merge_peaks.simps [of H pos])
  qed
qed

definition mmr_abs :: "hasher \<Rightarrow> (nat \<Rightarrow> digest) \<Rightarrow> nat \<Rightarrow> MMRFoundation \<Rightarrow> bool" where
  "mmr_abs H f n m \<longleftrightarrow>
     rev (peaks m) = peak_stack H f 0 n \<and> mmr_size m = n \<and> node_count m = nodes_upto n"

lemma mmr_abs_wf: "mmr_abs H f n m \<Longrightarrow> mmr_wf m"
  by (metis length_peak_stack length_rev mmr_abs_def mmr_wf_def)

lemma mmr_abs_new: "mmr_abs H f 0 mmr_new"
  by (simp add: mmr_abs_def mmr_new_def)

definition leaf_nodes :: "hasher \<Rightarrow> (nat \<Rightarrow> digest) \<Rightarrow> nat \<Rightarrow> node list" where
  "leaf_nodes H f n =
     map (\<lambda>i. (nodes_upto n + i, block H f i (n div 2 ^ i))) [0..<Suc (trailing_ones n)]"

lemma add_leaf_abs:
  assumes "mmr_abs H f n m" and "f n = H x"
  shows "\<exists>m'. add_leaf H x m = Some (leaf_nodes H f n, m') \<and> mmr_abs H f (Suc n) m'"
proof -
  from assms(1) have pk: "rev (peaks m) = peak_stack H f 0 n" and sz: "mmr_size m = n"
    and nc: "node_count m = nodes_upto n" by (simp_all add: mmr_abs_def)
  from merge_peaks_stack [OF pk, of "Suc (nodes_upto n)"] obtain c pk' where
    mp: "merge_peaks H n (H x) (peaks m) (Suc (nodes_upto n)) =
      Some (c, pk', Suc (nodes_upto n) + trailing_ones n,
        map (\<lambda>i. (Suc (nodes_upto n) + i, block H f (i + 1) (n div 2 ^ (i + 1)))) [0..<trailing_ones n])"
    and c: "c # rev pk' = peak_stack H f 0 (Suc n)"
    using assms(2) by auto
  have "(nodes_upto n, H x) #
      map (\<lambda>i. (Suc (nodes_upto n) + i, block H f (i + 1) (n div 2 ^ (i + 1)))) [0..<trailing_ones n]
      = leaf_nodes H f n"
    using assms(2)
    by (simp add: leaf_nodes_def upt_conv_Cons map_Suc_upt [symmetric] del: upt_Suc)
  with mp c show ?thesis
    by (simp add: add_leaf_def sz nc mmr_abs_def nodes_upto_Suc)
qed

lemma add_leaf_wf:
  assumes "mmr_wf m"
  shows "\<exists>ns m'. add_leaf H x m = Some (ns, m') \<and> mmr_wf m' \<and> mmr_size m' = Suc (mmr_size m)
    \<and> map fst ns = [node_count m..<node_count m']"
proof -
  from assms have "length (peaks m) = popcount (mmr_size m)" by (simp add: mmr_wf_def)
  from merge_peaks_length [OF this, of H "H x" "Suc (node_count m)"] obtain c pk' added where
    "merge_peaks H (mmr_size m) (H x) (peaks m) (Suc (node_count m)) =
       Some (c, pk', Suc (node_count m) + trailing_ones (mmr_size m), added)"
    "Suc (length pk') = popcount (Suc (mmr_size m))"
    "map fst added = [Suc (node_count m)..<Suc (node_count m) + trailing_ones (mmr_size m)]"
    by blast
  with assms show ?thesis
    by (simp add: add_leaf_def mmr_wf_def nodes_upto_Suc upt_conv_Cons Let_def del: upt_Suc)
qed

lemma add_leaves_positions:
  "mmr_wf m \<Longrightarrow> add_leaves H xs m = Some (ns, m') \<Longrightarrow>
     mmr_wf m' \<and> map fst ns = [node_count m..<node_count m'] \<and> node_count m \<le> node_count m'"
proof (induction xs arbitrary: m ns)
  case Nil
  then show ?case by simp
next
  case (Cons x xs)
  obtain ns1 m1 where 1: "add_leaf H x m = Some (ns1, m1)" "mmr_wf m1" "mmr_size m1 = Suc (mmr_size m)"
      "map fst ns1 = [node_count m..<node_count m1]"
    using add_leaf_wf [OF Cons.prems(1)] by blast
  with Cons.prems(2) obtain ns2 where 2: "add_leaves H xs m1 = Some (ns2, m')" "ns = ns1 @ ns2"
    by (auto split: option.splits)
  have le: "node_count m \<le> node_count m1"
    using 1 Cons.prems(1) by (simp add: mmr_wf_def nodes_upto_mono)
  have "[node_count m..<node_count m'] = [node_count m..<node_count m1] @ [node_count m1..<node_count m']"
    if "node_count m1 \<le> node_count m'"
    using upt_add_eq_append [OF le, of "node_count m' - node_count m1"] that by simp
  with Cons.IH [OF 1(2) 2(1)] 1 2 le show ?case by simp
qed

section \<open>The node log\<close>

text \<open>All nodes written while \<open>n\<close> leaves are added, in the order they are written.\<close>

definition node_log :: "hasher \<Rightarrow> (nat \<Rightarrow> digest) \<Rightarrow> nat \<Rightarrow> node list" where
  "node_log H f n = concat (map (leaf_nodes H f) [0..<n])"

lemma node_log_Suc: "node_log H f (Suc n) = node_log H f n @ leaf_nodes H f n"
  by (simp add: node_log_def)

lemma map_fst_leaf_nodes: "map fst (leaf_nodes H f n) = [nodes_upto n..<nodes_upto (Suc n)]"
proof -
  have "map fst (leaf_nodes H f n) = map (\<lambda>i. i + nodes_upto n) [0..<Suc (trailing_ones n)]"
    by (simp add: leaf_nodes_def comp_def add.commute)
  also have "\<dots> = [nodes_upto n..<nodes_upto (Suc n)]"
    by (simp add: nodes_upto_Suc map_add_upt add.commute [of "nodes_upto n"] del: upt_Suc)
  finally show ?thesis .
qed

lemma map_fst_node_log: "map fst (node_log H f n) = [0..<nodes_upto n]"
proof (induction n)
  case 0
  then show ?case by (simp add: node_log_def)
next
  case (Suc n)
  have "[0..<nodes_upto (Suc n)] = [0..<nodes_upto n] @ [nodes_upto n..<nodes_upto (Suc n)]"
    using upt_add_eq_append [of 0 "nodes_upto n" "Suc (trailing_ones n)"]
    by (simp add: nodes_upto_Suc del: upt_Suc)
  then show ?case
    using Suc by (simp add: node_log_Suc map_fst_leaf_nodes)
qed

lemma add_leaves_abs:
  assumes "mmr_abs H f n m" and "\<And>i. i < length xs \<Longrightarrow> f (n + i) = H (xs ! i)"
  shows "\<exists>m'. add_leaves H xs m = Some (concat (map (leaf_nodes H f) [n..<n + length xs]), m')
    \<and> mmr_abs H f (n + length xs) m'"
  using assms
proof (induction xs arbitrary: n m)
  case Nil
  then show ?case by simp
next
  case (Cons x xs)
  have "f n = H x" using Cons.prems(2) [of 0] by simp
  then obtain m1 where m1: "add_leaf H x m = Some (leaf_nodes H f n, m1)" "mmr_abs H f (Suc n) m1"
    using add_leaf_abs [OF Cons.prems(1)] by blast
  have "f (Suc n + i) = H (xs ! i)" if "i < length xs" for i
    using Cons.prems(2) [of "Suc i"] that by simp
  then obtain m' where
    "add_leaves H xs m1 = Some (concat (map (leaf_nodes H f) [Suc n..<Suc n + length xs]), m')"
    "mmr_abs H f (Suc n + length xs) m'"
    using Cons.IH [OF m1(2)] by blast
  then show ?case using m1 by (simp add: upt_conv_Cons del: upt_Suc)
qed

section \<open>Positions of blocks\<close>

lemma popcount_pow2_minus1: "popcount (2 ^ h - 1) = h"
proof (induction h)
  case 0
  then show ?case by simp
next
  case (Suc h)
  have "0 < (2 :: nat) ^ h" by simp
  then have "2 * (2 :: nat) ^ h - 1 = Suc (2 * (2 ^ h - 1))" by arith
  then have "(2 :: nat) ^ Suc h - 1 = Suc (2 * (2 ^ h - 1))" by simp
  then show ?case using Suc by (simp only: popcount_double_Suc)
qed

lemma last_leaf_split: "last_leaf h j = j * 2 ^ h + (2 ^ h - 1)"
proof -
  have "0 < (2 :: nat) ^ h" by simp
  then show ?thesis by (simp add: last_leaf_def algebra_simps)
qed

lemma last_leaf_0 [simp]: "last_leaf 0 j = j"
  by (simp add: last_leaf_def)

lemma last_leaf_Suc: "last_leaf (Suc h) j = Suc (2 * last_leaf h j)"
proof -
  have "0 < (j + 1) * (2 :: nat) ^ h" by simp
  then have "2 * ((j + 1) * (2 :: nat) ^ h) - 1 = Suc (2 * ((j + 1) * 2 ^ h - 1))" by arith
  then show ?thesis unfolding last_leaf_def by (simp only: power_Suc mult.left_commute)
qed

lemma last_leaf_less_iff: "last_leaf h j < n \<longleftrightarrow> (j + 1) * 2 ^ h \<le> n"
proof -
  have "0 < (j + 1) * (2 :: nat) ^ h" by simp
  then show ?thesis unfolding last_leaf_def by arith
qed

lemma last_leaf_div: "last_leaf h j div 2 ^ h = j"
  by (induction h) (simp_all add: last_leaf_Suc div_mult2_eq)

lemma last_leaf_ge: "j \<le> last_leaf h j"
  by (induction h) (simp_all add: last_leaf_Suc)

lemma last_leaf_Suc_block: "last_leaf h (Suc j) = last_leaf h j + 2 ^ h"
  by (simp add: last_leaf_split)

lemma last_leaf_parent: "odd j \<Longrightarrow> last_leaf (Suc h) (j div 2) = last_leaf h j"
  by (induction h) (auto simp: last_leaf_Suc elim!: oddE)

lemma popcount_last_leaf: "popcount (last_leaf h j) = popcount j + h"
  by (induction h) (simp_all add: last_leaf_Suc)

lemma popcount_le_last_leaf: "popcount j \<le> 2 * last_leaf h j"
  using popcount_le [of j] last_leaf_ge [of j h] by linarith

lemma npos_nodes_upto: "npos h j = nodes_upto (last_leaf h j) + h"
  using popcount_le [of "last_leaf h j"]
  unfolding npos_def nodes_upto_def popcount_last_leaf by linarith

lemma npos_leaf: "npos 0 j = nodes_upto j"
  by (simp add: npos_nodes_upto)

lemma trailing_ones_last_leaf: "h \<le> trailing_ones (last_leaf h j)"
  by (induction h) (simp_all add: last_leaf_Suc trailing_ones_odd)

lemma block_in_leaf_nodes: "(npos h j, block H f h j) \<in> set (leaf_nodes H f (last_leaf h j))"
proof -
  have "h \<in> set [0..<Suc (trailing_ones (last_leaf h j))]"
    using trailing_ones_last_leaf [of h j] by (simp add: less_Suc_eq_le del: upt_Suc)
  moreover have "(npos h j, block H f h j) =
      (nodes_upto (last_leaf h j) + h, block H f h (last_leaf h j div 2 ^ h))"
    by (simp only: npos_nodes_upto last_leaf_div)
  ultimately show ?thesis unfolding leaf_nodes_def set_map by (rule rev_image_eqI)
qed

lemma block_in_node_log:
  "last_leaf h j < n \<Longrightarrow> (npos h j, block H f h j) \<in> set (node_log H f n)"
  using block_in_leaf_nodes [of h j H f] by (auto simp: node_log_def)

lemma node_log_lookup:
  "last_leaf h j < n \<Longrightarrow> map_of (node_log H f n) (npos h j) = Some (block H f h j)"
  by (intro map_of_is_SomeI) (simp_all add: map_fst_node_log block_in_node_log)

lemma npos_less_nodes: "last_leaf h j < n \<Longrightarrow> npos h j < nodes_upto n"
proof -
  assume "last_leaf h j < n"
  then have "(npos h j, block undefined undefined h j) \<in> set (node_log undefined undefined n)"
    by (rule block_in_node_log)
  then have "npos h j \<in> set (map fst (node_log undefined undefined n))" by force
  then show ?thesis by (simp add: map_fst_node_log)
qed

lemma npos_even_Suc: "even j \<Longrightarrow> npos h (Suc j) = npos h j + (2 ^ h - 1 + 2 ^ h)"
proof -
  assume e: "even j"
  have "2 * (l + p) - Suc c = 2 * l - c + (p - 1 + p)" if "0 < p" "c \<le> 2 * l" for l p c :: nat
    using that by arith
  from this [of "2 ^ h" "popcount j" "last_leaf h j"] show ?thesis
    using popcount_le_last_leaf [of j h]
    unfolding npos_def last_leaf_Suc_block popcount_even_Suc [OF e] by (simp only: zero_less_power zero_less_numeral)
qed

lemma npos_parent_right: "odd j \<Longrightarrow> npos (Suc h) (j div 2) = npos h j + 1"
  using popcount_le_last_leaf [of j h]
  unfolding npos_def by (simp add: last_leaf_parent popcount_odd)

lemma npos_parent_left: "even j \<Longrightarrow> npos (Suc h) (j div 2) = npos h (Suc j) + 1"
  using npos_parent_right [of "Suc j" h] by simp

lemma npos_exists_iff: "npos h j < nodes_upto n \<longleftrightarrow> last_leaf h j < n"
proof
  assume lt: "npos h j < nodes_upto n"
  show "last_leaf h j < n"
  proof (rule ccontr)
    assume "\<not> last_leaf h j < n"
    then have "nodes_upto n \<le> nodes_upto (last_leaf h j)" by (intro nodes_upto_mono) simp
    with lt show False by (simp add: npos_nodes_upto)
  qed
qed (rule npos_less_nodes)

section \<open>Sibling paths\<close>

text \<open>The siblings of block \<open>(h, j)\<close> on the way up to the peak of a range of \<open>n\<close> leaves, as blocks.\<close>

function sibling_blocks :: "nat \<Rightarrow> nat \<Rightarrow> nat \<Rightarrow> (nat \<times> nat) list" where
  "sibling_blocks n h j =
     (if odd j then (h, j - 1) # sibling_blocks n (Suc h) (j div 2)
      else if last_leaf h (Suc j) < n then (h, Suc j) # sibling_blocks n (Suc h) (j div 2)
      else [])"
  by pat_completeness auto
termination
proof (relation "measure (\<lambda>(n, h, j). j + (Suc n - 2 ^ h))")
  fix n h j :: nat
  assume "odd j"
  then have "j div 2 < j" by (auto elim!: oddE)
  moreover have "Suc n - 2 ^ Suc h \<le> Suc n - 2 ^ h" by (rule diff_le_mono2) simp
  ultimately show "((n, Suc h, j div 2), (n, h, j)) \<in> measure (\<lambda>(n, h, j). j + (Suc n - 2 ^ h))"
    by simp
next
  fix n h j :: nat
  assume "last_leaf h (Suc j) < n"
  then have "2 ^ h < Suc n" by (simp add: last_leaf_less_iff)
  moreover have "(2 :: nat) ^ h < 2 ^ Suc h" by simp
  ultimately have "Suc n - 2 ^ Suc h < Suc n - 2 ^ h" by (rule diff_less_mono2 [rotated])
  moreover have "j div 2 \<le> j" by simp
  ultimately show "((n, Suc h, j div 2), (n, h, j)) \<in> measure (\<lambda>(n, h, j). j + (Suc n - 2 ^ h))"
    by simp
qed simp

declare sibling_blocks.simps [simp del]

text \<open>Recomputing a peak from a leaf hash and its sibling hashes, bottom up.\<close>

fun climb :: "hasher \<Rightarrow> digest \<Rightarrow> nat \<Rightarrow> digest list \<Rightarrow> digest" where
  "climb H cur j [] = cur"
| "climb H cur j (s # ss) = climb H (if odd j then H (s @ cur) else H (cur @ s)) (j div 2) ss"

lemma last_leaf_mono: "last_leaf h j \<le> last_leaf h (Suc j)"
  by (simp add: last_leaf_Suc_block)

lemma siblings_loop_spec:
  assumes "last_leaf h j < n" and "n \<le> 2 ^ 62"
  shows "siblings_loop (nodes_upto n) (npos h j) h j (n div 2 ^ h)
      = Some (map (\<lambda>(h, j). npos h j) (sibling_blocks n h j))"
  using assms
proof (induction n h j rule: sibling_blocks.induct)
  case (1 n h j)
  have "2 ^ h \<le> n" using "1.prems"(1) by (simp add: last_leaf_less_iff)
  then have pow: "(2 :: nat) ^ h \<le> 2 ^ 62" using "1.prems"(2) by (rule order_trans)
  then have h: "h \<le> 62" by (rule power_le_imp_le_exp [rotated]) simp
  have rem: "0 < n div 2 ^ h" using \<open>2 ^ h \<le> n\<close> by (simp add: div_greater_zero_iff)
  have nc: "nodes_upto n < 2 ^ 64" using "1.prems"(2) by (simp add: nodes_upto_def)
  have cur: "npos h j < nodes_upto n" using "1.prems"(1) by (rule npos_less_nodes)
  have "2 ^ h - 1 + 2 ^ h < (2 :: nat) ^ 64" using pow by simp
  then have offs: "Option.bind (checked_sub64 (2 ^ h) (Suc 0)) (\<lambda>low. Option.bind (checked_add64 low (2 ^ h)) g)
      = g (2 ^ h + 2 ^ h - Suc 0)" for g :: "nat \<Rightarrow> nat list option"
    by (simp add: checked_sub64_Some checked_add64_Some)
  note unfold = siblings_loop.simps [of "nodes_upto n" "npos h j" h j "n div 2 ^ h"]
    sibling_blocks.simps [of n h j] checked_shl64_one offs
  have halve: "n div 2 ^ h div 2 = n div 2 ^ Suc h" by (metis div_mult2_eq power_Suc2)
  show ?case
  proof (cases "odd j")
    case True
    then have sib: "npos h j - (2 ^ h - 1 + 2 ^ h) = npos h (j - 1)"
        "2 ^ h - 1 + 2 ^ h \<le> npos h j"
      using npos_even_Suc [of "j - 1" h] by (auto elim!: oddE)
    have "siblings_loop (nodes_upto n) (npos (Suc h) (j div 2)) (Suc h) (j div 2) (n div 2 ^ Suc h)
      = Some (map (\<lambda>(h, j). npos h j) (sibling_blocks n (Suc h) (j div 2)))"
      using True "1.prems" by (intro "1.IH"(1)) (simp_all add: last_leaf_parent)
    with True sib cur nc h rem show ?thesis
      by (simp add: unfold npos_parent_right checked_sub64_Some checked_add64_Some halve)
  next
    case even: False
    then have sib: "npos h j + (2 ^ h - 1 + 2 ^ h) = npos h (Suc j)"
      by (simp add: npos_even_Suc)
    show ?thesis
    proof (cases "last_leaf h (Suc j) < n")
      case True
      have "last_leaf (Suc h) (j div 2) = last_leaf h (Suc j)"
        using even last_leaf_parent [of "Suc j" h] by simp
      then have "siblings_loop (nodes_upto n) (npos (Suc h) (j div 2)) (Suc h) (j div 2) (n div 2 ^ Suc h)
        = Some (map (\<lambda>(h, j). npos h j) (sibling_blocks n (Suc h) (j div 2)))"
        using even True "1.prems" by (intro "1.IH"(2)) simp_all
      moreover have "npos h (Suc j) < nodes_upto n" using True by (rule npos_less_nodes)
      ultimately show ?thesis using even True sib nc h rem
        by (simp add: unfold npos_parent_left checked_add64_Some halve)
    next
      case False
      then have nsib: "\<not> npos h (Suc j) < nodes_upto n" by (simp add: npos_exists_iff)
      have "npos h j < 2 ^ 63" using cur "1.prems"(2) by (simp add: nodes_upto_def)
      then have "npos h (Suc j) < 2 ^ 64" using pow sib by simp
      with even False sib nsib h rem show ?thesis
        by (simp add: unfold checked_add64_Some)
    qed
  qed
qed

lemma mmr_proof_metadata_spec:
  assumes "i < n" and "n \<le> 2 ^ 62"
  shows "mmr_proof_metadata n (nodes_upto n) i
      = Some (npos 0 i, map (\<lambda>(h, j). npos h j) (sibling_blocks n 0 i))"
proof -
  have "npos 0 i < nodes_upto n" using assms(1) by (intro npos_less_nodes) simp
  moreover have "2 * i - popcount i = npos 0 i" by (simp add: npos_leaf nodes_upto_def)
  ultimately show ?thesis
    using siblings_loop_spec [of 0 i n] assms by (simp add: mmr_proof_metadata_def)
qed

lemma mmr_proof_metadata_None: "n \<le> i \<Longrightarrow> mmr_proof_metadata n nc i = None"
  by (simp add: mmr_proof_metadata_def)

text \<open>The block of height \<open>h\<close> at an odd digit of \<open>n\<close> is a peak.\<close>

lemma peak_stack_suffix: "\<exists>xs. peak_stack H f k n = xs @ peak_stack H f (k + h) (n div 2 ^ h)"
proof (induction h)
  case 0
  then show ?case by simp
next
  case (Suc h)
  let ?m = "n div 2 ^ h"
  have half: "?m div 2 = n div 2 ^ Suc h" by (metis div_mult2_eq power_Suc2)
  have "\<exists>ys. peak_stack H f (k + h) ?m = ys @ peak_stack H f (Suc (k + h)) (?m div 2)"
    by (cases "even ?m") (simp_all add: peak_stack_even peak_stack_odd)
  with Suc show ?case by (auto simp: half)
qed

lemma block_is_peak:
  assumes "even j" and "last_leaf h j < n" and "\<not> last_leaf h (Suc j) < n"
  shows "block H f h j \<in> set (peak_stack H f 0 n)"
proof -
  have "(j + 1) * 2 ^ h \<le> n" "n < (Suc j + 1) * 2 ^ h"
    using assms(2,3) by (simp_all only: last_leaf_less_iff not_le)
  then have "n div 2 ^ h = Suc j"
    by (intro div_nat_eqI) (simp_all add: mult.commute)
  moreover obtain xs where "peak_stack H f 0 n = xs @ peak_stack H f h (n div 2 ^ h)"
    using peak_stack_suffix [of H f 0 n h] by auto
  ultimately show ?thesis using assms(1) by (simp add: peak_stack_odd)
qed

lemma climb_sibling_blocks:
  assumes "last_leaf h j < n"
  shows "climb H (block H f h j) j (map (\<lambda>(h, j). block H f h j) (sibling_blocks n h j))
      \<in> set (peak_stack H f 0 n)"
  using assms
proof (induction n h j rule: sibling_blocks.induct)
  case (1 n h j)
  show ?case
  proof (cases "odd j")
    case True
    then have "block H f (Suc h) (j div 2) = H (block H f h (j - 1) @ block H f h j)"
      by (auto elim!: oddE)
    moreover have "climb H (block H f (Suc h) (j div 2)) (j div 2)
        (map (\<lambda>(h, j). block H f h j) (sibling_blocks n (Suc h) (j div 2))) \<in> set (peak_stack H f 0 n)"
      using True "1.prems" by (intro "1.IH"(1)) (simp_all add: last_leaf_parent)
    ultimately show ?thesis using True by (simp add: sibling_blocks.simps [of n h j])
  next
    case even: False
    show ?thesis
    proof (cases "last_leaf h (Suc j) < n")
      case True
      have "block H f (Suc h) (j div 2) = H (block H f h j @ block H f h (Suc j))"
        using even by (auto elim!: evenE)
      moreover have "climb H (block H f (Suc h) (j div 2)) (j div 2)
          (map (\<lambda>(h, j). block H f h j) (sibling_blocks n (Suc h) (j div 2))) \<in> set (peak_stack H f 0 n)"
        using even True last_leaf_parent [of "Suc j" h] by (intro "1.IH"(2)) simp_all
      ultimately show ?thesis using even True by (simp add: sibling_blocks.simps [of n h j])
    next
      case False
      then show ?thesis
        using even "1.prems" by (simp add: sibling_blocks.simps [of n h j] block_is_peak)
    qed
  qed
qed

lemma sibling_blocks_exist:
  "last_leaf h j < n \<Longrightarrow> (h', j') \<in> set (sibling_blocks n h j) \<Longrightarrow> last_leaf h' j' < n"
proof (induction n h j rule: sibling_blocks.induct)
  case (1 n h j)
  have "last_leaf h (j - 1) < n"
    using "1.prems"(1) last_leaf_mono [of h "j - 1"] by (cases j) simp_all
  moreover have "last_leaf (Suc h) (j div 2) < n" if "odd j"
    using that "1.prems"(1) by (simp add: last_leaf_parent)
  moreover have "last_leaf (Suc h) (j div 2) < n" if "even j" "last_leaf h (Suc j) < n"
    using that last_leaf_parent [of "Suc j" h] by simp
  ultimately show ?case
    using "1.prems"(2) "1.IH" by (auto simp: sibling_blocks.simps [of n h j] split: if_splits)
qed

section \<open>Heights, peak positions and paths of the helper functions\<close>

text \<open>\<^const>\<open>get_mmr_node_height\<close> is the height on the root of a complete tree that starts at
  position 0; that is the only way \<^const>\<open>get_mmr_path\<close> uses it.\<close>

lemma node_height_loop_root:
  assumes "k \<le> h" and "h + 1 < 64"
  shows "node_height_loop (2 ^ (h + 1) - 2 ^ (k + 1) + k) k = Some h"
  using assms
proof (induction "h - k" arbitrary: k)
  case 0
  then have "k = h" by simp
  moreover have "h < 2 ^ (h + 1) - 1"
  proof -
    have "Suc h < 2 ^ Suc h" by (rule less_exp)
    then show ?thesis by simp
  qed
  ultimately show ?case using 0 by (simp add: node_height_loop.simps)
next
  case (Suc d)
  then have kh: "k < h" by simp
  then have le: "(2 :: nat) ^ (k + 2) \<le> 2 ^ (h + 1)" by (intro power_increasing) simp_all
  let ?A = "(2 :: nat) ^ (h + 1)" and ?B = "(2 :: nat) ^ (k + 1)"
  have AB: "2 * ?B \<le> ?A" using le by simp
  have B: "k + 2 \<le> ?B + 1" using less_exp [of "k + 1"] by linarith
  have arith: "\<not> a - b + k < b - 1" "a - b + k - (b - 1) = a - 2 * b + (k + 1)"
    if "2 * b \<le> a" "0 < b" for a b :: nat
    using that by arith+
  have "node_height_loop (?A - ?B + k) k = node_height_loop (?A - 2 * ?B + (k + 1)) (k + 1)"
    using arith [OF AB] kh Suc.prems
    by (subst node_height_loop.simps) (simp del: power_Suc)
  also have "2 * ?B = 2 ^ (k + 1 + 1)" by simp
  also have "node_height_loop (?A - 2 ^ (k + 1 + 1) + (k + 1)) (k + 1) = Some h"
    using Suc.hyps(2) Suc.prems kh by (intro Suc.hyps(1)) simp_all
  finally show ?case .
qed

lemma get_mmr_node_height_root: "h + 1 < 64 \<Longrightarrow> get_mmr_node_height (npos h 0) = Some h"
  using node_height_loop_root [of 0 h]
  by (simp add: get_mmr_node_height_def npos_def last_leaf_def diff_mult_distrib2)

end
