(* ===== verification/Mmr_Paths.thy ===== *)
theory Mmr_Paths
  imports Mmr_Correct
begin

text \<open>
  The stateless position helpers of \<^verbatim>\<open>src/state/mod.rs\<close>: \<^const>\<open>get_mmr_peaks\<close> lists the positions
  of the peaks, and \<^const>\<open>get_mmr_path\<close> walks from a peak down to a leaf and finds exactly the
  siblings that \<^const>\<open>mmr_proof_metadata\<close> finds on the way up.
\<close>

section \<open>The mountains of a range\<close>

text \<open>The mountains of a range from left to right: \<open>r\<close> leaves that start at leaf \<open>b\<close>.\<close>

fun mountains :: "nat \<Rightarrow> nat \<Rightarrow> (nat \<times> nat) list" where
  "mountains b r =
     (if r = 0 then []
      else (ilog2 r, b div 2 ^ ilog2 r) # mountains (b + 2 ^ ilog2 r) (r - 2 ^ ilog2 r))"

declare mountains.simps [simp del]

lemma mountains_0 [simp]: "mountains b 0 = []"
  by (simp add: mountains.simps)

lemma mountains_induct [consumes 1, case_names zero mountain]:
  fixes b r :: nat
  assumes "\<exists>k. r < 2 ^ k \<and> 2 ^ k dvd b"
    and "\<And>b. P b 0"
    and "\<And>b q h s. b = q * 2 ^ h \<Longrightarrow> even q \<Longrightarrow> s < 2 ^ h \<Longrightarrow> ilog2 (2 ^ h + s) = h \<Longrightarrow>
       P (b + 2 ^ h) s \<Longrightarrow> P b (2 ^ h + s)"
  shows "P b r"
  using assms(1)
proof (induction r arbitrary: b rule: less_induct)
  case (less r)
  then obtain k where k: "r < 2 ^ k" "2 ^ k dvd b" by blast
  show ?case
  proof (cases "r = 0")
    case False
    define h where "h = ilog2 r"
    define s where "s = r - 2 ^ h"
    have r: "r = 2 ^ h + s" and s: "s < 2 ^ h"
      using False ilog2_le [of r] ilog2_less [of r] by (simp_all add: h_def s_def)
    have "(2 :: nat) ^ h < 2 ^ k" using r k(1) by linarith
    then have "h < k" by (rule power_less_imp_less_exp [rotated]) simp
    then have "2 ^ Suc h dvd (2 :: nat) ^ k" by (intro le_imp_power_dvd) simp
    then have dvd: "2 ^ Suc h dvd b" using k(2) by (rule dvd_trans)
    then obtain q where b: "b = q * 2 ^ h" and "even q" by (auto elim!: dvdE)
    have "2 ^ h dvd b + 2 ^ h" by (simp add: b)
    then have "P (b + 2 ^ h) s" using s r by (intro less.IH) auto
    moreover have "ilog2 (2 ^ h + s) = h" using r h_def by simp
    ultimately have "P b (2 ^ h + s)" using b \<open>even q\<close> s by (intro assms(3))
    then show ?thesis unfolding r [symmetric] .
  qed (simp add: assms(2))
qed

lemma mountains_step:
  "ilog2 (2 ^ h + s) = h \<Longrightarrow> mountains b (2 ^ h + s) = (h, b div 2 ^ h) # mountains (b + 2 ^ h) s"
  by (simp add: mountains.simps [of b "2 ^ h + s"])

lemma mountains_exist:
  fixes b r :: nat
  assumes "\<exists>k. r < 2 ^ k \<and> 2 ^ k dvd b" and "(h, j) \<in> set (mountains b r)"
  shows "last_leaf h j < b + r"
  using assms
proof (induction rule: mountains_induct)
  case (mountain b q g s)
  then show ?case
    by (auto simp: mountains_step last_leaf_less_iff add.assoc)
qed simp

lemma peak_stack_shift: "peak_stack H f k (q * 2 ^ h) = peak_stack H f (k + h) q"
proof (induction h arbitrary: k)
  case 0
  then show ?case by simp
next
  case (Suc h)
  have "peak_stack H f k (q * 2 ^ Suc h) = peak_stack H f (Suc k) (q * 2 ^ h)"
    by (subst peak_stack_even) simp_all
  then show ?case using Suc by simp
qed

lemma peaks_are_mountains:
  fixes b r :: nat
  assumes "\<exists>k. r < 2 ^ k \<and> 2 ^ k dvd b"
  shows "rev (peak_stack H f 0 (b + r))
      = rev (peak_stack H f 0 b) @ map (\<lambda>(h, j). block H f h j) (mountains b r)"
  using assms
proof (induction rule: mountains_induct)
  case (mountain b q h s)
  have "peak_stack H f 0 (b + 2 ^ h) = peak_stack H f h (Suc q)"
    using peak_stack_shift [of H f 0 "Suc q" h] mountain(1) by (simp add: add.commute)
  also have "\<dots> = block H f h q # peak_stack H f 0 b"
    using mountain(1,2) peak_stack_shift [of H f 0 q h] by (simp add: peak_stack_odd peak_stack_even [of q])
  finally show ?case
    using mountain by (simp add: mountains_step add.assoc)
qed simp

lemma nodes_upto_mult: "even q \<Longrightarrow> nodes_upto (q * 2 ^ h + 2 ^ h) = nodes_upto (q * 2 ^ h) + (2 ^ h + 2 ^ h - 1)"
proof -
  assume e: "even q"
  have eq: "q * 2 ^ h + 2 ^ h = Suc q * (2 :: nat) ^ h" by simp
  have "popcount q \<le> 2 * (q * 2 ^ h)" using popcount_le [of "q * 2 ^ h"] by simp
  moreover have "2 * (x + p) - Suc c = 2 * x - c + (p + p - 1)" if "c \<le> 2 * x" "0 < p" for x p c :: nat
    using that by arith
  ultimately have "2 * (q * 2 ^ h + 2 ^ h) - Suc (popcount q) = 2 * (q * 2 ^ h) - popcount q + (2 ^ h + 2 ^ h - 1)"
    by (simp only: zero_less_power zero_less_numeral)
  moreover have "popcount (q * 2 ^ h + 2 ^ h) = Suc (popcount q)"
    unfolding eq popcount_mult_pow2 popcount_even_Suc [OF e] ..
  ultimately show ?thesis
    unfolding nodes_upto_def by (simp only: popcount_mult_pow2)
qed

lemma npos_nodes_after: "npos h q + 1 = nodes_upto (q * 2 ^ h) + (2 ^ h + 2 ^ h - 1)"
proof -
  have "popcount q \<le> 2 * (q * 2 ^ h)" using popcount_le [of "q * 2 ^ h"] by simp
  moreover have "2 * (x + (p - 1)) - c + 1 = 2 * x - c + (p + p - 1)" if "c \<le> 2 * x" "0 < p" for x p c :: nat
    using that by (cases p) simp_all
  ultimately have "2 * (q * 2 ^ h + (2 ^ h - 1)) - popcount q + 1 = 2 * (q * 2 ^ h) - popcount q + (2 ^ h + 2 ^ h - 1)"
    by (simp only: zero_less_power zero_less_numeral)
  then show ?thesis
    unfolding npos_def nodes_upto_def last_leaf_split popcount_mult_pow2 .
qed

lemma ilog2_bound: "2 ^ h + s < (2 :: nat) ^ 63 \<Longrightarrow> h + 1 < 64"
proof -
  assume "2 ^ h + s < (2::nat) ^ 63"
  then have "(2 :: nat) ^ h < 2 ^ 63" by linarith
  then have "h < 63" by (rule power_less_imp_less_exp [rotated]) simp
  then show ?thesis by simp
qed

lemma mmr_peaks_loop_spec:
  fixes b r :: nat
  assumes "\<exists>k. r < 2 ^ k \<and> 2 ^ k dvd b" and "r < 2 ^ 63"
  shows "mmr_peaks_loop r (nodes_upto b) = Some (map (\<lambda>(h, j). npos h j) (mountains b r))"
  using assms
proof (induction rule: mountains_induct)
  case (zero b)
  then show ?case by (simp add: mmr_peaks_loop.simps)
next
  case (mountain b q h s)
  have h: "h + 1 < 64" using mountain.prems by (rule ilog2_bound)
  have pos: "nodes_upto b + (2 ^ h + 2 ^ h - 1) - 1 = npos h q"
    using npos_nodes_after [of h q] unfolding mountain(1) by linarith
  have next_off: "nodes_upto b + (2 ^ h + 2 ^ h - 1) = nodes_upto (b + 2 ^ h)"
    using nodes_upto_mult [OF mountain(2), of h] unfolding mountain(1) by (rule sym)
  have two: "(2 :: nat) ^ (h + 1) - 1 = 2 ^ h + 2 ^ h - 1" by simp
  have "mmr_peaks_loop s (nodes_upto (b + 2 ^ h)) = Some (map (\<lambda>(h, j). npos h j) (mountains (b + 2 ^ h) s))"
    using mountain.prems by (intro mountain.IH) simp
  moreover have "b div 2 ^ h = q" using mountain(1) by simp
  ultimately show ?case
    using h mountain(4) pos next_off unfolding mmr_peaks_loop.simps [of "2 ^ h + s"] Let_def
    by (simp only: two mountains_step) simp
qed

lemma start_aligned: "\<exists>k. (n :: nat) < 2 ^ k \<and> 2 ^ k dvd (0 :: nat)"
  using ilog2_less [of n] by blast

lemma peaks_mountains:
  "mmr_abs H f n m \<Longrightarrow> peaks m = map (\<lambda>(h, j). block H f h j) (mountains 0 n)"
  using peaks_are_mountains [OF start_aligned [of n], where H = H and f = f]
  by (simp add: mmr_abs_def) (metis rev_rev_ident)

lemma get_mmr_peaks_spec:
  "n < 2 ^ 63 \<Longrightarrow> get_mmr_peaks n = Some (map (\<lambda>(h, j). npos h j) (mountains 0 n))"
  using mmr_peaks_loop_spec [OF start_aligned, of n] by (simp add: get_mmr_peaks_def)

section \<open>Walking down from a peak\<close>

text \<open>The sibling of the ancestor of leaf \<open>i\<close> at height \<open>t\<close>.\<close>

definition sib :: "nat \<Rightarrow> nat \<Rightarrow> nat \<times> nat" where
  "sib i t = (t, if odd (i div 2 ^ t) then i div 2 ^ t - 1 else Suc (i div 2 ^ t))"

abbreviation sib_pos :: "nat \<Rightarrow> nat \<Rightarrow> nat" where
  "sib_pos i t \<equiv> (case sib i t of (h, j) \<Rightarrow> npos h j)"

lemma npos_split_height: "npos h q = nodes_upto (q * 2 ^ h) + npos h 0"
  using npos_nodes_after [of h q] npos_nodes_after [of h 0] by simp

lemma npos_left_child: "npos (Suc h) j = npos h (2 * j) + 2 ^ Suc h"
  using npos_parent_left [of "2 * j" h] npos_even_Suc [of "2 * j" h] by simp

lemma npos_right_child: "npos (Suc h) j = npos h (Suc (2 * j)) + 1"
  using npos_parent_right [of "Suc (2 * j)" h] by simp

lemma nodes_upto_right_start: "npos h (2 * j) + 1 = nodes_upto (Suc (2 * j) * 2 ^ h)"
  using npos_nodes_after [of h "2 * j"] nodes_upto_mult [of "2 * j" h] by (simp add: add.commute)

lemma leaf_le_npos_iff: "npos 0 i \<le> npos h j \<longleftrightarrow> i \<le> last_leaf h j"
  using npos_exists_iff [of h j i] by (simp only: npos_leaf not_less [symmetric])

lemma le_last_leaf_div: "i \<le> last_leaf h (i div 2 ^ h)"
proof -
  have "i < Suc (i div 2 ^ h) * 2 ^ h" using dividend_less_div_times [of "2 ^ h" i] by simp
  then show ?thesis by (simp add: last_leaf_def)
qed

lemma div_Suc_pow: "(i :: nat) div 2 ^ Suc h = i div 2 ^ h div 2"
  by (metis div_mult2_eq power_Suc2)

lemma mmr_path_loop_spec:
  "h < 63 \<Longrightarrow> mmr_path_loop (npos 0 i) (npos h (i div 2 ^ h)) (nodes_upto (i div 2 ^ h * 2 ^ h))
     = Some (rev (map (sib_pos i) [0..<h]))"
proof (induction h)
  case 0
  then show ?case by (simp add: mmr_path_loop.simps)
next
  case (Suc h)
  define j where "j = i div 2 ^ Suc h"
  let ?p = "npos (Suc h) j" and ?s = "nodes_upto (j * 2 ^ Suc h)"
  have below: "npos 0 i < ?p"
    using nodes_upto_mono [OF le_last_leaf_div [of i "Suc h"]]
    by (simp add: npos_leaf npos_nodes_upto flip: j_def del: power_Suc)
  have height: "get_mmr_node_height (?p - ?s) = Some (Suc h)" "?s \<le> ?p"
    using Suc.prems npos_split_height [of "Suc h" j] get_mmr_node_height_root [of "Suc h"] by simp_all
  have left: "?p - 2 ^ Suc h = npos h (2 * j)" "2 ^ Suc h \<le> ?p" by (simp_all add: npos_left_child)
  have right: "?p - 1 = npos h (Suc (2 * j))" by (simp add: npos_right_child)
  have unfold: "mmr_path_loop (npos 0 i) ?p ?s =
      (if npos 0 i \<le> npos h (2 * j)
       then map_option ((#) (npos h (Suc (2 * j)))) (mmr_path_loop (npos 0 i) (npos h (2 * j)) ?s)
       else map_option ((#) (npos h (2 * j)))
         (mmr_path_loop (npos 0 i) (npos h (Suc (2 * j))) (nodes_upto (Suc (2 * j) * 2 ^ h))))"
    by (subst mmr_path_loop.simps)
      (simp only: below height checked_sub64_def left right Let_def nodes_upto_right_start if_True bind.simps)
  have half: "i div 2 ^ h div 2 = j" by (simp only: j_def div_Suc_pow)
  show ?case
  proof (cases "odd (i div 2 ^ h)")
    case True
    then have q: "i div 2 ^ h = Suc (2 * j)" using half by (auto elim!: oddE)
    have "Suc (2 * j) * 2 ^ h \<le> i" unfolding q [symmetric] by simp
    then have "last_leaf h (2 * j) < i" by (simp add: last_leaf_less_iff)
    then show ?thesis
      unfolding j_def [symmetric] using Suc unfold q by (simp add: leaf_le_npos_iff sib_def)
  next
    case False
    then have q: "i div 2 ^ h = 2 * j" using half by (auto elim!: evenE)
    then have "i \<le> last_leaf h (2 * j)" using le_last_leaf_div [of i h] by simp
    then show ?thesis
      unfolding j_def [symmetric] using Suc unfold q
      by (simp add: leaf_le_npos_iff sib_def mult.assoc mult.left_commute [of 2])
  qed
qed

section \<open>The walk up meets the walk down\<close>

lemma last_leaf_div_mono: "k \<le> h \<Longrightarrow> last_leaf k (i div 2 ^ k) \<le> last_leaf h (i div 2 ^ h)"
proof (induction h rule: dec_induct)
  case (step h)
  have "last_leaf h (i div 2 ^ h) \<le> last_leaf (Suc h) (i div 2 ^ Suc h)"
    using last_leaf_parent [of "i div 2 ^ h" h] last_leaf_parent [of "Suc (i div 2 ^ h)" h]
      last_leaf_mono [of h "i div 2 ^ h"]
    by (cases "odd (i div 2 ^ h)") (simp_all add: div_Suc_pow del: power_Suc)
  with step show ?case by simp
qed simp

lemma sibling_blocks_upto_peak:
  assumes "k \<le> h" and "even (i div 2 ^ h)" and "last_leaf h (i div 2 ^ h) < n"
    and "\<not> last_leaf h (Suc (i div 2 ^ h)) < n"
  shows "sibling_blocks n k (i div 2 ^ k) = map (sib i) [k..<h]"
  using assms(1)
proof (induction rule: inc_induct)
  case base
  then show ?case using assms by (simp add: sibling_blocks.simps)
next
  case (step k)
  have "last_leaf (Suc k) (i div 2 ^ Suc k) < n"
    using last_leaf_div_mono [of "Suc k" h i] step.hyps assms(3) by simp
  then have "last_leaf k (Suc (i div 2 ^ k)) < n" if "even (i div 2 ^ k)"
    using that last_leaf_parent [of "Suc (i div 2 ^ k)" k] by (simp add: div_Suc_pow del: power_Suc)
  moreover have "[k..<h] = k # [Suc k..<h]" using step.hyps by (simp add: upt_conv_Cons)
  ultimately show ?case
    using step.IH unfolding sibling_blocks.simps [of n k]
    by (simp add: sib_def div_Suc_pow del: power_Suc)
qed

lemma find_target_peak_spec:
  fixes b r :: nat
  assumes "\<exists>k. r < 2 ^ k \<and> 2 ^ k dvd b" and "b \<le> i" and "i < b + r"
  shows "\<exists>h. find_target_peak (npos 0 i) (map (\<lambda>(h, j). npos h j) (mountains b r)) (nodes_upto b)
        = Some (npos h (i div 2 ^ h), nodes_upto (i div 2 ^ h * 2 ^ h))
      \<and> even (i div 2 ^ h) \<and> last_leaf h (i div 2 ^ h) < b + r \<and> \<not> last_leaf h (Suc (i div 2 ^ h)) < b + r"
  using assms
proof (induction rule: mountains_induct)
  case (mountain b q h s)
  have m: "mountains b (2 ^ h + s) = (h, q) # mountains (b + 2 ^ h) s"
    using mountain(1,4) by (simp add: mountains_step)
  show ?case
  proof (cases "i < b + 2 ^ h")
    case True
    then have d: "i div 2 ^ h = q"
      using mountain.prems mountain(1) by (intro div_nat_eqI) (simp_all add: mult.commute)
    have "i \<le> last_leaf h q" using le_last_leaf_div [of i h] d by simp
    then have "find_target_peak (npos 0 i) (map (\<lambda>(h, j). npos h j) (mountains b (2 ^ h + s))) (nodes_upto b)
        = Some (npos h (i div 2 ^ h), nodes_upto (i div 2 ^ h * 2 ^ h))"
      using m d mountain(1) by (simp add: leaf_le_npos_iff)
    moreover have "last_leaf h q < b + (2 ^ h + s)" "\<not> last_leaf h (Suc q) < b + (2 ^ h + s)"
      using mountain(1,3) by (simp_all add: last_leaf_less_iff)
    ultimately show ?thesis using d mountain(2) by blast
  next
    case False
    then have "\<not> i \<le> last_leaf h q" using mountain(1) by (simp add: not_le last_leaf_less_iff)
    moreover have "npos h q + 1 = nodes_upto (b + 2 ^ h)"
      using npos_nodes_after [of h q] nodes_upto_mult [OF mountain(2), of h] unfolding mountain(1) by simp
    ultimately have "find_target_peak (npos 0 i) (map (\<lambda>(h, j). npos h j) (mountains b (2 ^ h + s))) (nodes_upto b)
      = find_target_peak (npos 0 i) (map (\<lambda>(h, j). npos h j) (mountains (b + 2 ^ h) s)) (nodes_upto (b + 2 ^ h))"
      using m by (simp add: leaf_le_npos_iff)
    then show ?thesis using mountain.IH False mountain.prems by (simp add: add.assoc)
  qed
qed simp

lemma get_mmr_path_spec:
  assumes "i < n" and "n \<le> 2 ^ 62"
  shows "get_mmr_path (npos 0 i) n = Some (map (\<lambda>(h, j). npos h j) (sibling_blocks n 0 i))"
proof -
  obtain h where h: "find_target_peak (npos 0 i) (map (\<lambda>(h, j). npos h j) (mountains 0 n)) 0
        = Some (npos h (i div 2 ^ h), nodes_upto (i div 2 ^ h * 2 ^ h))"
      "even (i div 2 ^ h)" "last_leaf h (i div 2 ^ h) < n" "\<not> last_leaf h (Suc (i div 2 ^ h)) < n"
    using find_target_peak_spec [OF start_aligned, of i n] assms(1) by auto
  have "2 ^ h \<le> n" using h(3) by (simp add: last_leaf_less_iff)
  then have "(2 :: nat) ^ h \<le> 2 ^ 62" using assms(2) by (rule order_trans)
  then have "h \<le> 62" by (rule power_le_imp_le_exp [rotated]) simp
  moreover have "sibling_blocks n 0 (i div 2 ^ 0) = map (sib i) [0..<h]"
    using h by (intro sibling_blocks_upto_peak) simp_all
  ultimately show ?thesis
    using h(1) assms(2) mmr_path_loop_spec [of h i]
    by (simp add: get_mmr_path_def get_mmr_peaks_spec rev_map)
qed

section \<open>The helpers return on every input\<close>

text \<open>A complete tree of height \<open>h\<close> that starts at \<open>s\<close> has its root at \<open>s + 2 ^ (h + 1) - 2\<close>.\<close>

definition tree_root :: "nat \<Rightarrow> nat \<Rightarrow> nat" where
  "tree_root s h = s + (2 ^ Suc h - 2)"

lemma tree_root_children:
  "tree_root s (Suc h) - 2 ^ Suc h = tree_root s h" "tree_root s (Suc h) - 1 = tree_root (tree_root s h + 1) h"
  "2 ^ Suc h \<le> tree_root s (Suc h)" "s \<le> tree_root s h" "tree_root s h - s = npos h 0"
proof -
  obtain a where "(2 :: nat) ^ h = Suc a" using gr0_implies_Suc [of "2 ^ h"] by auto
  then show "tree_root s (Suc h) - 2 ^ Suc h = tree_root s h" "tree_root s (Suc h) - 1 = tree_root (tree_root s h + 1) h"
    "2 ^ Suc h \<le> tree_root s (Suc h)" "s \<le> tree_root s h" "tree_root s h - s = npos h 0"
    by (simp_all add: tree_root_def npos_def last_leaf_def)
qed

lemma mmr_path_loop_total:
  "h < 63 \<Longrightarrow> s \<le> pos \<Longrightarrow> pos \<le> tree_root s h \<Longrightarrow>
     \<exists>path. mmr_path_loop pos (tree_root s h) s = Some path \<and> length path \<le> h"
proof (induction h arbitrary: s)
  case 0
  then show ?case by (simp add: tree_root_def mmr_path_loop.simps)
next
  case (Suc h)
  let ?p = "tree_root s (Suc h)" and ?l = "tree_root s h"
  have height: "get_mmr_node_height (npos (Suc h) 0) = Some (Suc h)"
    using Suc.prems(1) get_mmr_node_height_root [of "Suc h"] by simp
  have unfold: "mmr_path_loop pos ?p s =
      (if pos < ?p then
         if pos \<le> ?l then map_option ((#) (tree_root (?l + 1) h)) (mmr_path_loop pos ?l s)
         else map_option ((#) ?l) (mmr_path_loop pos (tree_root (?l + 1) h) (?l + 1))
       else Some [])"
    by (subst mmr_path_loop.simps)
      (simp only: height checked_sub64_def tree_root_children Let_def if_True bind.simps)
  show ?case
  proof (cases "pos < ?p")
    case True
    then have "pos \<le> tree_root (?l + 1) h" by (simp only: tree_root_children(2) [symmetric])
    then show ?thesis
      using Suc.IH [of s] Suc.IH [of "?l + 1"] Suc.prems True unfold by (cases "pos \<le> ?l") force+
  qed (use unfold in simp)
qed

lemma mmr_peaks_loop_total:
  "n < 2 ^ 63 \<Longrightarrow>
     \<exists>ps. mmr_peaks_loop n off = Some ps
       \<and> (\<forall>p s. off \<le> pos \<longrightarrow> find_target_peak pos ps off = Some (p, s) \<longrightarrow> (\<exists>h < 63. p = tree_root s h \<and> s \<le> pos \<and> pos \<le> p))"
proof (induction n off rule: mmr_peaks_loop.induct)
  case (1 n off)
  show ?case
  proof (cases "0 < n")
    case True
    define h where "h = ilog2 n"
    have h: "2 ^ h \<le> n" using True by (simp add: h_def ilog2_le)
    then have "(2 :: nat) ^ h < 2 ^ 63" using 1(2) by simp
    then have h63: "h < 63" by (rule power_less_imp_less_exp [rotated]) simp
    have root: "off + (2 ^ (h + 1) - 1) - 1 = tree_root off h" "off + (2 ^ (h + 1) - 1) = tree_root off h + 1"
      using gr0_implies_Suc [of "2 ^ h"] by (auto simp: tree_root_def)
    have "\<exists>ps. mmr_peaks_loop (n - 2 ^ h) (tree_root off h + 1) = Some ps
        \<and> (\<forall>p s. tree_root off h + 1 \<le> pos \<longrightarrow> find_target_peak pos ps (tree_root off h + 1) = Some (p, s) \<longrightarrow>
             (\<exists>h < 63. p = tree_root s h \<and> s \<le> pos \<and> pos \<le> p))"
      using 1(1) [OF True refl refl] h63 1(2) unfolding h_def [symmetric] root by simp
    then obtain ps where ps: "mmr_peaks_loop (n - 2 ^ h) (tree_root off h + 1) = Some ps"
      "tree_root off h + 1 \<le> pos \<Longrightarrow> find_target_peak pos ps (tree_root off h + 1) = Some (p, s) \<Longrightarrow>
         \<exists>h < 63. p = tree_root s h \<and> s \<le> pos \<and> pos \<le> p" for p s by blast
    have "mmr_peaks_loop n off = Some (tree_root off h # ps)"
      using True h63 ps(1) root by (subst mmr_peaks_loop.simps) (simp add: Let_def flip: h_def)
    moreover have "\<exists>k < 63. p = tree_root s k \<and> s \<le> pos \<and> pos \<le> p"
      if "off \<le> pos" "find_target_peak pos (tree_root off h # ps) off = Some (p, s)" for p s
      using that h63 ps(2) by (cases "pos \<le> tree_root off h") auto
    ultimately show ?thesis by blast
  qed (simp add: mmr_peaks_loop.simps)
qed

lemma get_mmr_path_total:
  assumes "n < 2 ^ 63"
  shows "\<exists>path. get_mmr_path pos n = Some path \<and> length path \<le> 62"
proof -
  obtain ps where ps: "mmr_peaks_loop n 0 = Some ps"
    "find_target_peak pos ps 0 = Some (p, s) \<Longrightarrow> \<exists>h < 63. p = tree_root s h \<and> s \<le> pos \<and> pos \<le> p" for p s
    using mmr_peaks_loop_total [OF assms, of 0 pos] by auto
  show ?thesis
  proof (cases "find_target_peak pos ps 0")
    case (Some q)
    obtain p s where q: "q = (p, s)" by fastforce
    with ps(2) Some obtain h where h: "h < 63" "p = tree_root s h" "s \<le> pos" "pos \<le> p" by blast
    then obtain path where "mmr_path_loop pos p s = Some path" "length path \<le> h" using mmr_path_loop_total by blast
    then show ?thesis using h(1) ps(1) Some q by (simp add: get_mmr_path_def get_mmr_peaks_def)
  qed (simp add: get_mmr_path_def get_mmr_peaks_def ps(1))
qed

end
