(* ===== verification/Nexus_Text.thy ===== *)
theory Nexus_Text
  imports Complex_Main Nexus_Prelude
begin

text \<open>
  The string methods of the Rust standard library that the sources call
  (\<^verbatim>\<open>starts_with\<close>, \<^verbatim>\<open>contains\<close>, \<^verbatim>\<open>find\<close>, \<^verbatim>\<open>trim\<close>, \<^verbatim>\<open>to_ascii_lowercase\<close>, \<^verbatim>\<open>replace\<close>,
  \<^verbatim>\<open>trim_start_matches\<close>, \<^verbatim>\<open>trim_end_matches\<close>), decimal printing as \<^verbatim>\<open>Display\<close> does it, values of
  \<^verbatim>\<open>serde_json::Value\<close> with the accessors in use, and the printing of JSON strings.
  Strings are UTF-8 byte sequences, so the Unicode white space that \<^verbatim>\<open>trim\<close> removes appears
  with its encodings.
\<close>

section \<open>Searching\<close>

definition starts_with :: "string \<Rightarrow> string \<Rightarrow> bool" where
  "starts_with s p \<longleftrightarrow> take (length p) s = p"

fun contains :: "string \<Rightarrow> string \<Rightarrow> bool" where
  "contains [] p \<longleftrightarrow> p = []"
| "contains (c # s) p \<longleftrightarrow> starts_with (c # s) p \<or> contains s p"

definition position :: "('a \<Rightarrow> bool) \<Rightarrow> 'a list \<Rightarrow> nat option" where
  "position P xs = (let i = length (takeWhile (\<lambda>x. \<not> P x) xs) in if i < length xs then Some i else None)"

definition find_char :: "string \<Rightarrow> char \<Rightarrow> nat option" where
  "find_char s c = position (\<lambda>x. x = c) s"

definition strip_prefix :: "string \<Rightarrow> string \<Rightarrow> string option" where
  "strip_prefix s p = (if starts_with s p then Some (drop (length p) s) else None)"

lemma starts_with_iff: "starts_with s p \<longleftrightarrow> (\<exists>t. s = p @ t)"
  unfolding starts_with_def by (metis append_eq_conv_conj append_take_drop_id)

lemma starts_with_append [simp]: "starts_with (p @ t) p"
  by (simp add: starts_with_def)

lemma strip_prefix_append [simp]: "strip_prefix (p @ t) p = Some t"
  by (simp add: strip_prefix_def)

lemma strip_prefix_Some: "strip_prefix s p = Some t \<longleftrightarrow> s = p @ t"
  by (auto simp: strip_prefix_def starts_with_iff)

lemma contains_iff: "contains s p \<longleftrightarrow> (\<exists>a b. s = a @ p @ b)"
proof (induction s)
  case Nil
  then show ?case by auto
next
  case (Cons c s)
  then show ?case
    by (auto simp: starts_with_iff Cons_eq_append_conv intro: exI [of _ "[]"])
qed

lemma position_Some_iff:
  "position P xs = Some i \<longleftrightarrow> i < length xs \<and> P (xs ! i) \<and> (\<forall>j < i. \<not> P (xs ! j))"
proof (induction xs arbitrary: i)
  case Nil
  then show ?case by (simp add: position_def)
next
  case (Cons x xs)
  have cons: "position P (x # xs) = (if P x then Some 0 else map_option Suc (position P xs))"
    by (simp add: position_def Let_def)
  show ?case
  proof (cases i)
    case 0
    then show ?thesis by (auto simp: cons)
  next
    case (Suc k)
    then show ?thesis using Cons.IH [of k] by (auto simp: cons less_Suc_eq_0_disj)
  qed
qed

lemma position_None_iff: "position P xs = None \<longleftrightarrow> (\<forall>x \<in> set xs. \<not> P x)"
proof -
  have "length (takeWhile (\<lambda>x. \<not> P x) xs) < length xs \<longleftrightarrow> (\<exists>x \<in> set xs. P x)"
    by (induction xs) auto
  then show ?thesis by (simp add: position_def Let_def)
qed

section \<open>Trimming and rewriting\<close>

text \<open>The number of bytes of the white-space character at the front, 0 when there is none: the
  code points with the property White\_Space in their UTF-8 encoding.\<close>

definition byte_at :: "string \<Rightarrow> nat \<Rightarrow> nat" where
  "byte_at s i = (if i < length s then of_char (s ! i) else 256)"

definition ws_front :: "string \<Rightarrow> nat" where
  "ws_front s =
     (let a = byte_at s 0; b = byte_at s 1; c = byte_at s 2 in
      if (9 \<le> a \<and> a \<le> 13) \<or> a = 32 then 1
      else if a = 194 \<and> (b = 133 \<or> b = 160) then 2
      else if a = 225 \<and> b = 154 \<and> c = 128 then 3
      else if a = 226 \<and> b = 128 \<and> ((128 \<le> c \<and> c \<le> 138) \<or> c = 168 \<or> c = 169 \<or> c = 175) then 3
      else if a = 226 \<and> b = 129 \<and> c = 159 then 3
      else if a = 227 \<and> b = 128 \<and> c = 128 then 3
      else 0)"

lemma ws_front_Nil [simp]: "ws_front [] = 0"
  by (simp add: ws_front_def byte_at_def)

function trim_start :: "string \<Rightarrow> string" where
  "trim_start s = (if ws_front s = 0 then s else trim_start (drop (ws_front s) s))"
  by pat_completeness auto
termination
proof (relation "measure length")
  fix s assume "ws_front s \<noteq> 0"
  then show "(drop (ws_front s) s, s) \<in> measure length" by (cases s) auto
qed simp

declare trim_start.simps [simp del]

text \<open>The same at the end: the last one, two or three bytes are such a character.\<close>

definition ws_back :: "string \<Rightarrow> nat" where
  "ws_back s =
     (let n = length s in
      if 1 \<le> n \<and> ws_front (drop (n - 1) s) = 1 then 1
      else if 2 \<le> n \<and> ws_front (drop (n - 2) s) = 2 then 2
      else if 3 \<le> n \<and> ws_front (drop (n - 3) s) = 3 then 3
      else 0)"

function trim_end :: "string \<Rightarrow> string" where
  "trim_end s = (if ws_back s = 0 then s else trim_end (take (length s - ws_back s) s))"
  by pat_completeness auto
termination
  by (relation "measure length") (auto simp: ws_back_def Let_def split: if_splits)

declare trim_end.simps [simp del]

definition trim :: "string \<Rightarrow> string" where
  "trim s = trim_end (trim_start s)"

fun trim_start_matches :: "string \<Rightarrow> string \<Rightarrow> string" where
  "trim_start_matches p [] = []"
| "trim_start_matches p (c # s) =
     (if p \<noteq> [] \<and> starts_with (c # s) p then trim_start_matches p (drop (length p - 1) s) else c # s)"

definition trim_end_char :: "char \<Rightarrow> string \<Rightarrow> string" where
  "trim_end_char c s = rev (dropWhile (\<lambda>x. x = c) (rev s))"

definition ascii_lower :: "char \<Rightarrow> char" where
  "ascii_lower c = (let n = of_char c :: nat in if 65 \<le> n \<and> n \<le> 90 then char_of (n + 32) else c)"

definition to_ascii_lowercase :: "string \<Rightarrow> string" where
  "to_ascii_lowercase s = map ascii_lower s"

definition replace_char :: "(char \<Rightarrow> string) \<Rightarrow> string \<Rightarrow> string" where
  "replace_char f s = concat (map f s)"

definition is_ascii_hexdigit :: "char \<Rightarrow> bool" where
  "is_ascii_hexdigit c \<longleftrightarrow> hex_val c \<noteq> None"

lemma trim_end_char_no_suffix: "trim_end_char c s = [] \<or> last (trim_end_char c s) \<noteq> c"
proof (cases "dropWhile (\<lambda>x. x = c) (rev s)")
  case Nil
  then show ?thesis by (simp add: trim_end_char_def)
next
  case (Cons x xs)
  then have "x \<noteq> c" by (metis (mono_tags) dropWhile_eq_Cons_conv)
  with Cons show ?thesis by (simp add: trim_end_char_def)
qed

lemma hex_decode_length: "hex_decode s = Some bs \<Longrightarrow> length s = 2 * length bs"
  by (induction s arbitrary: bs rule: hex_decode.induct) (auto split: option.splits)

lemma hex_decode_hexdigits:
  "even (length s) \<Longrightarrow> list_all is_ascii_hexdigit s \<Longrightarrow> hex_decode s \<noteq> None"
  by (induction s rule: hex_decode.induct) (auto simp: is_ascii_hexdigit_def split: option.splits)

section \<open>Decimal numbers\<close>

fun show_nat :: "nat \<Rightarrow> string" where
  "show_nat n = (if n < 10 then [hex_digit n] else show_nat (n div 10) @ [hex_digit (n mod 10)])"

declare show_nat.simps [simp del]

definition show_int :: "int \<Rightarrow> string" where
  "show_int i = (if i < 0 then CHR ''-'' # show_nat (nat (- i)) else show_nat (nat i))"

definition is_digit :: "char \<Rightarrow> bool" where
  "is_digit c \<longleftrightarrow> (let n = of_char c :: nat in 48 \<le> n \<and> n \<le> 57)"

definition read_nat :: "string \<Rightarrow> nat" where
  "read_nat s = foldl (\<lambda>acc c. 10 * acc + (of_char c - 48)) 0 s"

text \<open>\<^verbatim>\<open>str::parse\<close> at an unsigned type with values below the bound: an optional plus sign, then digits.\<close>

definition parse_unsigned :: "nat \<Rightarrow> string \<Rightarrow> nat option" where
  "parse_unsigned bound s =
     (let digits = (case s of c # cs \<Rightarrow> if c = CHR ''+'' then cs else s | [] \<Rightarrow> []) in
      if digits \<noteq> [] \<and> list_all is_digit digits \<and> read_nat digits < bound then Some (read_nat digits) else None)"

lemma of_char_hex_digit: "n < 10 \<Longrightarrow> of_char (hex_digit n) = 48 + n"
  by (simp add: hex_digit_def)

lemma read_show_nat [simp]: "read_nat (show_nat n) = n"
proof (induction n rule: show_nat.induct)
  case (1 n)
  show ?case
  proof (cases "n < 10")
    case True
    then show ?thesis by (simp add: show_nat.simps [of n] read_nat_def of_char_hex_digit)
  next
    case False
    with 1 show ?thesis by (simp add: show_nat.simps [of n] read_nat_def of_char_hex_digit)
  qed
qed

lemma show_nat_inj [simp]: "show_nat a = show_nat b \<longleftrightarrow> a = b"
  by (metis read_show_nat)

lemma show_nat_digits: "c \<in> set (show_nat n) \<Longrightarrow> is_digit c"
proof (induction n rule: show_nat.induct)
  case (1 n)
  then show ?case
    by (cases "n < 10") (auto simp: show_nat.simps [of n] is_digit_def of_char_hex_digit)
qed

lemma show_nat_nonempty [simp]: "show_nat n \<noteq> []"
  by (simp add: show_nat.simps [of n])

lemma parse_show_nat: "n < bound \<Longrightarrow> parse_unsigned bound (show_nat n) = Some n"
proof -
  have "hd (show_nat n) \<noteq> CHR ''+''" using show_nat_digits [of "hd (show_nat n)" n] by (auto simp: is_digit_def)
  moreover have "list_all is_digit (show_nat n)" using show_nat_digits by (simp add: list_all_iff)
  moreover obtain c cs where "show_nat n = c # cs" by (cases "show_nat n") simp_all
  moreover assume "n < bound"
  ultimately show ?thesis using read_show_nat [of n] by (simp add: parse_unsigned_def)
qed

lemma show_int_chars: "c \<in> set (show_int i) \<Longrightarrow> is_digit c \<or> c = CHR ''-''"
  by (auto simp: show_int_def show_nat_digits split: if_splits)

lemma show_nat_no_minus: "CHR ''-'' \<notin> set (show_nat n)"
  using show_nat_digits [of "CHR ''-''" n] by (auto simp: is_digit_def)

lemma show_int_inj [simp]: "show_int a = show_int b \<longleftrightarrow> a = b"
proof
  assume eq: "show_int a = show_int b"
  have hd: "show_nat n \<noteq> CHR ''-'' # s" for n s using show_nat_no_minus [of n] by auto
  from eq show "a = b"
    by (auto simp: show_int_def hd hd [symmetric] split: if_splits)
qed simp

section \<open>JSON values\<close>

text \<open>\<^verbatim>\<open>serde_json::Value\<close>; a number is a non-negative integer, a negative integer or a float, and
  an object keeps one value per key.\<close>

datatype jnum = PosInt u64 | NegInt i64 | Float rat

datatype json =
    JNull
  | JBool bool
  | JNum jnum
  | JStr string
  | JArr "json list"
  | JObj "(string \<times> json) list"

fun json_get :: "string \<Rightarrow> json \<Rightarrow> json option" where
  "json_get k (JObj kvs) = map_of kvs k"
| "json_get k _ = None"

fun as_str :: "json \<Rightarrow> string option" where
  "as_str (JStr s) = Some s"
| "as_str _ = None"

fun as_array :: "json \<Rightarrow> json list option" where
  "as_array (JArr xs) = Some xs"
| "as_array _ = None"

fun json_as_u64 :: "json \<Rightarrow> u64 option" where
  "json_as_u64 (JNum (PosInt n)) = Some n"
| "json_as_u64 _ = None"

fun is_object :: "json \<Rightarrow> bool" where
  "is_object (JObj _) = True"
| "is_object _ = False"

text \<open>The indexing of \<^verbatim>\<open>Value\<close>: a missing member, or a member of something else, is \<^verbatim>\<open>null\<close>.\<close>

definition json_member :: "json \<Rightarrow> string \<Rightarrow> json" where
  "json_member v k = (case json_get k v of Some x \<Rightarrow> x | None \<Rightarrow> JNull)"

fun json_index :: "json \<Rightarrow> nat \<Rightarrow> json" where
  "json_index (JArr xs) i = (if i < length xs then xs ! i else JNull)"
| "json_index _ i = JNull"

text \<open>The nearest double of an integer, ties to even; \<^verbatim>\<open>as f64\<close> and \<^verbatim>\<open>Value::as_f64\<close>.\<close>

definition rne_div :: "nat \<Rightarrow> nat \<Rightarrow> nat" where
  "rne_div a b =
     (let q = a div b; r = a mod b in
      if 2 * r < b then q else if b < 2 * r then q + 1 else if even q then q else q + 1)"

definition f64_of_nat :: "nat \<Rightarrow> nat" where
  "f64_of_nat n = (if n < 2 ^ 53 then n else let e = ilog2 n - 52 in rne_div n (2 ^ e) * 2 ^ e)"

fun as_f64 :: "json \<Rightarrow> rat option" where
  "as_f64 (JNum (PosInt n)) = Some (of_nat (f64_of_nat n))"
| "as_f64 (JNum (NegInt i)) = Some (- of_nat (f64_of_nat (nat (- i))))"
| "as_f64 (JNum (Float r)) = Some r"
| "as_f64 _ = None"

text \<open>The string literal that \<^verbatim>\<open>serde_json\<close> writes.\<close>

definition json_escape :: "char \<Rightarrow> string" where
  "json_escape c =
     (let n = of_char c :: nat in
      if n = 34 then [CHR 0x5C, CHR 0x22]
      else if n = 92 then [CHR 0x5C, CHR 0x5C]
      else if n = 8 then [CHR 0x5C, CHR ''b'']
      else if n = 9 then [CHR 0x5C, CHR ''t'']
      else if n = 10 then [CHR 0x5C, CHR ''n'']
      else if n = 12 then [CHR 0x5C, CHR ''f'']
      else if n = 13 then [CHR 0x5C, CHR ''r'']
      else if n < 32 then [CHR 0x5C] @ ''u00'' @ [hex_digit (n div 16), hex_digit (n mod 16)]
      else [c])"

definition json_string :: "string \<Rightarrow> string" where
  "json_string s = [CHR 0x22] @ concat (map json_escape s) @ [CHR 0x22]"

fun join :: "string \<Rightarrow> string list \<Rightarrow> string" where
  "join sep [] = []"
| "join sep [x] = x"
| "join sep (x # y # xs) = x @ sep @ join sep (y # xs)"

lemma join_chars: "c \<in> set (join sep xs) \<Longrightarrow> c \<in> set sep \<or> (\<exists>x \<in> set xs. c \<in> set x)"
  by (induction sep xs rule: join.induct) auto

lemma trim_id: "ws_front s = 0 \<Longrightarrow> ws_back s = 0 \<Longrightarrow> trim s = s"
  by (simp add: trim_def trim_start.simps [of s] trim_end.simps [of s])

lemma ws_front_digits: "\<forall>c \<in> set s. is_digit c \<Longrightarrow> ws_front s = 0"
  by (cases s) (auto simp: ws_front_def byte_at_def is_digit_def Let_def)

lemma trim_digits: "\<forall>c \<in> set s. is_digit c \<Longrightarrow> trim s = s"
proof (rule trim_id)
  assume d: "\<forall>c \<in> set s. is_digit c"
  then show "ws_front s = 0" by (rule ws_front_digits)
  from d have "ws_front (drop k s) = 0" for k by (intro ws_front_digits) (meson in_set_dropD)
  then show "ws_back s = 0" by (simp add: ws_back_def Let_def)
qed

end
