(* ===== verification/Nexus_State.thy ===== *)
theory Nexus_State
  imports Mmr_Paths Nexus_Text
begin

text \<open>
  The state tracker \<^verbatim>\<open>NexusState\<close> of \<^verbatim>\<open>src/state/mod.rs\<close>: the leaf list, the Merkle tree over it,
  the cached state root and the mountain range, with the operations that read and write them, and
  \<^verbatim>\<open>verify_merkle_proof\<close>.

  The fields sit behind mutexes in the code.  Each operation here is one method body run to its end;
  the order in which the methods take the locks is the subject of the theory \<open>Nexus_Locks\<close>.  A result
  that is an index out of bounds or a failed \<^verbatim>\<open>expect\<close> in the code is \<^const>\<open>None\<close>.
\<close>

section \<open>Data\<close>

record MerkleProof =
  mp_leaf :: string
  mp_path :: "(string \<times> bool) list"
  mp_root :: string

record MMRProof =
  mmrp_leaf :: string
  mmrp_pos :: u64
  mmrp_siblings :: "(u64 \<times> string) list"
  mmrp_peaks :: "string list"
  mmrp_root :: string

record NexusState =
  state_root :: string
  leaves :: "string list"
  tree_levels :: "digest list list"
  mmr :: MMRFoundation

definition state_new :: NexusState where
  "state_new = \<lparr>state_root = zero_root, leaves = [], tree_levels = [], mmr = mmr_new\<rparr>"

definition get_state_root :: "NexusState \<Rightarrow> string" where
  "get_state_root s = state_root s"

definition get_mmr_root :: "hasher \<Rightarrow> NexusState \<Rightarrow> string" where
  "get_mmr_root H s = get_root H (mmr s)"

definition get_mmr_state :: "NexusState \<Rightarrow> digest list \<times> nat" where
  "get_mmr_state s = (peaks (mmr s), mmr_size (mmr s))"

section \<open>The Merkle tree\<close>

text \<open>One level up: \<^verbatim>\<open>chunks(2)\<close>, where a last chunk of one element is hashed with itself.\<close>

fun pair_level :: "hasher \<Rightarrow> digest list \<Rightarrow> digest list" where
  "pair_level H [] = []"
| "pair_level H [a] = [H (a @ a)]"
| "pair_level H (a # b # xs) = H (a @ b) # pair_level H xs"

lemma length_pair_level: "length (pair_level H xs) = (length xs + 1) div 2"
  by (induction H xs rule: pair_level.induct) simp_all

function build_levels :: "hasher \<Rightarrow> digest list \<Rightarrow> digest list list" where
  "build_levels H current =
     (if 1 < length current then current # build_levels H (pair_level H current) else [current])"
  by pat_completeness auto
termination
  by (relation "measure (\<lambda>(H, xs). length xs)") (auto simp: length_pair_level)

declare build_levels.simps [simp del]

definition rebuild_tree :: "hasher \<Rightarrow> string list \<Rightarrow> NexusState \<Rightarrow> NexusState" where
  "rebuild_tree H ls s =
     (if ls = [] then s\<lparr>state_root := zero_root, tree_levels := []\<rparr>
      else let levels = build_levels H (map (\<lambda>l. H (as_bytes l)) ls) in
        s\<lparr>state_root := hex0x (hd (last levels)), tree_levels := levels\<rparr>)"

definition update_state_batch ::
  "hasher \<Rightarrow> string list \<Rightarrow> NexusState \<Rightarrow> (node list \<times> NexusState) option" where
  "update_state_batch H tx_ids s =
     (let s1 = s\<lparr>leaves := leaves s @ tx_ids\<rparr>; s2 = rebuild_tree H (leaves s1) s1 in
      case add_leaves H (map as_bytes tx_ids) (mmr s2) of
        None \<Rightarrow> None
      | Some (added_nodes, m) \<Rightarrow> Some (added_nodes, s2\<lparr>mmr := m\<rparr>))"

definition update_state :: "hasher \<Rightarrow> string \<Rightarrow> u64 \<Rightarrow> NexusState \<Rightarrow> NexusState option" where
  "update_state H tx_id height s = map_option snd (update_state_batch H [tx_id] s)"

definition set_initial_leaves :: "hasher \<Rightarrow> string list \<Rightarrow> NexusState \<Rightarrow> NexusState option" where
  "set_initial_leaves H ls s =
     (let s1 = s\<lparr>leaves := ls\<rparr>; s2 = rebuild_tree H (leaves s1) s1;
          m0 = (mmr s2)\<lparr>peaks := [], mmr_size := 0, node_count := 0\<rparr> in
      case add_leaves H (map as_bytes ls) m0 of
        None \<Rightarrow> None
      | Some (_, m) \<Rightarrow> Some (s2\<lparr>mmr := m\<rparr>))"

definition set_mmr_state :: "digest list \<Rightarrow> nat \<Rightarrow> NexusState \<Rightarrow> NexusState" where
  "set_mmr_state pk n s = s\<lparr>mmr := (mmr s)\<lparr>peaks := pk, mmr_size := n\<rparr>\<rparr>"

section \<open>Proofs\<close>

definition sibling_index :: "nat \<Rightarrow> nat \<Rightarrow> nat" where
  "sibling_index idx len =
     (if idx mod 2 = 0 then if idx + 1 < len then idx + 1 else idx else idx - 1)"

fun merkle_path :: "digest list list \<Rightarrow> nat \<Rightarrow> (string \<times> bool) list option" where
  "merkle_path [] idx = Some []"
| "merkle_path (level # ls) idx =
     (let sidx = sibling_index idx (length level) in
      if sidx < length level then
        map_option ((#) (hex0x (level ! sidx), idx mod 2 = 0)) (merkle_path ls (idx div 2))
      else None)"

definition get_leaf_index :: "string \<Rightarrow> NexusState \<Rightarrow> nat option" where
  "get_leaf_index tx_id s = position (\<lambda>l. l = tx_id) (leaves s)"

definition get_leaf_by_index :: "nat \<Rightarrow> NexusState \<Rightarrow> string option" where
  "get_leaf_by_index i s = (if i < length (leaves s) then Some (leaves s ! i) else None)"

text \<open>The outer option is the panic of \<^verbatim>\<open>level[sibling_idx]\<close>, the inner one the returned option.\<close>

definition generate_merkle_proof :: "string \<Rightarrow> NexusState \<Rightarrow> MerkleProof option option" where
  "generate_merkle_proof key s =
     (case get_leaf_index key s of
        None \<Rightarrow> Some None
      | Some index \<Rightarrow>
          if tree_levels s = [] then Some None
          else map_option
            (\<lambda>path. Some \<lparr>mp_leaf = key, mp_path = path, mp_root = get_state_root s\<rparr>)
            (merkle_path (butlast (tree_levels s)) index))"

definition merkle_proof_json :: "MerkleProof \<Rightarrow> string" where
  "merkle_proof_json p =
     [CHR ''{''] @ json_string ''leaf'' @ '':'' @ json_string (mp_leaf p)
       @ '','' @ json_string ''path'' @ '':[''
       @ join '','' (map (\<lambda>(h, l). ''['' @ json_string h @ '','' @ (if l then ''true'' else ''false'') @ '']'')
            (mp_path p))
       @ ''],'' @ json_string ''root'' @ '':'' @ json_string (mp_root p) @ [CHR ''}'']"

definition generate_proof :: "string \<Rightarrow> NexusState \<Rightarrow> (string \<times> string) option" where
  "generate_proof key s =
     (case generate_merkle_proof key s of
        None \<Rightarrow> None
      | Some (Some proof) \<Rightarrow> Some (mp_root proof, merkle_proof_json proof)
      | Some None \<Rightarrow> Some (get_state_root s, ''{}''))"

text \<open>\<^verbatim>\<open>verify_merkle_proof\<close>: fold the path into the leaf hash; a sibling that is not hexadecimal
  rejects.\<close>

fun fold_path :: "hasher \<Rightarrow> digest \<Rightarrow> (string \<times> bool) list \<Rightarrow> digest option" where
  "fold_path H current [] = Some current"
| "fold_path H current ((sib_str, is_left) # ps) =
     (case hex_decode (trim_start_matches ''0x'' sib_str) of
        None \<Rightarrow> None
      | Some sibling \<Rightarrow>
          fold_path H (if is_left then H (current @ sibling) else H (sibling @ current)) ps)"

definition verify_merkle_proof :: "hasher \<Rightarrow> MerkleProof \<Rightarrow> bool" where
  "verify_merkle_proof H p =
     (case fold_path H (H (as_bytes (mp_leaf p))) (mp_path p) of
        None \<Rightarrow> False
      | Some current \<Rightarrow> hex0x current = mp_root p)"

definition get_mmr_proof_metadata :: "nat \<Rightarrow> NexusState \<Rightarrow> (u64 \<times> u64 list) option" where
  "get_mmr_proof_metadata leaf_index s =
     mmr_proof_metadata (length (leaves s)) (node_count (mmr s)) leaf_index"

definition assemble_mmr_proof ::
  "hasher \<Rightarrow> string \<Rightarrow> u64 \<Rightarrow> (u64 \<times> string) list \<Rightarrow> NexusState \<Rightarrow> MMRProof" where
  "assemble_mmr_proof H leaf pos sibs s =
     \<lparr>mmrp_leaf = leaf, mmrp_pos = pos, mmrp_siblings = sibs,
      mmrp_peaks = map hex0x (peaks (mmr s)), mmrp_root = get_root H (mmr s)\<rparr>"

end
