(* ===== verification/Nexus_State_Correct.thy ===== *)
theory Nexus_State_Correct
  imports Nexus_State
begin

text \<open>
  Correctness of the state tracker.  The invariant \<open>state_inv\<close> says that the tree levels and the root
  are those of the current leaves and that the mountain range is the one those leaves build; every
  state that the update operations reach satisfies it.  On top of it: membership proofs verify
  (completeness), a verifying proof of full length names a leaf (soundness, for a hash without
  collisions on the strings involved), and range proofs lead to a peak.
\<close>

section \<open>The accumulator interface\<close>

text \<open>What the tracker relies on: adding an entry to a well-formed accumulator succeeds and keeps it
  well formed, and a batch is added entry by entry.\<close>

locale leaf_accumulator =
  fixes init :: 's
    and add :: "'x \<Rightarrow> 's \<Rightarrow> ('n list \<times> 's) option"
    and add_all :: "'x list \<Rightarrow> 's \<Rightarrow> ('n list \<times> 's) option"
    and inv :: "'s \<Rightarrow> bool"
    and count :: "'s \<Rightarrow> nat"
  assumes inv_init: "inv init"
    and count_init: "count init = 0"
    and add_total: "inv s \<Longrightarrow> \<exists>ns s'. add x s = Some (ns, s') \<and> inv s' \<and> count s' = Suc (count s)"
    and add_all_Nil: "add_all [] s = Some ([], s)"
    and add_all_Cons: "add_all (x # xs) s =
       (case add x s of None \<Rightarrow> None
        | Some (ns, s') \<Rightarrow> map_option (map_prod ((@) ns) id) (add_all xs s'))"
begin

lemma add_all_total:
  "inv s \<Longrightarrow> \<exists>ns s'. add_all xs s = Some (ns, s') \<and> inv s' \<and> count s' = count s + length xs"
proof (induction xs arbitrary: s)
  case Nil
  then show ?case by (simp add: add_all_Nil)
next
  case (Cons x xs)
  obtain ns s1 where "add x s = Some (ns, s1)" "inv s1" "count s1 = Suc (count s)"
    using add_total [OF Cons.prems] by blast
  with Cons.IH [of s1] show ?case by (auto simp: add_all_Cons)
qed

lemma add_all_append:
  "add_all (xs @ ys) s =
     (case add_all xs s of None \<Rightarrow> None
      | Some (ns, s') \<Rightarrow> map_option (map_prod ((@) ns) id) (add_all ys s'))"
proof (induction xs arbitrary: s)
  case Nil
  then show ?case by (cases "add_all ys s") (auto simp: add_all_Nil)
next
  case (Cons x xs)
  then show ?case
    by (auto simp: add_all_Cons option.map_comp comp_def map_prod_def split_def split: option.split)
qed

lemma add_all_init: "\<exists>ns s'. add_all xs init = Some (ns, s') \<and> inv s' \<and> count s' = length xs"
  using add_all_total [OF inv_init, of xs] by (simp add: count_init)

end

interpretation range: leaf_accumulator mmr_new "add_leaf H" "add_leaves H" mmr_wf mmr_size for H
proof
  show "mmr_wf mmr_new" by (simp add: mmr_wf_def mmr_new_def)
  show "mmr_size mmr_new = 0" by (simp add: mmr_new_def)
  show "\<exists>ns s'. add_leaf H x s = Some (ns, s') \<and> mmr_wf s' \<and> mmr_size s' = Suc (mmr_size s)"
    if "mmr_wf s" for x s
    using add_leaf_wf [OF that] by blast
  show "add_leaves H [] s = Some ([], s)" for s by simp
  show "add_leaves H (x # xs) s =
      (case add_leaf H x s of None \<Rightarrow> None
       | Some (ns, s') \<Rightarrow> map_option (map_prod ((@) ns) id) (add_leaves H xs s'))" for x xs s
    by (auto split: option.split)
qed

section \<open>The invariant\<close>

definition leaf_hashes :: "hasher \<Rightarrow> NexusState \<Rightarrow> digest list" where
  "leaf_hashes H s = map (\<lambda>l. H (as_bytes l)) (leaves s)"

definition tree_ok :: "hasher \<Rightarrow> NexusState \<Rightarrow> bool" where
  "tree_ok H s \<longleftrightarrow>
     (if leaves s = [] then state_root s = zero_root \<and> tree_levels s = []
      else tree_levels s = build_levels H (leaf_hashes H s)
        \<and> state_root s = hex0x (hd (last (tree_levels s))))"

definition state_inv :: "hasher \<Rightarrow> NexusState \<Rightarrow> bool" where
  "state_inv H s \<longleftrightarrow>
     tree_ok H s \<and> (\<exists>ns. add_leaves H (map as_bytes (leaves s)) mmr_new = Some (ns, mmr s))"

lemma state_inv_new: "state_inv H state_new"
  by (simp add: state_inv_def tree_ok_def state_new_def)

lemma rebuild_tree_ok: "tree_ok H (rebuild_tree H (leaves s) s)"
  by (simp add: rebuild_tree_def tree_ok_def leaf_hashes_def Let_def)

lemma rebuild_tree_fields [simp]:
  "leaves (rebuild_tree H ls s) = leaves s" "mmr (rebuild_tree H ls s) = mmr s"
  by (simp_all add: rebuild_tree_def Let_def)

lemma tree_ok_mmr [simp]: "tree_ok H (s\<lparr>mmr := m\<rparr>) = tree_ok H s"
  by (simp add: tree_ok_def leaf_hashes_def)

lemma state_inv_wf: "state_inv H s \<Longrightarrow> mmr_wf (mmr s) \<and> mmr_size (mmr s) = length (leaves s)"
  using range.add_all_init [of H "map as_bytes (leaves s)"] by (auto simp: state_inv_def)

lemma update_state_batch_inv:
  assumes "state_inv H s"
  shows "\<exists>ns s'. update_state_batch H tx_ids s = Some (ns, s') \<and> state_inv H s'
    \<and> leaves s' = leaves s @ tx_ids \<and> map fst ns = [node_count (mmr s)..<node_count (mmr s')]"
proof -
  let ?s = "rebuild_tree H (leaves s @ tx_ids) (s\<lparr>leaves := leaves s @ tx_ids\<rparr>)"
  from assms obtain ns0 where ns0: "add_leaves H (map as_bytes (leaves s)) mmr_new = Some (ns0, mmr s)"
    by (auto simp: state_inv_def)
  obtain ns m where m: "add_leaves H (map as_bytes tx_ids) (mmr s) = Some (ns, m)"
    using range.add_all_total state_inv_wf [OF assms] by blast
  then have all: "add_leaves H (map as_bytes (leaves s @ tx_ids)) mmr_new = Some (ns0 @ ns, m)"
    using ns0 by (simp add: range.add_all_append)
  have "tree_ok H ?s" using rebuild_tree_ok [of H "s\<lparr>leaves := leaves s @ tx_ids\<rparr>"] by simp
  with all have inv: "state_inv H (?s\<lparr>mmr := m\<rparr>)" by (simp add: state_inv_def)
  have "map fst ns = [node_count (mmr s)..<node_count m]"
    using m state_inv_wf [OF assms] add_leaves_positions by blast
  with m inv show ?thesis by (simp add: update_state_batch_def)
qed

text \<open>A batch is the sequence of its parts, and loading leaves is a fresh tracker fed with them.\<close>

lemma update_state_batch_split:
  "update_state_batch H (xs @ ys) s =
     (case update_state_batch H xs s of None \<Rightarrow> None
      | Some (ns, s') \<Rightarrow> map_option (map_prod ((@) ns) id) (update_state_batch H ys s'))"
proof -
  have "rebuild_tree H ls (rebuild_tree H ks s\<lparr>mmr := m, leaves := ls\<rparr>) = rebuild_tree H ls (s\<lparr>mmr := m, leaves := ls\<rparr>)"
    for ks ls m by (simp add: rebuild_tree_def Let_def)
  moreover have "rebuild_tree H ls (s\<lparr>leaves := ls, mmr := m\<rparr>) = (rebuild_tree H ls (s\<lparr>leaves := ls\<rparr>))\<lparr>mmr := m\<rparr>"
    for ls m by (simp add: rebuild_tree_def Let_def)
  ultimately show ?thesis
    by (auto simp: update_state_batch_def range.add_all_append rebuild_tree_def Let_def split: option.split)
qed

lemma set_initial_leaves_batch:
  "set_initial_leaves H ls s = map_option snd (update_state_batch H ls state_new)"
proof -
  have "(mmr s)\<lparr>peaks := [], mmr_size := 0, node_count := 0\<rparr> = mmr_new"
    by (cases "mmr s") (simp add: mmr_new_def)
  then show ?thesis
    by (simp add: set_initial_leaves_def update_state_batch_def state_new_def rebuild_tree_def Let_def
        split: option.split)
qed

inductive nexus_reachable :: "hasher \<Rightarrow> NexusState \<Rightarrow> bool" for H where
  fresh: "nexus_reachable H state_new"
| batch: "nexus_reachable H s \<Longrightarrow> update_state_batch H tx_ids s = Some (ns, s') \<Longrightarrow> nexus_reachable H s'"
| load: "nexus_reachable H s \<Longrightarrow> set_initial_leaves H ls s = Some s' \<Longrightarrow> nexus_reachable H s'"

lemma reachable_inv: "nexus_reachable H s \<Longrightarrow> state_inv H s"
proof (induction rule: nexus_reachable.induct)
  case fresh
  then show ?case by (rule state_inv_new)
next
  case (batch s tx_ids ns s')
  then show ?case using update_state_batch_inv [of H s tx_ids] by auto
next
  case (load s ls s')
  then show ?case
    using update_state_batch_inv [OF state_inv_new, of H ls] by (auto simp: set_initial_leaves_batch)
qed

section \<open>Membership proofs verify\<close>

lemma trim_0x_hex0x [simp]: "trim_start_matches ''0x'' (hex0x d) = hex_encode d"
proof -
  have "trim_start_matches ''0x'' (hex_encode d) = hex_encode d"
  proof (cases d)
    case (Cons b bs)
    have "hex_digit (unat b mod 16) \<noteq> CHR ''x''" by (rule hex_digit_not_x) simp
    with Cons show ?thesis by (simp add: hex_encode_def hex_byte_def starts_with_def)
  qed (simp add: hex_encode_def)
  then show ?thesis by (simp add: hex0x_def starts_with_def)
qed

lemma hex0x_inj [simp]: "hex0x a = hex0x b \<longleftrightarrow> a = b"
  by (simp add: hex0x_def)

lemma build_levels_single [simp]: "build_levels H [x] = [[x]]"
  by (simp add: build_levels.simps)

lemma build_levels_nonempty [simp]: "build_levels H xs \<noteq> []"
  by (simp add: build_levels.simps [of H xs])

lemma pair_level_nth:
  "i < length xs \<Longrightarrow> pair_level H xs ! (i div 2) =
     (if i mod 2 = 0 then H (xs ! i @ xs ! sibling_index i (length xs))
      else H (xs ! sibling_index i (length xs) @ xs ! i))"
proof (induction H xs arbitrary: i rule: pair_level.induct)
  case (3 H a b xs)
  show ?case
  proof (cases "i < 2")
    case True
    then show ?thesis by (auto simp: sibling_index_def dest!: less_2_cases)
  next
    case False
    then obtain j where i: "i = Suc (Suc j)" by (metis One_nat_def Suc_1 add_2_eq_Suc le_Suc_ex not_less)
    have "sibling_index i (length (a # b # xs)) = Suc (Suc (sibling_index j (length xs)))"
      using i 3(2) by (cases j) (auto simp: sibling_index_def)
    then show ?thesis using 3 i by simp
  qed
qed (simp_all add: sibling_index_def)

lemma sibling_index_less: "i < n \<Longrightarrow> sibling_index i n < n"
  by (simp add: sibling_index_def less_imp_diff_less)

lemma merkle_path_folds:
  "i < length xs \<Longrightarrow> \<exists>path. merkle_path (butlast (build_levels H xs)) i = Some path
     \<and> length path = length (build_levels H xs) - 1
     \<and> fold_path H (xs ! i) path = Some (hd (last (build_levels H xs)))"
proof (induction H xs arbitrary: i rule: build_levels.induct)
  case (1 H xs)
  show ?case
  proof (cases "1 < length xs")
    case True
    let ?up = "build_levels H (pair_level H xs)"
    have "i div 2 < length (pair_level H xs)" using "1.prems" by (simp add: length_pair_level)
    then obtain path where p: "merkle_path (butlast ?up) (i div 2) = Some path"
        "length path = length ?up - 1" "fold_path H (pair_level H xs ! (i div 2)) path = Some (hd (last ?up))"
      using "1.IH" [OF True] by blast
    have lv: "build_levels H xs = xs # ?up" using True by (simp add: build_levels.simps [of H xs])
    have "fold_path H (xs ! i) ((hex0x (xs ! sibling_index i (length xs)), i mod 2 = 0) # path)
        = fold_path H (pair_level H xs ! (i div 2)) path"
      by (simp add: pair_level_nth [OF "1.prems"])
    moreover have "0 < length ?up" by (simp add: length_greater_0_conv)
    ultimately show ?thesis
      using p sibling_index_less [OF "1.prems"] by (simp add: lv)
  next
    case False
    then have "i = 0" "length xs = 1" using "1.prems" by simp_all
    then obtain x where "xs = [x]" by (cases xs) auto
    then show ?thesis using \<open>i = 0\<close> by (simp add: build_levels.simps [of H "[x]"])
  qed
qed

lemma generate_merkle_proof_spec:
  assumes "state_inv H s"
  shows "(if key \<in> set (leaves s)
      then \<exists>p. generate_merkle_proof key s = Some (Some p) \<and> mp_leaf p = key \<and> mp_root p = state_root s
        \<and> verify_merkle_proof H p \<and> length (mp_path p) = length (tree_levels s) - 1
      else generate_merkle_proof key s = Some None)"
proof (cases "key \<in> set (leaves s)")
  case False
  then have "get_leaf_index key s = None" by (auto simp: get_leaf_index_def position_None_iff)
  with False show ?thesis by (simp add: generate_merkle_proof_def)
next
  case True
  then obtain i where i: "get_leaf_index key s = Some i"
    by (cases "get_leaf_index key s") (auto simp: get_leaf_index_def position_None_iff)
  then have il: "i < length (leaves s)" "leaves s ! i = key"
    by (simp_all add: get_leaf_index_def position_Some_iff)
  let ?lv = "build_levels H (leaf_hashes H s)"
  have lv: "tree_levels s = ?lv" "state_root s = hex0x (hd (last ?lv))"
    using assms True by (auto simp: state_inv_def tree_ok_def split: if_splits)
  obtain path where "merkle_path (butlast ?lv) i = Some path" "length path = length ?lv - 1"
      "fold_path H (leaf_hashes H s ! i) path = Some (hd (last ?lv))"
    using merkle_path_folds [of i "leaf_hashes H s" H] il by (auto simp: leaf_hashes_def)
  moreover have "leaf_hashes H s ! i = H (as_bytes key)" using il by (simp add: leaf_hashes_def)
  ultimately show ?thesis
    using True i lv by (simp add: generate_merkle_proof_def get_state_root_def verify_merkle_proof_def)
qed

section \<open>A verifying proof names a leaf\<close>

text \<open>The strings hashed while the tree is built, and while a proof is checked.\<close>

fun pair_inputs :: "digest list \<Rightarrow> bytes list" where
  "pair_inputs [] = []"
| "pair_inputs [a] = [a @ a]"
| "pair_inputs (a # b # xs) = (a @ b) # pair_inputs xs"

definition tree_inputs :: "NexusState \<Rightarrow> bytes list" where
  "tree_inputs s = map as_bytes (leaves s) @ concat (map pair_inputs (butlast (tree_levels s)))"

fun fold_inputs :: "hasher \<Rightarrow> digest \<Rightarrow> (string \<times> bool) list \<Rightarrow> bytes list" where
  "fold_inputs H current [] = []"
| "fold_inputs H current ((sib_str, is_left) # ps) =
     (case hex_decode (trim_start_matches ''0x'' sib_str) of
        None \<Rightarrow> []
      | Some sibling \<Rightarrow>
          let x = (if is_left then current @ sibling else sibling @ current)
          in x # fold_inputs H (H x) ps)"

definition proof_inputs :: "hasher \<Rightarrow> MerkleProof \<Rightarrow> bytes list" where
  "proof_inputs H p =
     as_bytes (mp_leaf p) # fold_inputs H (H (as_bytes (mp_leaf p))) (mp_path p)"

lemma set_pair_level: "set (pair_level H xs) = H ` set (pair_inputs xs)"
  by (induction H xs rule: pair_level.induct) auto

lemma pair_inputs_split:
  "z \<in> set (pair_inputs xs) \<Longrightarrow> \<exists>a \<in> set xs. \<exists>b \<in> set xs. z = a @ b"
  by (induction xs rule: pair_inputs.induct) auto

lemma fold_path_reaches_level:
  assumes "\<And>x. length (H x) = 32" and "length cur = 32" and "\<forall>d \<in> set xs. length d = 32"
    and "fold_path H cur path = Some (hd (last (build_levels H xs)))"
    and "length path = length (build_levels H xs) - 1" and "xs \<noteq> []"
    and "inj_on H (set (concat (map pair_inputs (butlast (build_levels H xs)))) \<union> set (fold_inputs H cur path))"
  shows "cur \<in> set xs"
  using assms(2-)
proof (induction path arbitrary: cur xs)
  case Nil
  have "\<not> 1 < length xs"
    using Nil.prems(4) build_levels_nonempty [of H "pair_level H xs"]
    by (cases "build_levels H (pair_level H xs)") (auto simp: build_levels.simps [of H xs] split: if_splits)
  then show ?case using Nil.prems by (cases xs) auto
next
  case (Cons e path)
  obtain sib_str is_left where e: "e = (sib_str, is_left)" by (cases e)
  let ?up = "build_levels H (pair_level H xs)"
  have long: "1 < length xs"
    using Cons.prems(4) by (auto simp: build_levels.simps [of H xs] split: if_splits)
  then have lv: "build_levels H xs = xs # ?up" by (simp add: build_levels.simps [of H xs])
  from Cons.prems(3) obtain sibling where sib: "hex_decode (trim_start_matches ''0x'' sib_str) = Some sibling"
    by (auto simp: e split: option.splits)
  define z where "z = (if is_left then cur @ sibling else sibling @ cur)"
  have "pair_level H xs \<noteq> []" using long by (cases "(H, xs)" rule: pair_level.cases) auto
  moreover have "\<forall>d \<in> set (pair_level H xs). length d = 32" using assms(1) by (auto simp: set_pair_level)
  moreover have "inj_on H (set (concat (map pair_inputs (butlast ?up))) \<union> set (fold_inputs H (H z) path))"
    using Cons.prems(6) sib by (elim inj_on_subset) (auto simp: lv e z_def Let_def)
  moreover have "fold_path H (H z) path = Some (hd (last ?up))"
    using Cons.prems(3) sib by (cases is_left) (simp_all add: lv e z_def)
  moreover have "length path = length ?up - 1" using Cons.prems(4) by (simp add: lv)
  ultimately have "H z \<in> set (pair_level H xs)"
    using assms(1) by (intro Cons.IH)
  then obtain y where y: "y \<in> set (pair_inputs xs)" "H z = H y" by (auto simp: set_pair_level)
  have "z = y"
    by (rule inj_onD [OF Cons.prems(6) y(2)])
      (use y(1) sib in \<open>simp_all add: lv e z_def Let_def\<close>)
  then obtain a b where ab: "a \<in> set xs" "b \<in> set xs" "z = a @ b" using pair_inputs_split y(1) by blast
  then have "length a = 32" "length b = 32" using Cons.prems(2) by blast+
  with ab Cons.prems(1) show ?case by (cases is_left) (auto simp: z_def)
qed

lemma verify_merkle_proof_sound:
  assumes "state_inv H s" and "leaves s \<noteq> []" and "\<And>x. length (H x) = 32"
    and "verify_merkle_proof H p" and "mp_root p = state_root s"
    and "length (mp_path p) = length (tree_levels s) - 1"
    and "inj_on H (set (tree_inputs s) \<union> set (proof_inputs H p))"
  shows "mp_leaf p \<in> set (leaves s)"
proof -
  have lv: "tree_levels s = build_levels H (leaf_hashes H s)"
      "state_root s = hex0x (hd (last (build_levels H (leaf_hashes H s))))"
    using assms(1,2) by (auto simp: state_inv_def tree_ok_def)
  let ?h = "H (as_bytes (mp_leaf p))"
  have "?h \<in> set (leaf_hashes H s)"
  proof (rule fold_path_reaches_level [OF assms(3) assms(3)])
    show "fold_path H ?h (mp_path p) = Some (hd (last (build_levels H (leaf_hashes H s))))"
      using assms(4,5) by (auto simp: verify_merkle_proof_def lv split: option.splits)
    show "length (mp_path p) = length (build_levels H (leaf_hashes H s)) - 1" using assms(6) by (simp add: lv)
    show "inj_on H (set (concat (map pair_inputs (butlast (build_levels H (leaf_hashes H s)))))
        \<union> set (fold_inputs H ?h (mp_path p)))"
      using assms(7) by (elim inj_on_subset) (auto simp: tree_inputs_def proof_inputs_def lv)
  qed (use assms(2,3) in \<open>auto simp: leaf_hashes_def\<close>)
  then obtain l where l: "l \<in> set (leaves s)" "?h = H (as_bytes l)" by (auto simp: leaf_hashes_def)
  have "as_bytes (mp_leaf p) = as_bytes l"
    by (rule inj_onD [OF assms(7) l(2)])
      (use l(1) in \<open>simp_all add: tree_inputs_def proof_inputs_def\<close>)
  with l show ?thesis by simp
qed

section \<open>Range proofs\<close>

text \<open>The nodes that a tracker has written since it was created, in order.\<close>

definition range_log :: "hasher \<Rightarrow> NexusState \<Rightarrow> node list" where
  "range_log H s = (case add_leaves H (map as_bytes (leaves s)) mmr_new of Some (ns, _) \<Rightarrow> ns | None \<Rightarrow> [])"

definition leaf_digest :: "hasher \<Rightarrow> NexusState \<Rightarrow> nat \<Rightarrow> digest" where
  "leaf_digest H s i = H (as_bytes (leaves s ! i))"

lemma state_inv_range:
  assumes "state_inv H s"
  shows "range_log H s = node_log H (leaf_digest H s) (length (leaves s))"
    and "mmr_abs H (leaf_digest H s) (length (leaves s)) (mmr s)"
proof -
  obtain m where m: "add_leaves H (map as_bytes (leaves s)) mmr_new =
      Some (node_log H (leaf_digest H s) (length (leaves s)), m)"
      "mmr_abs H (leaf_digest H s) (length (leaves s)) m"
    using add_leaves_abs [OF mmr_abs_new, of "map as_bytes (leaves s)" "leaf_digest H s" H]
    by (auto simp: leaf_digest_def node_log_def)
  with assms show "range_log H s = node_log H (leaf_digest H s) (length (leaves s))"
      "mmr_abs H (leaf_digest H s) (length (leaves s)) (mmr s)"
    by (auto simp: state_inv_def range_log_def)
qed

lemma range_proof:
  assumes "state_inv H s" and "i < length (leaves s)" and "length (leaves s) \<le> 2 ^ 62"
  shows "\<exists>pos sibs. get_mmr_proof_metadata i s = Some (pos, sibs)
    \<and> map_of (range_log H s) pos = Some (leaf_digest H s i)
    \<and> set sibs \<subseteq> dom (map_of (range_log H s))
    \<and> climb H (leaf_digest H s i) i (map (\<lambda>q. the (map_of (range_log H s) q)) sibs) \<in> set (peaks (mmr s))"
proof -
  let ?n = "length (leaves s)" and ?f = "leaf_digest H s"
  let ?sb = "sibling_blocks ?n 0 i"
  note log = state_inv_range(1) [OF assms(1)] and abs = state_inv_range(2) [OF assms(1)]
  have meta: "get_mmr_proof_metadata i s = Some (npos 0 i, map (\<lambda>(h, j). npos h j) ?sb)"
    using mmr_proof_metadata_spec [OF assms(2,3)] abs by (simp add: get_mmr_proof_metadata_def mmr_abs_def)
  have look: "map_of (range_log H s) (npos h j) = Some (block H ?f h j)" if "(h, j) \<in> set ?sb" for h j
    unfolding log using sibling_blocks_exist [of 0 i ?n h j] that assms(2) by (intro node_log_lookup) simp
  then have hashes: "map (\<lambda>q. the (map_of (range_log H s) q)) (map (\<lambda>(h, j). npos h j) ?sb)
      = map (\<lambda>(h, j). block H ?f h j) ?sb"
    by auto
  have "climb H (?f i) i (map (\<lambda>(h, j). block H ?f h j) ?sb) \<in> set (peaks (mmr s))"
    using climb_sibling_blocks [of 0 i ?n H ?f] assms(2) abs
    by (auto simp: mmr_abs_def simp flip: set_rev [of "peaks (mmr s)"])
  moreover have "map_of (range_log H s) (npos 0 i) = Some (?f i)"
    unfolding log using node_log_lookup [of 0 i ?n H ?f] assms(2) by simp
  moreover have "set (map (\<lambda>(h, j). npos h j) ?sb) \<subseteq> dom (map_of (range_log H s))"
    using look by auto
  ultimately show ?thesis using meta hashes by metis
qed

end
