(* ===== verification/State_Properties.thy ===== *)
theory State_Properties
  imports Nexus_State_Correct
begin

text \<open>
  The properties of the state tracker and the mountain range, stated over the states that the
  operations reach, each with an instance at a concrete state and a concrete hash function.
\<close>

section \<open>Concrete states\<close>

definition loaded :: "hasher \<Rightarrow> string list \<Rightarrow> NexusState" where
  "loaded H ls = snd (the (update_state_batch H ls state_new))"

lemma loaded_reachable: "nexus_reachable H (loaded H ls)" and leaves_loaded: "leaves (loaded H ls) = ls"
proof -
  obtain ns s where s: "update_state_batch H ls state_new = Some (ns, s)" "leaves s = leaves state_new @ ls"
    using update_state_batch_inv [OF state_inv_new, of H ls] by blast
  then show "nexus_reachable H (loaded H ls)" "leaves (loaded H ls) = ls"
    using nexus_reachable.batch [OF nexus_reachable.fresh s(1)] by (simp_all add: loaded_def state_new_def)
qed

section \<open>Merkle proofs\<close>

section \<open>Digests have 32 bytes\<close>

lemma pair_level_typed: "(\<And>x. length (H x) = 32) \<Longrightarrow> d \<in> set (pair_level H xs) \<Longrightarrow> length d = 32"
  by (induction H xs rule: pair_level.induct) auto

lemma build_levels_typed:
  assumes "\<And>x. length (H x) = 32" and "xs \<noteq> []" and "\<forall>d \<in> set xs. length d = 32"
  shows "\<forall>level \<in> set (build_levels H xs). level \<noteq> [] \<and> (\<forall>d \<in> set level. length d = 32)"
  using assms(2,3)
proof (induction "length xs" arbitrary: xs rule: less_induct)
  case less
  show ?case
  proof (cases "1 < length xs")
    case True
    have "length (pair_level H xs) < length xs" "pair_level H xs \<noteq> []"
      using True length_pair_level [of H xs] by auto
    then have "\<forall>level \<in> set (build_levels H (pair_level H xs)). level \<noteq> [] \<and> (\<forall>d \<in> set level. length d = 32)"
      using less.hyps pair_level_typed [of H] assms(1) by blast
    with True less.prems show ?thesis by (simp add: build_levels.simps [of H xs])
  qed (use less.prems in \<open>simp add: build_levels.simps [of H xs]\<close>)
qed

lemma block_typed: "(\<And>x. length (H x) = 32) \<Longrightarrow> (\<And>i. length (f i) = 32) \<Longrightarrow> length (block H f h j) = 32"
  by (cases h) simp_all

lemma peak_stack_typed:
  "(\<And>x. length (H x) = 32) \<Longrightarrow> (\<And>i. length (f i) = 32) \<Longrightarrow> d \<in> set (peak_stack H f h m) \<Longrightarrow> length d = 32"
proof (induction H f h m rule: peak_stack.induct)
  case (1 H f h m)
  from 1(5) show ?case
    unfolding peak_stack.simps [of H f h m] using 1(1-4) by (auto simp: block_typed split: if_splits)
qed

lemma fold_typed:
  "(\<And>x. length (H x) = 32) \<Longrightarrow> length p = 32 \<Longrightarrow> length (fold (\<lambda>q r. H (q @ r)) ps p) = 32"
  by (induction ps arbitrary: p) simp_all

lemma zero_root_typed: "\<exists>d. length d = 32 \<and> zero_root = hex0x d"
proof -
  have "zero_root = hex0x (replicate 32 0)" by code_simp
  then show ?thesis by (intro exI [of _ "replicate 32 0"]) simp
qed

text \<open>C1: on every reachable state, \<^const>\<open>generate_merkle_proof\<close> never indexes out of bounds; for a
  recorded leaf it returns a proof of that leaf for the current root which \<^const>\<open>verify_merkle_proof\<close>
  accepts, and for any other key it returns nothing.\<close>

theorem merkle_proof_complete:
  assumes "nexus_reachable H s"
  shows "if key \<in> set (leaves s)
    then \<exists>p. generate_merkle_proof key s = Some (Some p) \<and> mp_leaf p = key
      \<and> mp_root p = get_state_root s \<and> verify_merkle_proof H p
    else generate_merkle_proof key s = Some None"
  using generate_merkle_proof_spec [OF reachable_inv [OF assms], of key]
  by (auto simp: get_state_root_def split: if_splits)

theorem merkle_proof_complete_witness:
  "\<exists>p. generate_merkle_proof ''tx2'' (loaded sampleH [''tx1'', ''tx2'', ''tx3'']) = Some (Some p)
     \<and> mp_leaf p = ''tx2'' \<and> verify_merkle_proof sampleH p"
  using merkle_proof_complete [OF loaded_reachable, of "''tx2''" sampleH "[''tx1'', ''tx2'', ''tx3'']"]
  by (auto simp: leaves_loaded)

text \<open>C2: a proof with as many steps as the tree has levels above the leaves, which verifies against the
  state root, names a recorded leaf, provided the 32-byte hash has no collision among the strings hashed in
  the tree and in the proof.\<close>

theorem merkle_proof_sound:
  assumes "nexus_reachable H s" and "leaves s \<noteq> []" and "\<And>x. length (H x) = 32"
    and "verify_merkle_proof H p" and "mp_root p = get_state_root s"
    and "length (mp_path p) = length (tree_levels s) - 1"
    and "inj_on H (set (tree_inputs s) \<union> set (proof_inputs H p))"
  shows "mp_leaf p \<in> set (leaves s)"
  using verify_merkle_proof_sound [OF reachable_inv [OF assms(1)] assms(2,3,4)] assms(5-)
  by (simp add: get_state_root_def)

definition two_leaf_proof :: MerkleProof where
  "two_leaf_proof =
     \<lparr>mp_leaf = ''a'', mp_path = [(hex0x (sampleH (as_bytes ''b'')), True)],
      mp_root = hex0x (sampleH (sampleH (as_bytes ''a'') @ sampleH (as_bytes ''b'')))\<rparr>"

lemma loaded_two:
  "tree_levels (loaded H [a, b]) = [[H (as_bytes a), H (as_bytes b)], [H (H (as_bytes a) @ H (as_bytes b))]]"
  "state_root (loaded H [a, b]) = hex0x (H (H (as_bytes a) @ H (as_bytes b)))"
proof -
  have "state_inv H (loaded H [a, b])" by (rule reachable_inv [OF loaded_reachable])
  then have "tree_levels (loaded H [a, b]) = build_levels H [H (as_bytes a), H (as_bytes b)]"
      "state_root (loaded H [a, b]) = hex0x (hd (last (tree_levels (loaded H [a, b]))))"
    by (simp_all add: state_inv_def tree_ok_def leaf_hashes_def leaves_loaded)
  moreover have "build_levels H [x, y] = [[x, y], [H (x @ y)]]" for x y
    by (simp add: build_levels.simps [of H "[x, y]"])
  ultimately show "tree_levels (loaded H [a, b]) = [[H (as_bytes a), H (as_bytes b)], [H (H (as_bytes a) @ H (as_bytes b))]]"
    "state_root (loaded H [a, b]) = hex0x (H (H (as_bytes a) @ H (as_bytes b)))" by simp_all
qed

lemma sampleH_inj_two:
  "inj_on sampleH {as_bytes ''a'', as_bytes ''b'', sampleH (as_bytes ''a'') @ sampleH (as_bytes ''b'')}"
proof -
  have "as_bytes ''a'' = [97]" "as_bytes ''b'' = [98]" by (simp_all add: as_bytes_def)
  then show ?thesis by (auto simp: inj_on_def sampleH_def)
qed

theorem merkle_proof_sound_witness: "mp_leaf two_leaf_proof \<in> set (leaves (loaded sampleH [''a'', ''b'']))"
proof (rule merkle_proof_sound [OF loaded_reachable])
  show "verify_merkle_proof sampleH two_leaf_proof"
    by (simp add: verify_merkle_proof_def two_leaf_proof_def)
  show "mp_root two_leaf_proof = get_state_root (loaded sampleH [''a'', ''b''])"
    by (simp add: two_leaf_proof_def get_state_root_def loaded_two)
  show "inj_on sampleH (set (tree_inputs (loaded sampleH [''a'', ''b''])) \<union> set (proof_inputs sampleH two_leaf_proof))"
    using sampleH_inj_two
    by (simp add: tree_inputs_def loaded_two leaves_loaded proof_inputs_def two_leaf_proof_def insert_commute)
qed (simp_all add: leaves_loaded length_sampleH loaded_two two_leaf_proof_def)

text \<open>The tree hashes a last odd node with itself, so repeating the last of an odd number of at least
  three leaves leaves the state root unchanged: the root alone does not determine the leaf list.\<close>

theorem state_root_duplicate_tail:
  assumes "nexus_reachable H s" and "odd (length (leaves s))" and "1 < length (leaves s)"
    and "update_state_batch H [last (leaves s)] s = Some (ns, s')"
  shows "get_state_root s' = get_state_root s \<and> leaves s' = leaves s @ [last (leaves s)]"
proof -
  have dup: "pair_level H (xs @ [last xs]) = pair_level H xs" if "odd (length xs)" for xs
    using that by (induction H xs rule: pair_level.induct) (auto split: if_splits)
  have s': "state_inv H s'" "leaves s' = leaves s @ [last (leaves s)]"
    using update_state_batch_inv [OF reachable_inv [OF assms(1)], of "[last (leaves s)]"] assms(4) by auto
  then have hs: "leaf_hashes H s' = leaf_hashes H s @ [last (leaf_hashes H s)]"
    using assms(3) by (cases "leaves s = []") (auto simp: leaf_hashes_def last_map)
  have long: "1 < length (leaf_hashes H s)" "odd (length (leaf_hashes H s))"
    using assms(2,3) by (simp_all add: leaf_hashes_def)
  then have "last (build_levels H (leaf_hashes H s')) = last (build_levels H (leaf_hashes H s))"
    using dup [OF long(2)] build_levels_nonempty [of H "pair_level H (leaf_hashes H s)"]
    by (auto simp: hs build_levels.simps [of H "leaf_hashes H s @ _"] build_levels.simps [of H "leaf_hashes H s"]
        simp del: build_levels_nonempty)
  then show ?thesis
    using s' reachable_inv [OF assms(1)] assms(3)
    by (auto simp: state_inv_def tree_ok_def get_state_root_def split: if_splits)
qed

theorem state_root_duplicate_tail_witness:
  "get_state_root (snd (the (update_state_batch sampleH [''c''] (loaded sampleH [''a'', ''b'', ''c'']))))
     = get_state_root (loaded sampleH [''a'', ''b'', ''c''])"
proof -
  obtain ns s' where s': "update_state_batch sampleH [''c''] (loaded sampleH [''a'', ''b'', ''c'']) = Some (ns, s')"
    using update_state_batch_inv [OF reachable_inv [OF loaded_reachable]] by blast
  then have "update_state_batch sampleH [last (leaves (loaded sampleH [''a'', ''b'', ''c'']))]
      (loaded sampleH [''a'', ''b'', ''c'']) = Some (ns, s')"
    by (simp add: leaves_loaded)
  from state_root_duplicate_tail [OF loaded_reachable _ _ this] s' show ?thesis
    by (simp add: leaves_loaded)
qed

section \<open>Updates\<close>

text \<open>C19: on every reachable state a batch is recorded without a panic, the \<^verbatim>\<open>expect\<close> in \<^verbatim>\<open>add_leaf\<close>
  included; the new leaves follow the old ones, and the range nodes written get the consecutive positions from
  the old node counter up to the new one.\<close>

theorem update_state_batch_total:
  assumes "nexus_reachable H s"
  shows "\<exists>ns s'. update_state_batch H tx_ids s = Some (ns, s') \<and> nexus_reachable H s'
    \<and> leaves s' = leaves s @ tx_ids \<and> map fst ns = [node_count (mmr s)..<node_count (mmr s')]"
  using update_state_batch_inv [OF reachable_inv [OF assms], of tx_ids] nexus_reachable.batch [OF assms]
  by blast

theorem update_state_batch_total_witness:
  "\<exists>ns s'. update_state_batch sampleH [''c'', ''d''] (loaded sampleH [''a'', ''b'']) = Some (ns, s')
     \<and> leaves s' = [''a'', ''b'', ''c'', ''d'']"
  using update_state_batch_total [OF loaded_reachable, of sampleH "[''c'', ''d'']" "[''a'', ''b'']"]
  by (auto simp: leaves_loaded)

text \<open>C40: Recording a batch is the same as recording its two parts one after the other, in the state
  reached, in the nodes reported and in whether it panics.\<close>

theorem update_state_batch_append:
  "update_state_batch H (xs @ ys) s =
     (case update_state_batch H xs s of None \<Rightarrow> None
      | Some (ns, s') \<Rightarrow> map_option (map_prod ((@) ns) id) (update_state_batch H ys s'))"
  by (rule update_state_batch_split)

text \<open>\<^const>\<open>set_initial_leaves\<close> forgets the old state: whatever the tracker held, the result is the
  one a fresh tracker reaches by one batch of those leaves, and it always succeeds.\<close>

theorem set_initial_leaves_fresh:
  "set_initial_leaves H ls s = Some (snd (the (update_state_batch H ls state_new)))"
  using update_state_batch_inv [OF state_inv_new, of H ls] by (auto simp: set_initial_leaves_batch)

section \<open>The mountain range\<close>

text \<open>C16: on every reachable state the range is the one of the specification: its peaks are the hashes
  of the maximal aligned blocks of leaves from left to right, its counter is the number of nodes, the nodes
  written so far have exactly the positions below it, and the node at the position of a complete block is the
  hash of that block.\<close>

theorem range_refines_blocks:
  assumes "nexus_reachable H s"
  shows "peaks (mmr s) = map (\<lambda>(h, j). block H (leaf_digest H s) h j) (mountains 0 (length (leaves s)))
    \<and> mmr_size (mmr s) = length (leaves s)
    \<and> node_count (mmr s) = 2 * length (leaves s) - popcount (length (leaves s))
    \<and> map fst (range_log H s) = [0..<node_count (mmr s)]
    \<and> (\<forall>h j. (j + 1) * 2 ^ h \<le> length (leaves s) \<longrightarrow>
         map_of (range_log H s) (npos h j) = Some (block H (leaf_digest H s) h j))"
proof -
  let ?n = "length (leaves s)" and ?f = "leaf_digest H s"
  note inv = reachable_inv [OF assms]
  have abs: "rev (peaks (mmr s)) = peak_stack H ?f 0 ?n" "mmr_size (mmr s) = ?n"
      "node_count (mmr s) = nodes_upto ?n"
    using state_inv_range(2) [OF inv] by (simp_all add: mmr_abs_def)
  moreover have "peaks (mmr s) = map (\<lambda>(h, j). block H ?f h j) (mountains 0 ?n)"
    using peaks_mountains [OF state_inv_range(2) [OF inv]] .
  moreover have "map_of (range_log H s) (npos h j) = Some (block H ?f h j)" if "(j + 1) * 2 ^ h \<le> ?n" for h j
    unfolding state_inv_range(1) [OF inv] using that by (intro node_log_lookup) (simp only: last_leaf_less_iff)
  ultimately show ?thesis
    by (simp add: state_inv_range(1) [OF inv] map_fst_node_log nodes_upto_def)
qed

theorem range_refines_blocks_witness:
  "peaks (mmr (loaded sampleH [''a'', ''b'', ''c''])) =
     map (\<lambda>(h, j). block sampleH (leaf_digest sampleH (loaded sampleH [''a'', ''b'', ''c''])) h j) (mountains 0 3)
   \<and> node_count (mmr (loaded sampleH [''a'', ''b'', ''c''])) = 6 - popcount 3"
  using range_refines_blocks [OF loaded_reachable, of sampleH "[''a'', ''b'', ''c'']"]
  by (simp add: leaves_loaded flip: numeral_3_eq_3)

text \<open>C17: for every leaf of a reachable state with at most \<^verbatim>\<open>2^62\<close> leaves,
  \<^const>\<open>get_mmr_proof_metadata\<close> returns the position of the leaf and sibling positions that have all been
  written; hashing the leaf with the nodes at these positions, bottom up, gives one of the peaks.\<close>

theorem mmr_proof_reaches_peak:
  assumes "nexus_reachable H s" and "i < length (leaves s)" and "length (leaves s) \<le> 2 ^ 62"
  shows "\<exists>pos sibs. get_mmr_proof_metadata i s = Some (pos, sibs)
    \<and> map_of (range_log H s) pos = Some (H (as_bytes (leaves s ! i)))
    \<and> set sibs \<subseteq> dom (map_of (range_log H s))
    \<and> climb H (H (as_bytes (leaves s ! i))) i (map (\<lambda>q. the (map_of (range_log H s) q)) sibs)
        \<in> set (peaks (mmr s))"
  using range_proof [OF reachable_inv [OF assms(1)] assms(2,3)] unfolding leaf_digest_def .

theorem mmr_proof_reaches_peak_witness:
  "\<exists>pos sibs. get_mmr_proof_metadata 1 (loaded sampleH [''a'', ''b'', ''c'']) = Some (pos, sibs)
    \<and> climb sampleH (sampleH (as_bytes ''b'')) 1
        (map (\<lambda>q. the (map_of (range_log sampleH (loaded sampleH [''a'', ''b'', ''c''])) q)) sibs)
        \<in> set (peaks (mmr (loaded sampleH [''a'', ''b'', ''c''])))"
  using mmr_proof_reaches_peak [OF loaded_reachable, of 1 sampleH "[''a'', ''b'', ''c'']"]
  by (auto simp: leaves_loaded)

text \<open>The stateless helpers agree with the tracker: for every leaf of a reachable state,
  \<^const>\<open>get_mmr_node_pos\<close> is its position and \<^const>\<open>get_mmr_path\<close>, which walks down from the peak,
  returns the siblings that \<^const>\<open>get_mmr_proof_metadata\<close> finds on the way up.\<close>

theorem mmr_path_agrees:
  assumes "nexus_reachable H s" and "i < length (leaves s)" and "length (leaves s) \<le> 2 ^ 62"
  shows "get_mmr_proof_metadata i s =
    map_option (Pair (get_mmr_node_pos i)) (get_mmr_path (get_mmr_node_pos i) (length (leaves s)))"
proof -
  have "get_mmr_node_pos i = npos 0 i"
    by (simp add: get_mmr_node_pos_def npos_leaf nodes_upto_def mult.commute)
  then show ?thesis
    using get_mmr_path_spec [OF assms(2,3)] mmr_proof_metadata_spec [OF assms(2,3)]
      state_inv_range(2) [OF reachable_inv [OF assms(1)]]
    by (simp add: get_mmr_proof_metadata_def mmr_abs_def)
qed

theorem mmr_path_agrees_witness:
  "get_mmr_proof_metadata 1 (loaded sampleH [''a'', ''b'', ''c'']) =
     map_option (Pair (get_mmr_node_pos 1)) (get_mmr_path (get_mmr_node_pos 1) 3)"
  using mmr_path_agrees [OF loaded_reachable, of 1 sampleH "[''a'', ''b'', ''c'']"]
  by (simp add: leaves_loaded flip: numeral_3_eq_3)

text \<open>On every reachable state with fewer than \<^verbatim>\<open>2^63\<close> leaves, \<^const>\<open>get_mmr_peaks\<close> terminates
  without overflow and lists the positions at which the current peaks were written, in order.\<close>

theorem mmr_peaks_positions:
  assumes "nexus_reachable H s" and "length (leaves s) < 2 ^ 63"
  shows "\<exists>ps. get_mmr_peaks (length (leaves s)) = Some ps
    \<and> map (map_of (range_log H s)) ps = map Some (peaks (mmr s))"
proof -
  let ?n = "length (leaves s)" and ?f = "leaf_digest H s"
  note inv = reachable_inv [OF assms(1)]
  have abs: "mmr_abs H ?f ?n (mmr s)" and log: "range_log H s = node_log H ?f ?n"
    using state_inv_range [OF inv] by simp_all
  have pk: "peaks (mmr s) = map (\<lambda>(h, j). block H ?f h j) (mountains 0 ?n)"
    using abs by (rule peaks_mountains)
  have "map_of (range_log H s) (npos h j) = Some (block H ?f h j)" if "(h, j) \<in> set (mountains 0 ?n)" for h j
    unfolding log using mountains_exist [OF start_aligned that] by (intro node_log_lookup) simp
  then have "map (map_of (range_log H s)) (map (\<lambda>(h, j). npos h j) (mountains 0 ?n)) = map Some (peaks (mmr s))"
    by (auto simp: pk)
  then show ?thesis using get_mmr_peaks_spec [OF assms(2)] by blast
qed

theorem mmr_peaks_positions_witness:
  "\<exists>ps. get_mmr_peaks 3 = Some ps
    \<and> map (map_of (range_log sampleH (loaded sampleH [''a'', ''b'', ''c'']))) ps
        = map Some (peaks (mmr (loaded sampleH [''a'', ''b'', ''c''])))"
  using mmr_peaks_positions [OF loaded_reachable, of sampleH "[''a'', ''b'', ''c'']"]
  by (simp add: leaves_loaded flip: numeral_3_eq_3)

text \<open>Restoring the exported peaks and size with \<^const>\<open>set_mmr_state\<close> restores the range root, but
  not the node counter: a fresh tracker restored this way still counts from zero, and the next leaf is
  written at position zero again.\<close>

theorem set_mmr_state_restores_root_only:
  assumes "nexus_reachable H s"
  shows "case get_mmr_state s of (pk, n) \<Rightarrow>
    get_mmr_root H (set_mmr_state pk n state_new) = get_mmr_root H s
    \<and> node_count (mmr (set_mmr_state pk n state_new)) = 0
    \<and> (\<exists>ns s'. update_state_batch H [x] (set_mmr_state pk n state_new) = Some (ns, s') \<and> fst (hd ns) = 0)"
proof -
  let ?s = "set_mmr_state (peaks (mmr s)) (mmr_size (mmr s)) state_new"
  have "length (peaks (mmr s)) = popcount (mmr_size (mmr s))"
    using state_inv_wf [OF reachable_inv [OF assms]] by (simp add: mmr_wf_def)
  from merge_peaks_length [OF this, of H "H (as_bytes x)" 1] obtain c pk' added where
    "merge_peaks H (mmr_size (mmr s)) (H (as_bytes x)) (peaks (mmr s)) (Suc 0)
       = Some (c, pk', Suc 0 + trailing_ones (mmr_size (mmr s)), added)" by auto
  then have "\<exists>ns s'. update_state_batch H [x] ?s = Some (ns, s') \<and> fst (hd ns) = 0"
    by (simp add: update_state_batch_def add_leaf_def set_mmr_state_def state_new_def mmr_new_def)
  then show ?thesis
    by (simp add: get_mmr_state_def get_mmr_root_def set_mmr_state_def get_root_def state_new_def mmr_new_def)
qed

theorem set_mmr_state_restores_root_only_witness:
  "case get_mmr_state (loaded sampleH [''a'']) of (pk, n) \<Rightarrow>
     node_count (mmr (set_mmr_state pk n state_new)) = 0
     \<and> get_mmr_root sampleH (set_mmr_state pk n state_new) = get_mmr_root sampleH (loaded sampleH [''a''])"
  using set_mmr_state_restores_root_only [OF loaded_reachable, of sampleH "[''a'']" "''b''"]
  by (simp add: split_def)

text \<open>C20: Types of the tracker.  With a hash of 32 bytes, every digest that a reachable tracker holds, in the levels of the tree
  and among the peaks, has 32 bytes; both roots are the prefix 0x and 64 hexadecimal digits of such a digest; the range
  counts exactly the recorded leaves, has one peak per set bit of their number, and up to \<^verbatim>\<open>2^62\<close> leaves its
  counter of nodes fits 64 bits.\<close>

theorem tracker_well_typed:
  assumes "nexus_reachable H s" and "\<And>x. length (H x) = 32" and "length (leaves s) \<le> 2 ^ 62"
  shows "(\<forall>level \<in> set (tree_levels s). level \<noteq> [] \<and> (\<forall>d \<in> set level. length d = 32))
    \<and> (\<forall>d \<in> set (peaks (mmr s)). length d = 32)
    \<and> (\<exists>d. length d = 32 \<and> get_state_root s = hex0x d) \<and> (\<exists>d. length d = 32 \<and> get_mmr_root H s = hex0x d)
    \<and> mmr_size (mmr s) = length (leaves s) \<and> length (peaks (mmr s)) = popcount (length (leaves s))
    \<and> node_count (mmr s) < 2 ^ 64"
proof -
  note inv = reachable_inv [OF assms(1)]
  have tree: "tree_ok H s" using inv by (simp add: state_inv_def)
  have levels: "\<forall>level \<in> set (tree_levels s). level \<noteq> [] \<and> (\<forall>d \<in> set level. length d = 32)"
    using tree build_levels_typed [of H "leaf_hashes H s"] assms(2)
    by (auto simp: tree_ok_def leaf_hashes_def split: if_splits)
  have abs: "mmr_abs H (leaf_digest H s) (length (leaves s)) (mmr s)" by (rule state_inv_range(2) [OF inv])
  have pk: "\<forall>d \<in> set (peaks (mmr s)). length d = 32"
    using abs peak_stack_typed [of H "leaf_digest H s" _ 0 "length (leaves s)"] assms(2)
    by (auto simp: mmr_abs_def leaf_digest_def simp flip: set_rev [of "peaks (mmr s)"])
  have root: "\<exists>d. length d = 32 \<and> get_state_root s = hex0x d"
  proof (cases "leaves s = []")
    case False
    then have l: "last (tree_levels s) \<in> set (tree_levels s)" and r: "get_state_root s = hex0x (hd (last (tree_levels s)))"
      using tree by (simp_all add: tree_ok_def get_state_root_def)
    have "hd (last (tree_levels s)) \<in> set (last (tree_levels s))" using levels l by simp
    then show ?thesis using levels l r by blast
  qed (use tree in \<open>auto simp: tree_ok_def get_state_root_def intro: zero_root_typed\<close>)
  have "\<exists>d. length d = 32 \<and> get_mmr_root H s = hex0x d"
    using pk assms(2) by (auto simp: get_mmr_root_def get_root_def fold_typed intro: zero_root_typed split: list.split)
  moreover have "mmr_size (mmr s) = length (leaves s)" "length (peaks (mmr s)) = popcount (length (leaves s))"
      "node_count (mmr s) < 2 ^ 64"
    using abs mmr_abs_wf [OF abs] assms(3) by (auto simp: mmr_abs_def mmr_wf_def nodes_upto_def)
  ultimately show ?thesis using levels pk root by blast
qed

theorem tracker_well_typed_witness:
  "\<exists>d. length d = 32 \<and> get_state_root (loaded sampleH [''a'', ''b'', ''c'']) = hex0x d"
  using tracker_well_typed [OF loaded_reachable [of sampleH "[''a'', ''b'', ''c'']"] length_sampleH]
  by (simp add: leaves_loaded)

text \<open>C33: The stateless helpers return.  For every position and every number of leaves below \<^verbatim>\<open>2^63\<close>, inside the range or
  not, \<^const>\<open>get_mmr_peaks\<close> and \<^const>\<open>get_mmr_path\<close> end without an overflowing shift or subtraction, and a path has at
  most 62 positions.\<close>

theorem mmr_helpers_return:
  assumes "n < 2 ^ 63"
  shows "(\<exists>ps. get_mmr_peaks n = Some ps) \<and> (\<exists>path. get_mmr_path pos n = Some path \<and> length path \<le> 62)"
  using get_mmr_path_total [OF assms, of pos] mmr_peaks_loop_total [OF assms, of 0 0] by (auto simp: get_mmr_peaks_def)

theorem mmr_helpers_return_witness:
  "\<exists>path. get_mmr_path 12345 9223372036854775807 = Some path \<and> length path \<le> 62"
  using mmr_helpers_return [of 9223372036854775807 12345] by simp

end
