(* ===== verification/Nexus_Locks.thy ===== *)
theory Nexus_Locks
  imports Nexus_Prelude
begin

text \<open>
  The mutexes of \<^verbatim>\<open>NexusState\<close> (\<^verbatim>\<open>src/state/mod.rs\<close>).  Every public method is given as the
  sequence of lock and unlock events its guards cause; a guard in a temporary is dropped at the end
  of its statement, the named guards in reverse order of declaration.  Threads interleave these events.  The
  comment at the struct asks that \<^verbatim>\<open>leaves\<close> be taken before \<^verbatim>\<open>mmr\<close>; the programs keep the stronger order
  \<^verbatim>\<open>leaves\<close> before \<^verbatim>\<open>tree_levels\<close> and \<^verbatim>\<open>mmr\<close> before \<^verbatim>\<open>state_root\<close>, and so no interleaving of any number
  of threads can block.
\<close>

section \<open>Threads that take and release locks\<close>

datatype 'l action = Acq 'l | Rel 'l

type_synonym 'l lock_cfg = "('l \<Rightarrow> nat option) \<times> 'l action list list"

inductive lock_step :: "'l lock_cfg \<Rightarrow> 'l lock_cfg \<Rightarrow> bool" where
  acquire: "i < length ps \<Longrightarrow> ps ! i = Acq l # p \<Longrightarrow> own l = None \<Longrightarrow>
     lock_step (own, ps) (own(l := Some i), ps[i := p])"
| release: "i < length ps \<Longrightarrow> ps ! i = Rel l # p \<Longrightarrow> own l = Some i \<Longrightarrow>
     lock_step (own, ps) (own(l := None), ps[i := p])"

inductive_cases lock_step_cases: "lock_step (own, ps) (own', ps')"

definition all_done :: "'l lock_cfg \<Rightarrow> bool" where
  "all_done c \<longleftrightarrow> (\<forall>p \<in> set (snd c). p = [])"

text \<open>A program respects the ranks: it takes a lock only above all it holds, releases only what it
  holds and ends with nothing held.\<close>

fun lock_ordered :: "('l \<Rightarrow> nat) \<Rightarrow> 'l set \<Rightarrow> 'l action list \<Rightarrow> bool" where
  "lock_ordered rank held [] \<longleftrightarrow> held = {}"
| "lock_ordered rank held (Acq l # p) \<longleftrightarrow> (\<forall>h \<in> held. rank h < rank l) \<and> lock_ordered rank (insert l held) p"
| "lock_ordered rank held (Rel l # p) \<longleftrightarrow> l \<in> held \<and> lock_ordered rank (held - {l}) p"

lemma lock_ordered_append:
  "lock_ordered rank held p \<Longrightarrow> lock_ordered rank {} q \<Longrightarrow> lock_ordered rank held (p @ q)"
  by (induction rank held p rule: lock_ordered.induct) simp_all

lemma lock_ordered_concat: "\<forall>p \<in> set ps. lock_ordered rank {} p \<Longrightarrow> lock_ordered rank {} (concat ps)"
  by (induction ps) (simp_all add: lock_ordered_append)

definition lock_inv :: "('l \<Rightarrow> nat) \<Rightarrow> 'l lock_cfg \<Rightarrow> bool" where
  "lock_inv rank c \<longleftrightarrow>
     (\<forall>i < length (snd c). lock_ordered rank {l. fst c l = Some i} (snd c ! i))
     \<and> (\<forall>l i. fst c l = Some i \<longrightarrow> i < length (snd c))"

lemma lock_inv_step: "lock_step c c' \<Longrightarrow> lock_inv rank c \<Longrightarrow> lock_inv rank c'"
proof (induction rule: lock_step.induct)
  case (acquire i ps l p own)
  have "{k. (own(l := Some i)) k = Some j} = (if j = i then insert l {k. own k = Some i} else {k. own k = Some j})" for j
    using acquire(3) by auto
  moreover have "lock_ordered rank {k. own k = Some i} (Acq l # p)"
    using acquire by (metis fst_conv lock_inv_def snd_conv)
  ultimately show ?case using acquire by (auto simp: lock_inv_def nth_list_update)
next
  case (release i ps l p own)
  have "{k. (own(l := None)) k = Some j} = (if j = i then {k. own k = Some i} - {l} else {k. own k = Some j})" for j
    using release(3) by auto
  moreover have "lock_ordered rank {k. own k = Some i} (Rel l # p)"
    using release by (metis fst_conv lock_inv_def snd_conv)
  ultimately show ?case using release by (auto simp: lock_inv_def nth_list_update)
qed

lemma lock_inv_steps: "lock_step\<^sup>*\<^sup>* c c' \<Longrightarrow> lock_inv rank c \<Longrightarrow> lock_inv rank c'"
  by (induction rule: rtranclp_induct) (blast intro: lock_inv_step)+

lemma sum_list_update_length:
  fixes xs :: "nat list"
  shows "i < length xs \<Longrightarrow> y < xs ! i \<Longrightarrow> sum_list (xs[i := y]) < sum_list xs"
  using elem_le_sum_list [of i xs] by (simp add: sum_list_update)

text \<open>The rank of the lock that a thread waits for; the thread with the greatest one can move.\<close>

definition waits_for :: "'l lock_cfg \<Rightarrow> nat \<Rightarrow> 'l \<Rightarrow> bool" where
  "waits_for c i l \<longleftrightarrow> i < length (snd c) \<and> (\<exists>p. snd c ! i = Acq l # p) \<and> fst c l \<noteq> None"

lemma blocked_waits:
  assumes "lock_inv rank c" and "\<nexists>c'. lock_step c c'" and "i < length (snd c)" and "snd c ! i \<noteq> []"
  shows "\<exists>l. waits_for c i l"
proof -
  obtain own ps where c: "c = (own, ps)" by (cases c)
  obtain a p where p: "ps ! i = a # p" using assms(4) c by (auto simp: neq_Nil_conv)
  show ?thesis
  proof (cases a)
    case (Acq l)
    then have "own l \<noteq> None"
      using assms(2,3) c p lock_step.acquire [of i ps l p own] by auto
    with Acq p c assms(3) show ?thesis by (auto simp: waits_for_def)
  next
    case (Rel l)
    have "lock_ordered rank {k. own k = Some i} (ps ! i)" using assms(1,3) c by (simp add: lock_inv_def)
    then have "own l = Some i" using Rel p by simp
    with Rel p c assms(2,3) show ?thesis using lock_step.release [of i ps l p own] by auto
  qed
qed

lemma waits_higher:
  assumes "lock_inv rank c" and "\<nexists>c'. lock_step c c'" and "waits_for c i l"
  shows "\<exists>j k. waits_for c j k \<and> rank l < rank k"
proof -
  obtain own ps where c: "c = (own, ps)" by (cases c)
  from assms(3) c obtain j where j: "own l = Some j" by (auto simp: waits_for_def)
  have jr: "j < length ps" "lock_ordered rank {k. own k = Some j} (ps ! j)"
    using assms(1) c j by (auto simp: lock_inv_def)
  then have "ps ! j \<noteq> []" using j by auto
  then obtain k where k: "waits_for c j k" using blocked_waits [OF assms(1,2), of j] jr c by auto
  then have "rank l < rank k" using jr(2) j c by (auto simp: waits_for_def)
  with k show ?thesis by blast
qed

locale lock_order =
  fixes rank :: "'l::finite \<Rightarrow> nat"
    and methods :: "'l action list set"
  assumes methods_ordered: "p \<in> methods \<Longrightarrow> lock_ordered rank {} p"
begin

definition start :: "'l lock_cfg \<Rightarrow> bool" where
  "start c \<longleftrightarrow> fst c = (\<lambda>_. None) \<and> (\<forall>t \<in> set (snd c). \<exists>ms. set ms \<subseteq> methods \<and> t = concat ms)"

lemma start_inv:
  assumes "start c"
  shows "lock_inv rank c"
proof -
  have "lock_ordered rank {} (snd c ! i)" if "i < length (snd c)" for i
  proof -
    from that have "snd c ! i \<in> set (snd c)" by (rule nth_mem)
    then obtain ms where "set ms \<subseteq> methods" "snd c ! i = concat ms" using assms by (auto simp: start_def)
    moreover have "lock_ordered rank {} (concat ms)" if "set ms \<subseteq> methods"
      using that by (intro lock_ordered_concat ballI methods_ordered) blast
    ultimately show ?thesis by simp
  qed
  with assms show ?thesis by (simp add: lock_inv_def start_def)
qed

lemma progress:
  assumes "lock_inv rank c" and "\<not> all_done c"
  shows "\<exists>c'. lock_step c c'"
proof (rule ccontr)
  assume stuck: "\<nexists>c'. lock_step c c'"
  define W where "W = {l. \<exists>i. waits_for c i l}"
  obtain i where "i < length (snd c)" "snd c ! i \<noteq> []"
    using assms(2) by (auto simp: all_done_def in_set_conv_nth)
  then have "W \<noteq> {}" using blocked_waits [OF assms(1) stuck, of i] by (auto simp: W_def)
  then have "Max (rank ` W) \<in> rank ` W" by (intro Max_in) simp_all
  then obtain l where "l \<in> W" "Max (rank ` W) = rank l" by blast
  then have l: "l \<in> W" "\<forall>k \<in> W. rank k \<le> rank l" using Max_ge [of "rank ` W"] by fastforce+
  then show False using waits_higher [OF assms(1) stuck] by (force simp: W_def)
qed

lemma can_finish:
  "lock_inv rank c \<Longrightarrow> \<exists>c'. lock_step\<^sup>*\<^sup>* c c' \<and> all_done c'"
proof (induction "sum_list (map length (snd c))" arbitrary: c rule: less_induct)
  case less
  show ?case
  proof (cases "all_done c")
    case False
    then obtain c1 where c1: "lock_step c c1" using progress less.prems by blast
    then have "sum_list (map length (snd c1)) < sum_list (map length (snd c))"
      by cases (auto simp: map_update sum_list_update_length)
    then obtain c' where "lock_step\<^sup>*\<^sup>* c1 c'" "all_done c'"
      using less.hyps lock_inv_step [OF c1 less.prems] by blast
    with c1 show ?thesis by (blast intro: converse_rtranclp_into_rtranclp)
  qed blast
qed

end

section \<open>The locks of the tracker\<close>

datatype nexus_lock = L_state_root | L_leaves | L_tree_levels | L_mmr

instantiation nexus_lock :: finite
begin
instance
proof
  have "(UNIV :: nexus_lock set) = {L_state_root, L_leaves, L_tree_levels, L_mmr}"
    by (auto intro: nexus_lock.exhaust)
  then show "finite (UNIV :: nexus_lock set)" by (metis finite.simps)
qed
end

fun nexus_rank :: "nexus_lock \<Rightarrow> nat" where
  "nexus_rank L_leaves = 0"
| "nexus_rank L_tree_levels = 1"
| "nexus_rank L_mmr = 1"
| "nexus_rank L_state_root = 2"

datatype nexus_method =
    GetStateRoot
  | GetMmrRoot
  | GetMmrState
  | UpdateStateBatch
  | SetInitialLeaves
  | SetMmrState
  | GenerateMerkleProof bool
  | GenerateProof bool
  | GetLeafIndex
  | GetLeafByIndex
  | GetMmrProofMetadata
  | AssembleMmrProof

text \<open>\<^verbatim>\<open>rebuild_tree\<close> writes the two fields through temporary guards.\<close>

definition rebuild_tree_locks :: "nexus_lock action list" where
  "rebuild_tree_locks = [Acq L_state_root, Rel L_state_root, Acq L_tree_levels, Rel L_tree_levels]"

text \<open>The argument of the proof methods says whether a proof is found: only then is the root read
  while the other two guards are held, and only without one does \<^verbatim>\<open>generate_proof\<close> read it again.\<close>

definition merkle_proof_locks :: "bool \<Rightarrow> nexus_lock action list" where
  "merkle_proof_locks found =
     [Acq L_leaves, Acq L_tree_levels] @ (if found then [Acq L_state_root, Rel L_state_root] else [])
       @ [Rel L_tree_levels, Rel L_leaves]"

fun nexus_locks :: "nexus_method \<Rightarrow> nexus_lock action list" where
  "nexus_locks GetStateRoot = [Acq L_state_root, Rel L_state_root]"
| "nexus_locks GetMmrRoot = [Acq L_mmr, Rel L_mmr]"
| "nexus_locks GetMmrState = [Acq L_mmr, Rel L_mmr]"
| "nexus_locks UpdateStateBatch =
     [Acq L_leaves] @ rebuild_tree_locks @ [Acq L_mmr, Rel L_mmr, Rel L_leaves]"
| "nexus_locks SetInitialLeaves =
     [Acq L_leaves] @ rebuild_tree_locks
       @ [Acq L_mmr, Acq L_state_root, Rel L_state_root, Rel L_mmr, Rel L_leaves]"
| "nexus_locks SetMmrState = [Acq L_mmr, Rel L_mmr]"
| "nexus_locks (GenerateMerkleProof found) = merkle_proof_locks found"
| "nexus_locks (GenerateProof found) =
     merkle_proof_locks found @ (if found then [] else [Acq L_state_root, Rel L_state_root])"
| "nexus_locks GetLeafIndex = [Acq L_leaves, Rel L_leaves]"
| "nexus_locks GetLeafByIndex = [Acq L_leaves, Rel L_leaves]"
| "nexus_locks GetMmrProofMetadata = [Acq L_leaves, Acq L_mmr, Rel L_mmr, Rel L_leaves]"
| "nexus_locks AssembleMmrProof = [Acq L_mmr, Rel L_mmr]"

interpretation tracker: lock_order nexus_rank "range nexus_locks"
proof
  fix p :: "nexus_lock action list"
  assume "p \<in> range nexus_locks"
  then obtain m where "p = nexus_locks m" by blast
  then show "lock_ordered nexus_rank {} p"
    by (cases m) (auto simp: rebuild_tree_locks_def merkle_proof_locks_def)
qed

text \<open>The first configuration of a set of threads, each with the methods it will call.\<close>

definition nexus_threads :: "nexus_method list list \<Rightarrow> nexus_lock lock_cfg" where
  "nexus_threads tss = ((\<lambda>_. None), map (\<lambda>ts. concat (map nexus_locks ts)) tss)"

lemma nexus_threads_inv: "lock_inv nexus_rank (nexus_threads tss)"
proof (rule tracker.start_inv)
  have "\<exists>ms. set ms \<subseteq> range nexus_locks \<and> concat (map nexus_locks ts) = concat ms" for ts
    by (rule exI [of _ "map nexus_locks ts"]) auto
  then show "tracker.start (nexus_threads tss)"
    by (auto simp: tracker.start_def nexus_threads_def)
qed

text \<open>C34: threads calling any methods of the state tracker in any number and order never
  deadlock: from every configuration they can reach, all of them can run to completion.\<close>

theorem nexus_no_deadlock:
  assumes "lock_step\<^sup>*\<^sup>* (nexus_threads tss) c"
  shows "(all_done c \<or> (\<exists>c'. lock_step c c')) \<and> (\<exists>c'. lock_step\<^sup>*\<^sup>* c c' \<and> all_done c')"
proof -
  have "lock_inv nexus_rank c" using lock_inv_steps [OF assms nexus_threads_inv] .
  then show ?thesis using tracker.progress tracker.can_finish by blast
qed

text \<open>Two threads, one in an update and one in a proof, after the first event of the update.\<close>

theorem nexus_no_deadlock_witness:
  "\<exists>c'. lock_step\<^sup>*\<^sup>* ((\<lambda>_. None)(L_leaves := Some 0),
      [rebuild_tree_locks @ [Acq L_mmr, Rel L_mmr, Rel L_leaves], merkle_proof_locks True]) c' \<and> all_done c'"
proof -
  let ?tss = "[[UpdateStateBatch], [GenerateMerkleProof True]]"
  have "lock_step (nexus_threads ?tss) ((\<lambda>_. None)(L_leaves := Some 0),
      (snd (nexus_threads ?tss))[0 := rebuild_tree_locks @ [Acq L_mmr, Rel L_mmr, Rel L_leaves]])"
    unfolding nexus_threads_def snd_conv by (rule lock_step.acquire) simp_all
  then have "lock_step (nexus_threads ?tss) ((\<lambda>_. None)(L_leaves := Some 0),
      [rebuild_tree_locks @ [Acq L_mmr, Rel L_mmr, Rel L_leaves], merkle_proof_locks True])"
    by (simp add: nexus_threads_def)
  then show ?thesis using nexus_no_deadlock by blast
qed

end
