(* ===== verification/Nexus_Services.thy ===== *)
theory Nexus_Services
  imports Nexus_Text
begin

text \<open>
  The outside world of the program.  Postgres (through \<^verbatim>\<open>sqlx\<close>), Redis, HTTP peers, the clock and the
  random generator are not part of the sources; they are the fields of the record \<open>services\<close>, an
  argument of every definition that uses them, over an arbitrary type \<open>'w\<close> of worlds.  A fallible
  call maps a world to an error or a value and the next world.  What a property needs to know of a
  service is a hypothesis of that property.

  The Rust statement \<^verbatim>\<open>let x = call.await?; rest\<close> is \<open>io_try call (\<lambda>x. rest)\<close>, and a call whose result is
  inspected or ignored is \<open>io_then call (\<lambda>r. rest)\<close>.
\<close>

section \<open>Calls\<close>

type_synonym ('w, 'e, 'a) io = "'w \<Rightarrow> ('e + 'a) \<times> 'w"

definition io_ok :: "'a \<Rightarrow> ('w, 'e, 'a) io" where
  "io_ok x w = (Inr x, w)"

definition io_err :: "'e \<Rightarrow> ('w, 'e, 'a) io" where
  "io_err e w = (Inl e, w)"

definition io_try :: "('w, 'e, 'a) io \<Rightarrow> ('a \<Rightarrow> ('w, 'e, 'b) io) \<Rightarrow> ('w, 'e, 'b) io" where
  "io_try m k w = (case m w of (Inl e, w') \<Rightarrow> (Inl e, w') | (Inr x, w') \<Rightarrow> k x w')"

definition io_then :: "('w \<Rightarrow> 'r \<times> 'w) \<Rightarrow> ('r \<Rightarrow> 'w \<Rightarrow> 'b \<times> 'w) \<Rightarrow> 'w \<Rightarrow> 'b \<times> 'w" where
  "io_then m k w = (case m w of (r, w') \<Rightarrow> k r w')"

text \<open>\<^verbatim>\<open>unwrap_or\<close> on the result of a call, and \<^verbatim>\<open>?\<close> on a plain result.\<close>

definition or_else :: "'e + 'a \<Rightarrow> 'a \<Rightarrow> 'a" where
  "or_else r d = (case r of Inl _ \<Rightarrow> d | Inr x \<Rightarrow> x)"

definition io_lift :: "'e + 'a \<Rightarrow> ('a \<Rightarrow> ('w, 'e, 'b) io) \<Rightarrow> ('w, 'e, 'b) io" where
  "io_lift r k w = (case r of Inl e \<Rightarrow> (Inl e, w) | Inr x \<Rightarrow> k x w)"

definition res_bind :: "'e + 'a \<Rightarrow> ('a \<Rightarrow> 'e + 'b) \<Rightarrow> 'e + 'b" where
  "res_bind r k = (case r of Inl e \<Rightarrow> Inl e | Inr x \<Rightarrow> k x)"

definition ok_or :: "'a option \<Rightarrow> 'e \<Rightarrow> 'e + 'a" where
  "ok_or x e = (case x of None \<Rightarrow> Inl e | Some v \<Rightarrow> Inr v)"

named_theorems io_simps \<open>evaluation of calls\<close>

lemma io_basics [io_simps, simp]:
  "io_ok x w = (Inr x, w)" "io_err e w = (Inl e, w)" "or_else (Inl e) d = d" "or_else (Inr x) d = x"
  "res_bind (Inl e) k = Inl e" "res_bind (Inr x) k = k x" "ok_or None e = Inl e" "ok_or (Some v) e = Inr v"
  "io_lift (Inl e) k' w = (Inl e, w)" "io_lift (Inr y) k' w = k' y w"
  by (simp_all add: io_ok_def io_err_def or_else_def res_bind_def ok_or_def io_lift_def)

lemma io_try_Inl [simp]: "m w = (Inl e, w') \<Longrightarrow> io_try m k w = (Inl e, w')"
  and io_try_Inr [simp]: "m w = (Inr x, w') \<Longrightarrow> io_try m k w = k x w'"
  by (simp_all add: io_try_def)

lemma io_then_eq [simp]: "m w = (r, w') \<Longrightarrow> io_then m k w = k r w'"
  by (simp add: io_then_def)

lemma io_try_Inr_D:
  assumes "io_try m k w = (Inr y, w'')"
  obtains x w' where "m w = (Inr x, w')" "k x w' = (Inr y, w'')"
  using assms by (auto simp: io_try_def split: prod.splits sum.splits)

lemma res_bind_Inr_iff: "res_bind r k = Inr y \<longleftrightarrow> (\<exists>x. r = Inr x \<and> k x = Inr y)"
  by (cases r) simp_all

lemma ok_or_Inr_iff: "ok_or x e = Inr y \<longleftrightarrow> x = Some y"
  by (cases x) simp_all

section \<open>The services\<close>

type_synonym time = int  \<comment> \<open>\<^verbatim>\<open>DateTime<Utc>\<close>, nanoseconds since the epoch\<close>

text \<open>\<^verbatim>\<open>Duration::num_seconds\<close> truncates towards zero.\<close>

definition num_seconds :: "int \<Rightarrow> int" where
  "num_seconds d = (if 0 \<le> d then d div 1000000000 else - ((- d) div 1000000000))"

definition timestamp_secs :: "time \<Rightarrow> i64" where
  "timestamp_secs t = t div 1000000000"

text \<open>The statements that write to Postgres, with the values bound to their parameters.\<close>

datatype sql_write =
    InsertAuditLog string string string time string int
      \<comment> \<open>\<^verbatim>\<open>me_audit_log (tx_id, payload_hash, sender, arrival_time, payload, sequencing_priority)\<close>\<close>
  | InsertEvmReceipt string i64 string string i64
      \<comment> \<open>\<^verbatim>\<open>evm_verified_receipts ... ON CONFLICT (block_hash, transaction_index) DO NOTHING\<close>\<close>
  | UpsertCosmosUpdate string i64 string
      \<comment> \<open>\<^verbatim>\<open>cosmos_verified_client_updates ... ON CONFLICT (client_id) DO UPDATE latest_height\<close>\<close>
  | InsertBitvmTransition string string string string string string i64 rat
      \<comment> \<open>\<^verbatim>\<open>bitvm_verified_transitions ... ON CONFLICT (trace_id) DO NOTHING\<close>\<close>
  | UpdatePaymentIntent string int time string
      \<comment> \<open>\<^verbatim>\<open>UPDATE lightning_payment_intents SET status, retry_count, last_updated_at WHERE payment_id\<close>\<close>
  | InsertPaymentEvent string string string string
      \<comment> \<open>\<^verbatim>\<open>lightning_payment_events (event_id, payment_id, status, metadata)\<close>\<close>
  | InsertSettlementLog string string "rat option" json
      \<comment> \<open>\<^verbatim>\<open>cxn_external_settlement_logs\<close>\<close>
  | InsertSettlementProposal string string string json i64 i64
      \<comment> \<open>\<^verbatim>\<open>settlement_proposals\<close>, status \<^verbatim>\<open>'active'\<close>\<close>
  | InsertFxState string json json json i64
      \<comment> \<open>\<^verbatim>\<open>oracle_fx_history (base_currency, rates, ppp_indices, confidence_intervals, timestamp)\<close>\<close>

text \<open>A row of \<^verbatim>\<open>lightning_payment_intents\<close>; reading a column may fail.\<close>

record payment_row =
  pr_payment_id :: "string + string"
  pr_payment_hash :: "string + string"
  pr_amount_msat :: "string + i64"
  pr_status :: "string + string"
  pr_failure_type :: "string + string option"
  pr_retry_count :: "string + int"
  pr_created_at :: "string + time"
  pr_last_updated_at :: "string + time"

record http_response =
  hr_status :: nat
  hr_json :: "string + json"
  hr_text :: "string + string"

text \<open>What a handler answers: a status alone, a status with a text, or a status with a JSON body.\<close>

datatype 'a reply = Status nat | Text nat string | Body nat 'a

fun reply_status :: "'a reply \<Rightarrow> nat" where
  "reply_status (Status s) = s" | "reply_status (Text s _) = s" | "reply_status (Body s _) = s"

text \<open>Redis commands are their argument vectors; \<^verbatim>\<open>query_async::<T>\<close> is one field per result type in use.\<close>

record 'w services =
  redis_connect :: "('w, string, unit) io"
  redis_bool :: "string list \<Rightarrow> ('w, string, bool) io"
  redis_u64 :: "string list \<Rightarrow> ('w, string, u64) io"
  redis_opt_i64 :: "string list \<Rightarrow> ('w, string, i64 option) io"
  redis_opt_string :: "string list \<Rightarrow> ('w, string, string option) io"
  redis_map :: "string list \<Rightarrow> ('w, string, (string \<times> string) list) io"
  redis_unit :: "string list \<Rightarrow> ('w, string, unit) io"
  redis_pipe :: "string list list \<Rightarrow> ('w, string, unit) io"
  pg_execute :: "sql_write \<Rightarrow> ('w, string, unit) io"
  pg_max_height :: "('w, string, i64 option option) io"
  pg_max_arrival :: "('w, string, time option option) io"
  pg_latest_rates :: "('w, string, json option) io"
  pg_recoverable_payments :: "('w, string, payment_row list) io"
  http_get :: "string \<Rightarrow> ('w, string, http_response) io"
  http_post :: "string \<Rightarrow> json \<Rightarrow> ('w, string, http_response) io"
  utc_now :: "'w \<Rightarrow> time \<times> 'w"
  new_uuid :: "'w \<Rightarrow> string \<times> 'w"
  random_f32 :: "'w \<Rightarrow> rat \<times> 'w"
  random_bytes32 :: "'w \<Rightarrow> bytes \<times> 'w"

definition is_success :: "nat \<Rightarrow> bool" where
  "is_success status \<longleftrightarrow> 200 \<le> status \<and> status < 300"

section \<open>A service that is never reachable\<close>

text \<open>Every call fails and changes nothing; the instances below replace the fields they need.\<close>

definition offline :: "'w services" where
  "offline =
     \<lparr>redis_connect = io_err ''offline'', redis_bool = (\<lambda>_. io_err ''offline''),
      redis_u64 = (\<lambda>_. io_err ''offline''), redis_opt_i64 = (\<lambda>_. io_err ''offline''),
      redis_opt_string = (\<lambda>_. io_err ''offline''), redis_map = (\<lambda>_. io_err ''offline''),
      redis_unit = (\<lambda>_. io_err ''offline''), redis_pipe = (\<lambda>_. io_err ''offline''),
      pg_execute = (\<lambda>_. io_err ''offline''), pg_max_height = io_err ''offline'',
      pg_max_arrival = io_err ''offline'', pg_latest_rates = io_err ''offline'',
      pg_recoverable_payments = io_err ''offline'', http_get = (\<lambda>_. io_err ''offline''),
      http_post = (\<lambda>_ _. io_err ''offline''), utc_now = (\<lambda>w. (0, w)),
      new_uuid = (\<lambda>w. (''00000000-0000-4000-8000-000000000000'', w)),
      random_f32 = (\<lambda>w. (0, w)), random_bytes32 = (\<lambda>w. (replicate 32 0, w))\<rparr>"

section \<open>Redis as a key-value store\<close>

text \<open>The effect of the commands on string keys, as the Redis documentation describes it.\<close>

fun redis_effect :: "string list \<Rightarrow> (string \<Rightarrow> string option) \<Rightarrow> (string \<Rightarrow> string option)" where
  "redis_effect [c, k] m = (if c = ''DEL'' then m(k := None) else m)"
| "redis_effect [c, k, v] m = (if c = ''SET'' then m(k := Some v) else m)"
| "redis_effect [c, k, v, nx, ex, ttl] m =
     (if c = ''SET'' \<and> nx = ''NX'' \<and> ex = ''EX'' \<and> m k = None then m(k := Some v) else m)"
| "redis_effect _ m = m"

text \<open>The services act as such a store, seen through \<open>val\<close>: connecting and reading a flag change nothing, a
  read may fail, an answered read is true when the key holds \<^verbatim>\<open>1\<close> and is not true when the key is absent, and a
  pipeline that succeeds has applied all its commands in order.\<close>

definition redis_store :: "'w services \<Rightarrow> ('w \<Rightarrow> string \<Rightarrow> string option) \<Rightarrow> bool" where
  "redis_store sv val \<longleftrightarrow>
     (\<forall>w. val (snd (redis_connect sv w)) = val w)
     \<and> (\<forall>k w r w'. redis_bool sv [''GET'', k] w = (r, w') \<longrightarrow>
          val w' = val w
          \<and> (val w k = None \<longrightarrow> r \<noteq> Inr True) \<and> (val w k = Some ''1'' \<longrightarrow> r \<noteq> Inr False))
     \<and> (\<forall>cs w w'. redis_pipe sv cs w = (Inr (), w') \<longrightarrow> val w' = fold redis_effect cs (val w))"

text \<open>The same store when, besides, a read of a flag that is set answers.\<close>

definition redis_flags :: "'w services \<Rightarrow> ('w \<Rightarrow> string \<Rightarrow> string option) \<Rightarrow> bool" where
  "redis_flags sv val \<longleftrightarrow>
     (\<forall>w. val (snd (redis_connect sv w)) = val w)
     \<and> (\<forall>k w r w'. redis_bool sv [''GET'', k] w = (r, w') \<longrightarrow>
          val w' = val w
          \<and> (val w k = None \<longrightarrow> r \<noteq> Inr True) \<and> (val w k = Some ''1'' \<longrightarrow> r = Inr True))
     \<and> (\<forall>cs w w'. redis_pipe sv cs w = (Inr (), w') \<longrightarrow> val w' = fold redis_effect cs (val w))"

lemma redis_flags_store: "redis_flags sv val \<Longrightarrow> redis_store sv val"
  unfolding redis_flags_def redis_store_def by (metis sum.inject(2))

lemma redis_store_connect: "redis_store sv val \<Longrightarrow> redis_connect sv w = (r, w') \<Longrightarrow> val w' = val w"
  unfolding redis_store_def by (metis snd_conv)

lemma redis_store_get:
  assumes "redis_store sv val" and "redis_bool sv [''GET'', k] w = (r, w')"
  shows "val w' = val w" and "val w k = None \<Longrightarrow> r \<noteq> Inr True" and "val w k = Some ''1'' \<Longrightarrow> r \<noteq> Inr False"
  using assms unfolding redis_store_def by blast+

lemma redis_store_pipe:
  "redis_store sv val \<Longrightarrow> redis_pipe sv cs w = (Inr (), w') \<Longrightarrow> val w' = fold redis_effect cs (val w)"
  unfolding redis_store_def by blast

section \<open>Postgres as a log of writes\<close>

text \<open>What \<open>wlog\<close> shows of the world is the sequence of the statements that took effect.  A statement that
  succeeds is added to it; a statement may fail, for a violated key, a value out of the range of its column or a lost
  connection, and then leaves it as it was.  No other call changes that record.\<close>

definition log_kept :: "('w \<Rightarrow> sql_write list) \<Rightarrow> ('w \<Rightarrow> 'r \<times> 'w) \<Rightarrow> bool" where
  "log_kept wlog m \<longleftrightarrow> (\<forall>w. wlog (snd (m w)) = wlog w)"

definition pg_logs :: "'w services \<Rightarrow> ('w \<Rightarrow> sql_write list) \<Rightarrow> bool" where
  "pg_logs sv wlog \<longleftrightarrow>
     (\<forall>q w r w'. pg_execute sv q w = (r, w') \<longrightarrow> wlog w' = (case r of Inl _ \<Rightarrow> wlog w | Inr _ \<Rightarrow> wlog w @ [q]))
     \<and> log_kept wlog (redis_connect sv) \<and> (\<forall>c. log_kept wlog (redis_bool sv c))
     \<and> log_kept wlog (pg_max_height sv) \<and> log_kept wlog (pg_max_arrival sv)
     \<and> log_kept wlog (pg_recoverable_payments sv)
     \<and> (\<forall>u. log_kept wlog (http_get sv u)) \<and> (\<forall>u j. log_kept wlog (http_post sv u j))
     \<and> log_kept wlog (utc_now sv) \<and> log_kept wlog (new_uuid sv)"

lemma log_keptD: "log_kept wlog m \<Longrightarrow> m w = (r, w') \<Longrightarrow> wlog w' = wlog w"
  unfolding log_kept_def by (metis snd_conv)

text \<open>The statements a call has made: the one it was given when it succeeded.\<close>

definition made :: "'e + 'a \<Rightarrow> sql_write \<Rightarrow> sql_write list" where
  "made r q = (case r of Inl _ \<Rightarrow> [] | Inr _ \<Rightarrow> [q])"

lemma made_simps [simp]: "made (Inl e) q = []" "made (Inr x) q = [q]"
  by (simp_all add: made_def)

lemma pg_logs_execute: "pg_logs sv wlog \<Longrightarrow> pg_execute sv q w = (r, w') \<Longrightarrow> wlog w' = wlog w @ made r q"
  unfolding pg_logs_def by (cases r) fastforce+

text \<open>A database that accepts every statement it is given.\<close>

definition pg_accepts :: "'w services \<Rightarrow> bool" where
  "pg_accepts sv \<longleftrightarrow> (\<forall>q w. fst (pg_execute sv q w) = Inr ())"

lemma pg_accepts_execute:
  assumes "pg_logs sv wlog" and "pg_accepts sv"
  shows "\<exists>w'. pg_execute sv q w = (Inr (), w') \<and> wlog w' = wlog w @ [q]"
proof -
  obtain w' where "pg_execute sv q w = (Inr (), w')" using assms(2) unfolding pg_accepts_def by (metis prod.collapse)
  then show ?thesis using pg_logs_execute [OF assms(1)] by fastforce
qed

lemma pg_logs_kept:
  assumes "pg_logs sv wlog"
  shows "log_kept wlog (redis_connect sv)" "log_kept wlog (redis_bool sv c)" "log_kept wlog (pg_max_height sv)"
    "log_kept wlog (pg_max_arrival sv)" "log_kept wlog (pg_recoverable_payments sv)" "log_kept wlog (http_get sv u)"
    "log_kept wlog (http_post sv u j)" "log_kept wlog (utc_now sv)" "log_kept wlog (new_uuid sv)"
  using assms unfolding pg_logs_def by blast+

text \<open>A recording database as an instance: the world is the log itself.\<close>

definition recording :: "sql_write list services" where
  "recording = offline\<lparr>pg_execute := (\<lambda>q w. (Inr (), w @ [q]))\<rparr>"

lemma recording_logs: "pg_logs recording (\<lambda>w. w)" and recording_accepts: "pg_accepts recording"
  by (simp_all add: pg_logs_def pg_accepts_def log_kept_def recording_def offline_def)

end
