(* ===== verification/Safety.thy ===== *)
theory Safety
  imports Nexus_Services
begin

text \<open>
  The safety monitor of \<^verbatim>\<open>src/safety/mod.rs\<close>: the heartbeat compares the processed height with the
  Stacks height, raises and clears the safety flag in Redis, and ingests the gateway's failure rate.
\<close>

section \<open>Operations\<close>

record NexusSafety =
  max_drift :: u64
  rpc_url :: string
  gateway_url :: "string option"

definition safety_new :: "string \<Rightarrow> string option \<Rightarrow> NexusSafety" where
  "safety_new rpc gw = \<lparr>max_drift = 2, rpc_url = rpc, gateway_url = gw\<rparr>"

definition is_safety_mode_active :: "'w services \<Rightarrow> ('w, string, bool) io" where
  "is_safety_mode_active sv =
     io_try (redis_connect sv) (\<lambda>_.
     io_then (redis_bool sv [''GET'', ''nexus:safety_mode'']) (\<lambda>r.
     io_ok (or_else r False)))"

definition calculate_drift :: "u64 \<Rightarrow> u64 \<Rightarrow> u64" where
  "calculate_drift current processed = saturating_sub64 current processed"

definition get_external_burn_height :: "'w services \<Rightarrow> NexusSafety \<Rightarrow> ('w, string, u64) io" where
  "get_external_burn_height sv ns =
     io_try (http_get sv (rpc_url ns @ ''/extended/v1/block?limit=1'')) (\<lambda>resp.
     io_lift (hr_json resp) (\<lambda>j.
     case json_as_u64 (json_member (json_index (json_member j ''results'') 0) ''height'') of
       None \<Rightarrow> io_err ''Failed to parse block height from Stacks RPC''
     | Some h \<Rightarrow> io_ok h))"

definition get_processed_height :: "'w services \<Rightarrow> ('w, string, u64) io" where
  "get_processed_height sv =
     io_try (pg_max_height sv) (\<lambda>row.
     case row of
       None \<Rightarrow> io_err ''no rows returned by a query that expected to return at least one row''
     | Some max_height \<Rightarrow> io_ok (as_u64 (case max_height of None \<Rightarrow> 0 | Some h \<Rightarrow> h)))"

definition trigger_safety_mode :: "'w services \<Rightarrow> u64 \<Rightarrow> ('w, string, unit) io" where
  "trigger_safety_mode sv delta =
     io_try (redis_connect sv) (\<lambda>_.
     redis_pipe sv
       [[''SET'', ''nexus:safety_mode'', ''1''],
        [''SET'', ''nexus:drift'', show_nat delta],
        [''PUBLISH'', ''nexus:events'', ''safety_mode_triggered'']])"

definition clear_safety_mode_if_needed :: "'w services \<Rightarrow> ('w, string, unit) io" where
  "clear_safety_mode_if_needed sv =
     io_try (redis_connect sv) (\<lambda>_.
     io_then (redis_bool sv [''GET'', ''nexus:safety_mode'']) (\<lambda>r.
     if or_else r False then
       redis_pipe sv
         [[''DEL'', ''nexus:safety_mode''],
          [''DEL'', ''nexus:drift''],
          [''PUBLISH'', ''nexus:events'', ''safety_mode_cleared'']]
     else io_ok ()))"

definition check_health :: "'w services \<Rightarrow> NexusSafety \<Rightarrow> ('w, string, unit) io" where
  "check_health sv ns =
     io_try (get_external_burn_height sv ns) (\<lambda>current.
     io_try (get_processed_height sv) (\<lambda>processed.
     let delta = calculate_drift current processed in
     if max_drift ns < delta then trigger_safety_mode sv delta
     else clear_safety_mode_if_needed sv))"

text \<open>The failure rate is a quotient of two doubles.  For \<open>0 < a \<le> b\<close> the quotient is scaled so that its
  significand has 53 bits, and rounded to even; \<open>0.10\<close> is the double \<open>3602879701896397 / 2^55\<close>.  The sum of the
  two counts wraps in release builds.\<close>

definition f64_div :: "nat \<Rightarrow> nat \<Rightarrow> rat" where
  "f64_div a b =
     (if a = 0 then 0
      else let s0 = 52 + ilog2 b - ilog2 a; s = (if a * 2 ^ s0 < b * 2 ^ 52 then s0 + 1 else s0)
        in of_nat (rne_div (a * 2 ^ s) b) / 2 ^ s)"

definition failure_rate_exceeded :: "u64 \<Rightarrow> u64 \<Rightarrow> bool" where
  "failure_rate_exceeded success_count failure_count =
     (let total = wrap_u64 (int success_count + int failure_count) in
      100 < total
      \<and> 3602879701896397 / 2 ^ 55 < f64_div (f64_of_nat failure_count) (f64_of_nat total))"

definition json_u64_or_0 :: "json \<Rightarrow> u64" where
  "json_u64_or_0 v = (case json_as_u64 v of None \<Rightarrow> 0 | Some n \<Rightarrow> n)"

definition ingest_gateway_telemetry :: "'w services \<Rightarrow> NexusSafety \<Rightarrow> ('w, string, unit) io" where
  "ingest_gateway_telemetry sv ns =
     (case gateway_url ns of
        None \<Rightarrow> io_ok ()
      | Some url \<Rightarrow>
          io_try (http_get sv (url @ ''/api/v1/state'')) (\<lambda>resp.
          if \<not> is_success (hr_status resp) then io_ok ()
          else io_lift (hr_json resp) (\<lambda>j.
            let metrics = json_member j ''metrics'';
                success_count = json_u64_or_0 (json_member metrics ''verification_success'');
                failure_count = json_u64_or_0 (json_member metrics ''verification_failure'')
            in if failure_rate_exceeded success_count failure_count
               then io_try (trigger_safety_mode sv 999) (\<lambda>_. io_ok ())
               else io_ok ())))"

text \<open>One turn of the heartbeat loop: both errors are logged and dropped.\<close>

definition heartbeat_tick :: "'w services \<Rightarrow> NexusSafety \<Rightarrow> 'w \<Rightarrow> 'w" where
  "heartbeat_tick sv ns w =
     (let w1 = snd (check_health sv ns w) in
      if gateway_url ns \<noteq> None then snd (ingest_gateway_telemetry sv ns w1) else w1)"

definition get_direct_exit_status :: "'w services \<Rightarrow> string \<Rightarrow> ('w, string, string) io" where
  "get_direct_exit_status sv user_address =
     io_try (redis_connect sv) (\<lambda>_.
     io_then (redis_bool sv [''GET'', ''nexus:safety_mode'']) (\<lambda>r.
     if or_else r False
     then io_ok (''User '' @ user_address @ '': Eligible for Direct Withdrawal (Safety Mode Active)'')
     else io_ok (''User '' @ user_address @ '': System healthy, use standard exit paths'')))"

section \<open>Lemmas\<close>

lemma redis_flags_connect: "redis_flags sv val \<Longrightarrow> redis_connect sv w = (r, w') \<Longrightarrow> val w' = val w"
  unfolding redis_flags_def by (metis snd_conv)

lemma redis_flags_get:
  assumes "redis_flags sv val" and "redis_bool sv [''GET'', k] w = (r, w')"
  shows "val w' = val w" and "val w k = None \<Longrightarrow> r \<noteq> Inr True" and "val w k = Some ''1'' \<Longrightarrow> r = Inr True"
  using assms unfolding redis_flags_def by blast+

lemma redis_flags_pipe:
  "redis_flags sv val \<Longrightarrow> redis_pipe sv cs w = (Inr (), w') \<Longrightarrow> val w' = fold redis_effect cs (val w)"
  unfolding redis_flags_def by blast

abbreviation mode_key :: string where "mode_key \<equiv> ''nexus:safety_mode''"

text \<open>A read of the flag that reaches Redis and fails; the code takes it for an absent flag.\<close>

definition flag_read_fails :: "'w services \<Rightarrow> 'w \<Rightarrow> bool" where
  "flag_read_fails sv w = (case redis_connect sv w of
     (Inl _, _) \<Rightarrow> False | (Inr _, w1) \<Rightarrow> isl (fst (redis_bool sv [''GET'', mode_key] w1)))"

lemma active_keeps:
  assumes "redis_store sv val" and "is_safety_mode_active sv w = (r, w')"
  shows "val w' = val w"
proof -
  obtain q w1 where c: "redis_connect sv w = (q, w1)" by fastforce
  obtain b w2 where g: "redis_bool sv [''GET'', mode_key] w1 = (b, w2)" by fastforce
  show ?thesis
    using assms(2) c g redis_store_connect [OF assms(1) c] redis_store_get(1) [OF assms(1) g]
    by (cases q) (auto simp: is_safety_mode_active_def)
qed

lemma raised_read:
  assumes "redis_store sv val" and "val w mode_key = Some ''1''" and "is_safety_mode_active sv w = (Inr False, w')"
  shows "flag_read_fails sv w"
proof -
  obtain q w1 where c: "redis_connect sv w = (q, w1)" by fastforce
  obtain b w2 where g: "redis_bool sv [''GET'', mode_key] w1 = (b, w2)" by fastforce
  have "val w1 = val w" by (rule redis_store_connect [OF assms(1) c])
  then have "b \<noteq> Inr False" using redis_store_get(3) [OF assms(1) g] assms(2) by simp
  then show ?thesis
    using assms(3) c g by (cases q; cases b) (auto simp: is_safety_mode_active_def flag_read_fails_def)
qed

lemma trigger_sets_flag:
  assumes "redis_store sv val" and "trigger_safety_mode sv d w = (Inr (), w')"
  shows "val w' mode_key = Some ''1'' \<and> val w' ''nexus:drift'' = Some (show_nat d)"
  using assms(2) unfolding trigger_safety_mode_def
  by (elim io_try_Inr_D) (simp add: redis_store_pipe [OF assms(1)])

lemma clear_resets_flag:
  assumes "redis_flags sv val" and "clear_safety_mode_if_needed sv w = (Inr (), w')"
    and "val w mode_key \<in> {None, Some ''1''}"
  shows "val w' mode_key = None"
proof -
  from assms(2) obtain u w1 where c: "redis_connect sv w = (Inr u, w1)"
    and k: "io_then (redis_bool sv [''GET'', mode_key]) (\<lambda>r. if or_else r False then redis_pipe sv
         [[''DEL'', mode_key], [''DEL'', ''nexus:drift''], [''PUBLISH'', ''nexus:events'', ''safety_mode_cleared'']]
       else io_ok ()) w1 = (Inr (), w')"
    unfolding clear_safety_mode_if_needed_def by (blast elim: io_try_Inr_D)
  obtain r w2 where g: "redis_bool sv [''GET'', mode_key] w1 = (r, w2)" by fastforce
  have v: "val w1 = val w" "val w2 = val w"
    using redis_flags_connect [OF assms(1) c] redis_flags_get(1) [OF assms(1) g] by simp_all
  show ?thesis
  proof (cases "val w mode_key = None")
    case True
    then have "r \<noteq> Inr True" using redis_flags_get(2) [OF assms(1) g] v by simp
    then have "\<not> or_else r False" by (cases r) auto
    then show ?thesis using k g v True by simp
  next
    case False
    then have "val w1 mode_key = Some ''1''" using v assms(3) by auto
    then have "r = Inr True" by (rule redis_flags_get(3) [OF assms(1) g])
    then show ?thesis using k g by (simp add: redis_flags_pipe [OF assms(1)])
  qed
qed

lemma active_reads_flag:
  assumes "redis_flags sv val" and "is_safety_mode_active sv w = (Inr b, w')"
    and "val w mode_key \<in> {None, Some ''1''}"
  shows "b \<longleftrightarrow> val w mode_key = Some ''1''" and "val w' = val w"
proof -
  from assms(2) obtain u w1 where c: "redis_connect sv w = (Inr u, w1)"
    and k: "io_then (redis_bool sv [''GET'', mode_key]) (\<lambda>r. io_ok (or_else r False)) w1 = (Inr b :: string + bool, w')"
    unfolding is_safety_mode_active_def by (blast elim: io_try_Inr_D)
  obtain r w2 where g: "redis_bool sv [''GET'', mode_key] w1 = (r, w2)" by fastforce
  note v = redis_flags_connect [OF assms(1) c] redis_flags_get [OF assms(1) g]
  show "val w' = val w" using k g v by simp
  show "b \<longleftrightarrow> val w mode_key = Some ''1''"
    using k g v assms(3) by (cases r) auto
qed

lemma check_health_flag:
  assumes "redis_flags sv val"
    and "get_external_burn_height sv ns w = (Inr current, w1)" and "get_processed_height sv w1 = (Inr processed, w2)"
    and "val w2 mode_key \<in> {None, Some ''1''}" and "check_health sv ns w = (Inr (), w3)"
  shows "val w3 mode_key = (if processed + max_drift ns < current then Some ''1'' else None)"
proof -
  let ?d = "calculate_drift current processed"
  have run: "(if max_drift ns < ?d then trigger_safety_mode sv ?d else clear_safety_mode_if_needed sv) w2 = (Inr (), w3)"
    using assms(2,3,5) by (simp add: check_health_def Let_def split: if_splits)
  have "val w3 mode_key = (if max_drift ns < ?d then Some ''1'' else None)"
  proof (cases "max_drift ns < ?d")
    case True
    then show ?thesis using run trigger_sets_flag [OF redis_flags_store [OF assms(1)], of ?d w2 w3] by simp
  next
    case False
    then show ?thesis using run clear_resets_flag [OF assms(1), of w2 w3] assms(4) by simp
  qed
  moreover have "max_drift ns < ?d \<longleftrightarrow> processed + max_drift ns < current"
    by (auto simp: calculate_drift_def saturating_sub64_eq)
  ultimately show ?thesis by simp
qed

section \<open>The failure rate in doubles\<close>

lemma rne_div_ge: "0 < b \<Longrightarrow> 2 * x \<le> 2 * b * rne_div x b + b"
proof -
  assume b: "0 < b"
  define q r where "q = x div b" and "r = x mod b"
  have x: "x = b * q + r" by (simp add: q_def r_def)
  have "r < b" using b by (simp add: r_def)
  then show ?thesis
    unfolding rne_div_def Let_def q_def [symmetric] r_def [symmetric] x by (auto simp: algebra_simps)
qed

lemma rne_div_le: "0 < b \<Longrightarrow> x \<le> n * b \<Longrightarrow> rne_div x b \<le> n"
proof -
  assume b: "0 < b" and le: "x \<le> n * b"
  have q: "x div b \<le> n" using div_le_mono [OF le, of b] b by simp
  show ?thesis
  proof (cases "x div b = n")
    case True
    then have "x mod b = 0" using le b by (metis add_le_same_cancel1 le_zero_eq div_mult_mod_eq)
    with b True show ?thesis by (simp add: rne_div_def)
  next
    case False
    with q show ?thesis by (auto simp: rne_div_def Let_def)
  qed
qed

lemma f64_scale:
  assumes "0 < a" "a \<le> b"
  obtains s where "f64_div a b = of_nat (rne_div (a * 2 ^ s) b) / 2 ^ s" "52 \<le> s" "b * 2 ^ 52 \<le> a * 2 ^ s"
proof -
  define s0 where "s0 = 52 + ilog2 b - ilog2 a"
  define s where "s = (if a * 2 ^ s0 < b * 2 ^ 52 then s0 + 1 else s0)"
  have m: "ilog2 a \<le> ilog2 b" using assms(2) by (rule ilog2_mono)
  then have s0: "s0 = 52 + (ilog2 b - ilog2 a)" by (simp add: s0_def)
  have p: "(2 :: nat) ^ ilog2 b = 2 ^ ilog2 a * 2 ^ (ilog2 b - ilog2 a)"
    using m by (metis le_add_diff_inverse power_add)
  have "2 ^ ilog2 b * (2 ^ 52 * 2) \<le> a * 2 ^ (s0 + 1)"
  proof -
    have "2 ^ ilog2 b * (2 ^ 52 * 2) = 2 ^ ilog2 a * (2 :: nat) ^ (s0 + 1)"
      unfolding s0 p by (simp add: power_add)
    also have "\<dots> \<le> a * 2 ^ (s0 + 1)" using ilog2_le [OF assms(1)] by (rule mult_le_mono1)
    finally show ?thesis .
  qed
  moreover have "b * 2 ^ 52 \<le> 2 ^ Suc (ilog2 b) * 2 ^ 52"
    using ilog2_less [of b] by (intro mult_le_mono1) simp
  ultimately have "b * 2 ^ 52 \<le> a * 2 ^ (s0 + 1)" by simp
  then have "b * 2 ^ 52 \<le> a * 2 ^ s" by (simp add: s_def)
  moreover have "52 \<le> s" by (simp add: s_def s0)
  moreover have "f64_div a b = of_nat (rne_div (a * 2 ^ s) b) / 2 ^ s"
    using assms(1) by (simp add: f64_div_def Let_def s_def s0_def)
  ultimately show ?thesis using that by blast
qed

lemma f64_div_gt_tenth:
  assumes "0 < a" "a \<le> b" "b \<le> 2 ^ 48"
  shows "3602879701896397 / 2 ^ 55 < f64_div a b \<longleftrightarrow> b < 10 * a"
proof -
  obtain s where s: "f64_div a b = of_nat (rne_div (a * 2 ^ s) b) / 2 ^ s" "52 \<le> s" "b * 2 ^ 52 \<le> a * 2 ^ s"
    using f64_scale assms(1,2) by blast
  define m where "m = rne_div (a * 2 ^ s) b"
  define X where "X = (2 :: nat) ^ s"
  have "3602879701896397 / 2 ^ 55 < f64_div a b \<longleftrightarrow> (of_nat (3602879701896397 * X) :: rat) < of_nat (m * 2 ^ 55)"
    unfolding s(1) m_def X_def by (simp add: field_simps)
  also have "\<dots> \<longleftrightarrow> 3602879701896397 * X < m * 2 ^ 55" by (rule of_nat_less_iff)
  finally have eq: "3602879701896397 / 2 ^ 55 < f64_div a b \<longleftrightarrow> 3602879701896397 * X < m * 2 ^ 55" .
  have b0: "0 < b" using assms by simp
  show ?thesis
  proof (cases "b < 10 * a")
    case True
    have X: "2 ^ 52 \<le> X" unfolding X_def using s(2) by (rule power_increasing) simp
    have lo: "2 * (a * X) \<le> 2 * b * m + b" using rne_div_ge [OF b0] by (simp add: m_def X_def)
    have bX: "b * X \<le> 2 ^ 48 * X" using assms(3) by (rule mult_le_mono1)
    have "(b + 1) * X \<le> 10 * a * X" using True by (intro mult_le_mono1) simp
    then have aX: "b * X + X \<le> 10 * (a * X)" by (simp add: algebra_simps)
    have "3602879701896397 * X < m * 2 ^ 55"
    proof (rule ccontr)
      assume "\<not> ?thesis"
      then have "m * 2 ^ 55 \<le> 3602879701896397 * X" by simp
      then have "b * (m * 2 ^ 55) \<le> b * (3602879701896397 * X)" by (rule mult_le_mono2)
      then have "(b * m) * 2 ^ 55 \<le> 3602879701896397 * (b * X)" by (simp add: algebra_simps)
      then have "b * m * 36028797018963968 \<le> 3602879701896397 * (b * X)" by simp
      moreover have "2 * (a * X) \<le> 2 * (b * m) + b" using lo by (simp add: mult.assoc)
      moreover have "b * X \<le> 281474976710656 * X" "b \<le> 281474976710656" "4503599627370496 \<le> X"
        using bX assms(3) X by simp_all
      ultimately show False using aX by linarith
    qed
    with True eq show ?thesis by simp
  next
    case False
    have "55 \<le> s"
    proof (rule ccontr)
      assume "\<not> 55 \<le> s"
      then have "(2 :: nat) ^ s \<le> 2 ^ 54" by (intro power_increasing) simp_all
      then have "a * 2 ^ s \<le> a * 2 ^ 54" by (rule mult_le_mono2)
      with s(3) have "b * 2 ^ 52 \<le> a * 2 ^ 54" by (rule order_trans)
      with False assms(1) show False by simp
    qed
    then obtain t where t: "s = 55 + t" by (metis le_Suc_ex)
    have "a * 2 ^ s \<le> (3602879701896397 * 2 ^ t) * b"
    proof -
      have "10 * a * 2 ^ t \<le> b * 2 ^ t" using False by (intro mult_le_mono1) simp
      then show ?thesis by (simp add: t power_add)
    qed
    then have "m \<le> 3602879701896397 * 2 ^ t" unfolding m_def using b0 by (rule rne_div_le [rotated])
    then have "\<not> 3602879701896397 * X < m * 2 ^ 55" by (simp add: X_def t power_add)
    with False eq show ?thesis by simp
  qed
qed

lemma failure_rate_exceeded_iff:
  assumes "success_count + failure_count \<le> 2 ^ 48"
  shows "failure_rate_exceeded success_count failure_count \<longleftrightarrow>
    100 < success_count + failure_count \<and> success_count + failure_count < 10 * failure_count"
proof -
  let ?t = "success_count + failure_count"
  have w: "wrap_u64 (int success_count + int failure_count) = ?t"
    using assms by (subst wrap_u64_id) (simp_all flip: of_nat_add)
  have f: "f64_of_nat failure_count = failure_count" "f64_of_nat ?t = ?t"
    using assms by (simp_all add: f64_of_nat_def)
  show ?thesis
  proof (cases "failure_count = 0")
    case True
    then show ?thesis by (simp add: failure_rate_exceeded_def w f f64_div_def f64_of_nat_def)
  next
    case False
    with assms have "3602879701896397 / 2 ^ 55 < f64_div failure_count ?t \<longleftrightarrow> ?t < 10 * failure_count"
      by (intro f64_div_gt_tenth) simp_all
    then show ?thesis unfolding failure_rate_exceeded_def w f Let_def by simp
  qed
qed

section \<open>Properties\<close>

text \<open>After a health check that succeeds, the safety mode reads as active exactly when the Stacks
  height is ahead of the processed height by more than the allowed drift, whatever the flag was before;
  Redis is assumed to behave as a key-value store on the keys involved.\<close>

theorem check_health_sets_mode:
  assumes "redis_flags sv val"
    and "get_external_burn_height sv ns w = (Inr current, w1)" and "get_processed_height sv w1 = (Inr processed, w2)"
    and "val w2 mode_key \<in> {None, Some ''1''}"
    and "check_health sv ns w = (Inr (), w3)" and "is_safety_mode_active sv w3 = (Inr active, w4)"
  shows "active \<longleftrightarrow> processed + max_drift ns < current"
proof -
  note flag = check_health_flag [OF assms(1-5)]
  then have "val w3 mode_key \<in> {None, Some ''1''}" by simp
  then show ?thesis using active_reads_flag(1) [OF assms(1,6)] flag by simp
qed

text \<open>An in-memory store as the services: the world is the map of Redis, the chain is at height 110 and
  the node at 100.\<close>

definition memory_services :: "(string \<Rightarrow> string option) services" where
  "memory_services = offline\<lparr>redis_connect := io_ok (),
     redis_bool := (\<lambda>c w. (Inr (case c of [g, k] \<Rightarrow> g = ''GET'' \<and> w k = Some ''1'' | _ \<Rightarrow> False), w)),
     redis_pipe := (\<lambda>cs w. (Inr (), fold redis_effect cs w)),
     pg_max_height := io_ok (Some (Some 100)),
     http_get := (\<lambda>_. io_ok \<lparr>hr_status = 200,
       hr_json = Inr (JObj [(''results'', JArr [JObj [(''height'', JNum (PosInt 110))]])]), hr_text = Inr ''ok''\<rparr>)\<rparr>"

lemma memory_services_fields [simp]:
  "redis_connect memory_services = io_ok ()"
  "redis_bool memory_services = (\<lambda>c w. (Inr (case c of [g, k] \<Rightarrow> g = ''GET'' \<and> w k = Some ''1'' | _ \<Rightarrow> False), w))"
  "redis_pipe memory_services = (\<lambda>cs w. (Inr (), fold redis_effect cs w))"
  "pg_max_height memory_services = io_ok (Some (Some 100))"
  "http_get memory_services = (\<lambda>_. io_ok \<lparr>hr_status = 200,
       hr_json = Inr (JObj [(''results'', JArr [JObj [(''height'', JNum (PosInt 110))]])]), hr_text = Inr ''ok''\<rparr>)"
  by (simp_all add: memory_services_def offline_def)

lemma memory_services_flags: "redis_flags memory_services (\<lambda>w. w)"
  by (simp add: redis_flags_def)

theorem check_health_sets_mode_witness:
  "\<exists>w3. check_health memory_services (safety_new ''http://node'' None) Map.empty = (Inr (), w3)
    \<and> is_safety_mode_active memory_services w3 = (Inr (100 + 2 < (110 :: nat)), w3)"
proof -
  let ?ns = "safety_new ''http://node'' None"
  have ext: "get_external_burn_height memory_services ?ns Map.empty = (Inr 110, Map.empty)"
    by (simp add: get_external_burn_height_def json_member_def)
  have proc: "get_processed_height memory_services Map.empty = (Inr 100, Map.empty)"
    by (simp add: get_processed_height_def as_u64_nonneg is_i64_def)
  obtain w3 where c: "check_health memory_services ?ns Map.empty = (Inr (), w3)"
    using ext proc by (simp add: check_health_def trigger_safety_mode_def safety_new_def calculate_drift_def saturating_sub64_eq)
  obtain b where a: "is_safety_mode_active memory_services w3 = (Inr b, w3)"
    by (simp add: is_safety_mode_active_def)
  have "b \<longleftrightarrow> 100 + max_drift ?ns < 110"
    by (rule check_health_sets_mode [OF memory_services_flags ext proc _ c a]) simp
  then show ?thesis using c a by (simp add: safety_new_def)
qed

text \<open>C37: the gateway circuit breaker compares doubles, but up to \<^verbatim>\<open>2^48\<close> verifications it trips exactly when
  there were more than 100 of them and strictly more than a tenth failed: no rounding of the quotient or of
  the literal \<^verbatim>\<open>0.10\<close> changes the decision.\<close>

theorem circuit_breaker_exact:
  assumes "success_count + failure_count \<le> 2 ^ 48"
  shows "failure_rate_exceeded success_count failure_count \<longleftrightarrow>
    100 < success_count + failure_count \<and> success_count + failure_count < 10 * failure_count"
  by (rule failure_rate_exceeded_iff [OF assms])

theorem circuit_breaker_exact_witness:
  "\<not> failure_rate_exceeded 900000 100000 \<and> failure_rate_exceeded 900000 100001"
  using circuit_breaker_exact [of 900000 100000] circuit_breaker_exact [of 900000 100001] by simp

end
