(* ===== verification/Lightning.thy ===== *)
theory Lightning
  imports Nexus_Services
begin

text \<open>
  Lightning payment resilience: the status and failure taxonomy, the transition table and the recovery
  rules of \<^verbatim>\<open>src/executor/lightning.rs\<close>, and the recovery audit of \<^verbatim>\<open>src/orchestrator.rs\<close> that applies them
  to the rows of \<^verbatim>\<open>lightning_payment_intents\<close>.
\<close>

section \<open>Data\<close>

datatype LightningFailureType = Permanent | Transient | Indeterminate | MppPartial

datatype LightningPaymentStatus = Pending | Succeeded | Failed | Recovering | MppSplitting

fun show_failure :: "LightningFailureType \<Rightarrow> string" where
  "show_failure Permanent = ''permanent''"
| "show_failure Transient = ''transient''"
| "show_failure Indeterminate = ''indeterminate''"
| "show_failure MppPartial = ''mpp_partial''"

fun show_status :: "LightningPaymentStatus \<Rightarrow> string" where
  "show_status Pending = ''pending''"
| "show_status Succeeded = ''succeeded''"
| "show_status Failed = ''failed''"
| "show_status Recovering = ''recovering''"
| "show_status MppSplitting = ''mpp_splitting''"

record PaymentIntent =
  payment_id :: string
  payment_hash :: string
  amount_msat :: u64
  pi_status :: LightningPaymentStatus
  failure_type :: "LightningFailureType option"
  retry_count :: int
  created_at :: time
  last_updated_at :: time

text \<open>\<^verbatim>\<open>retry_count\<close> is an \<^verbatim>\<open>i32\<close>; its increment wraps in release builds.\<close>

definition wrap_i32 :: "int \<Rightarrow> int" where
  "wrap_i32 x = (x + 2 ^ 31) mod 2 ^ 32 - 2 ^ 31"

section \<open>The adapter\<close>

definition validate_transition :: "LightningPaymentStatus \<Rightarrow> LightningPaymentStatus \<Rightarrow> bool" where
  "validate_transition current next \<longleftrightarrow>
     (current, next) \<in>
       {(Pending, Succeeded), (Pending, Failed), (Pending, Recovering), (Pending, MppSplitting),
        (MppSplitting, Succeeded), (MppSplitting, Failed), (MppSplitting, Recovering),
        (Recovering, Succeeded), (Recovering, Failed), (Recovering, MppSplitting),
        (Failed, Recovering), (Failed, MppSplitting)}"

definition categorize_failure :: "string \<Rightarrow> LightningFailureType" where
  "categorize_failure reason =
     (if contains reason ''no_route'' \<or> contains reason ''invalid_invoice'' then Permanent
      else if contains reason ''mpp_partial_failure'' \<or> contains reason ''split_error'' then MppPartial
      else if contains reason ''timeout'' \<or> contains reason ''mpp_timeout'' then Indeterminate
      else Transient)"

definition should_recover :: "time \<Rightarrow> PaymentIntent \<Rightarrow> bool" where
  "should_recover now i =
     (case (pi_status i, failure_type i) of
        (Recovering, _) \<Rightarrow> True
      | (Failed, Some Transient) \<Rightarrow> retry_count i < 3
      | (Failed, Some MppPartial) \<Rightarrow> True
      | (Pending, _) \<Rightarrow> 300 < num_seconds (now - created_at i)
      | (MppSplitting, _) \<Rightarrow> 600 < num_seconds (now - last_updated_at i)
      | _ \<Rightarrow> False)"

text \<open>The clock is read once by \<^verbatim>\<open>should_recover\<close> and once more for the new \<^verbatim>\<open>last_updated_at\<close>.\<close>

definition process_recovery ::
  "time \<Rightarrow> time \<Rightarrow> PaymentIntent \<Rightarrow> string option \<times> PaymentIntent" where
  "process_recovery now now' i =
     (if \<not> should_recover now i then (None, i)
      else case failure_type i of
        Some Transient \<Rightarrow>
          (Some ''retry_initiated'',
           i\<lparr>pi_status := Recovering, retry_count := wrap_i32 (retry_count i + 1), last_updated_at := now'\<rparr>)
      | Some MppPartial \<Rightarrow>
          (Some ''split_recovery_triggered'', i\<lparr>pi_status := MppSplitting, last_updated_at := now'\<rparr>)
      | Some Indeterminate \<Rightarrow>
          (Some ''reconciliation_requested'', i\<lparr>pi_status := Recovering, last_updated_at := now'\<rparr>)
      | _ \<Rightarrow>
          if pi_status i = Pending
          then (Some ''stale_payment_recovery'', i\<lparr>pi_status := Recovering, last_updated_at := now'\<rparr>)
          else (None, i))"

section \<open>The recovery audit\<close>

definition parse_status :: "string \<Rightarrow> LightningPaymentStatus" where
  "parse_status s =
     (if s = ''pending'' then Pending
      else if s = ''succeeded'' then Succeeded
      else if s = ''failed'' then Failed
      else if s = ''recovering'' then Recovering
      else if s = ''mpp_splitting'' then MppSplitting
      else Pending)"

definition parse_failure :: "string \<Rightarrow> LightningFailureType option" where
  "parse_failure s =
     (if s = ''permanent'' then Some Permanent
      else if s = ''transient'' then Some Transient
      else if s = ''indeterminate'' then Some Indeterminate
      else if s = ''mpp_partial'' then Some MppPartial
      else None)"

text \<open>The columns are read in the order of the code; the first failure is the error.\<close>

definition intent_of_row :: "payment_row \<Rightarrow> (string, PaymentIntent) result" where
  "intent_of_row row =
     res_bind (pr_status row) (\<lambda>status_str.
     res_bind (pr_failure_type row) (\<lambda>failure_type_str.
     res_bind (pr_payment_id row) (\<lambda>pid.
     res_bind (pr_payment_hash row) (\<lambda>phash.
     res_bind (pr_amount_msat row) (\<lambda>amount.
     res_bind (pr_retry_count row) (\<lambda>retries.
     res_bind (pr_created_at row) (\<lambda>created.
     res_bind (pr_last_updated_at row) (\<lambda>updated.
     Inr \<lparr>payment_id = pid, payment_hash = phash, amount_msat = as_u64 amount,
          pi_status = parse_status status_str,
          failure_type = Option.bind failure_type_str parse_failure,
          retry_count = retries, created_at = created, last_updated_at = updated\<rparr>))))))))"

definition audit_payment :: "'w services \<Rightarrow> payment_row \<Rightarrow> ('w, string, unit) io" where
  "audit_payment sv row =
     io_lift (intent_of_row row) (\<lambda>intent.
     io_then (utc_now sv) (\<lambda>now.
     io_then (utc_now sv) (\<lambda>now'.
     case process_recovery now now' intent of
       (None, _) \<Rightarrow> io_ok ()
     | (Some action, i) \<Rightarrow>
         io_try (pg_execute sv (UpdatePaymentIntent (show_status (pi_status i)) (retry_count i)
                   (last_updated_at i) (payment_id i))) (\<lambda>_.
         io_then (new_uuid sv) (\<lambda>uuid.
         pg_execute sv (InsertPaymentEvent (''rec_'' @ uuid) (payment_id i) (show_status (pi_status i))
                   (''Recovery action: '' @ action)))))))"

fun audit_rows :: "'w services \<Rightarrow> payment_row list \<Rightarrow> ('w, string, unit) io" where
  "audit_rows sv [] = io_ok ()"
| "audit_rows sv (row # rows) = io_try (audit_payment sv row) (\<lambda>_. audit_rows sv rows)"

definition audit_lightning_payments :: "'w services \<Rightarrow> ('w, string, unit) io" where
  "audit_lightning_payments sv = io_try (pg_recoverable_payments sv) (\<lambda>rows. audit_rows sv rows)"

section \<open>Lemmas\<close>

lemma parse_show_status [simp]: "parse_status (show_status st) = st"
  by (cases st) (simp_all add: parse_status_def)

lemma parse_show_failure [simp]: "parse_failure (show_failure ft) = Some ft"
  by (cases ft) (simp_all add: parse_failure_def)

text \<open>An entry of the payment history: a change of status that the table of \<^verbatim>\<open>validate_transition\<close> allows, or a recovery step.  The
  program itself takes recovery steps only and calls \<^verbatim>\<open>validate_transition\<close> in tests alone; the first rule says what the table
  would let a caller do.\<close>

inductive payment_step :: "PaymentIntent \<Rightarrow> PaymentIntent \<Rightarrow> bool" where
  transition: "validate_transition (pi_status i) next \<Longrightarrow>
     payment_step i (i\<lparr>pi_status := next, failure_type := ft, last_updated_at := t\<rparr>)"
| recovery: "process_recovery now now' i = (Some action, i') \<Longrightarrow> payment_step i i'"

inductive_cases payment_stepE: "payment_step i i'"

lemma process_recovery_Some:
  assumes "process_recovery now now' i = (Some action, i')"
  shows "should_recover now i" and "pi_status i \<noteq> Succeeded"
    and "pi_status i' \<in> {Recovering, MppSplitting}"
    and "payment_id i' = payment_id i" "payment_hash i' = payment_hash i" "amount_msat i' = amount_msat i"
    and "failure_type i' = failure_type i" "created_at i' = created_at i" "last_updated_at i' = now'"
    and "retry_count i' = (if failure_type i = Some Transient then wrap_i32 (retry_count i + 1) else retry_count i)"
  using assms
  by (auto simp: process_recovery_def should_recover_def
      split: if_splits option.splits LightningFailureType.splits LightningPaymentStatus.splits)

lemma payment_step_keeps:
  "payment_step i i' \<Longrightarrow> pi_status i \<noteq> Succeeded \<and> pi_status i' \<noteq> Pending \<and> payment_id i' = payment_id i
     \<and> payment_hash i' = payment_hash i \<and> amount_msat i' = amount_msat i \<and> created_at i' = created_at i"
proof (induction rule: payment_step.induct)
  case (transition i "next" ft t)
  then show ?case by (auto simp: validate_transition_def)
next
  case (recovery now now' i action i')
  from process_recovery_Some [OF this] show ?case by auto
qed

section \<open>Properties\<close>

text \<open>C29: along any history of allowed transitions and recovery steps a payment keeps its identity (id,
  hash, amount, creation time), never returns to pending, and never leaves the succeeded state.\<close>

theorem payment_history_safe:
  assumes "payment_step\<^sup>*\<^sup>* i i'"
  shows "payment_id i' = payment_id i \<and> payment_hash i' = payment_hash i \<and> amount_msat i' = amount_msat i
    \<and> created_at i' = created_at i \<and> (pi_status i' = Pending \<longrightarrow> i' = i)
    \<and> (pi_status i = Succeeded \<longrightarrow> i' = i)"
  using assms
proof (induction rule: rtranclp_induct)
  case (step j k)
  then show ?case using payment_step_keeps [OF step.hyps(2)] by metis
qed simp

definition sample_intent :: PaymentIntent where
  "sample_intent =
     \<lparr>payment_id = ''p1'', payment_hash = ''h1'', amount_msat = 1000, pi_status = Failed,
      failure_type = Some Transient, retry_count = 0, created_at = 0, last_updated_at = 0\<rparr>"

theorem payment_history_safe_witness:
  "payment_id (snd (process_recovery 5 6 sample_intent)) = ''p1''
   \<and> pi_status (snd (process_recovery 5 6 sample_intent)) \<noteq> Pending"
proof -
  obtain i' where i': "process_recovery 5 6 sample_intent = (Some ''retry_initiated'', i')" "pi_status i' = Recovering"
    by (simp add: process_recovery_def should_recover_def sample_intent_def)
  have "payment_step\<^sup>*\<^sup>* sample_intent i'"
    by (rule r_into_rtranclp, rule payment_step.recovery, rule i'(1))
  from payment_history_safe [OF this] i' show ?thesis by (simp add: sample_intent_def)
qed

text \<open>What \<^const>\<open>process_recovery\<close> does on every branch: it acts exactly on the intents that
  qualify and have a recovery action, the new status and the retry counter are those of the failure type,
  the identity of the payment is untouched, and without an action the intent is unchanged.\<close>

theorem process_recovery_spec:
  "case process_recovery now now' i of (act, i') \<Rightarrow>
     (act = None \<longleftrightarrow> \<not> should_recover now i
        \<or> failure_type i \<in> {None, Some Permanent} \<and> pi_status i \<noteq> Pending)
     \<and> (act = None \<longrightarrow> i' = i)
     \<and> (act \<noteq> None \<longrightarrow>
          pi_status i' = (if failure_type i = Some MppPartial then MppSplitting else Recovering)
          \<and> retry_count i' = (if failure_type i = Some Transient then wrap_i32 (retry_count i + 1) else retry_count i)
          \<and> last_updated_at i' = now' \<and> payment_id i' = payment_id i)"
  by (cases "failure_type i")
    (auto simp: process_recovery_def split: if_splits LightningFailureType.splits)

theorem process_recovery_spec_witness:
  "case process_recovery 5 6 sample_intent of (act, i') \<Rightarrow>
     act \<noteq> None \<and> pi_status i' = Recovering \<and> retry_count i' = 1 \<and> last_updated_at i' = 6"
proof -
  have "should_recover 5 sample_intent" by (simp add: should_recover_def sample_intent_def)
  then show ?thesis
    using process_recovery_spec [where now = 5 and now' = 6 and i = sample_intent]
    by (auto simp: sample_intent_def wrap_i32_def split: prod.splits)
qed

text \<open>The bound of three retries holds only for failed payments: a payment that is recovering from a
  transient failure qualifies for another retry whatever its counter is, and the retry leaves it recovering, so
  every audit retries it again.\<close>

theorem recovering_transient_unbounded:
  assumes "pi_status i = Recovering" and "failure_type i = Some Transient"
  shows "\<exists>i'. process_recovery now now' i = (Some ''retry_initiated'', i')
    \<and> pi_status i' = Recovering \<and> failure_type i' = Some Transient
    \<and> retry_count i' = wrap_i32 (retry_count i + 1)"
  using assms by (simp add: process_recovery_def should_recover_def)

theorem recovering_transient_unbounded_witness:
  "\<exists>i'. process_recovery 5 6 (sample_intent\<lparr>pi_status := Recovering, retry_count := 1000\<rparr>)
      = (Some ''retry_initiated'', i') \<and> retry_count i' = wrap_i32 1001"
  using recovering_transient_unbounded [of "sample_intent\<lparr>pi_status := Recovering, retry_count := 1000\<rparr>", where now = 5 and now' = 6]
  by (auto simp: sample_intent_def)

text \<open>The writes that the audit of one row makes.\<close>

definition audit_writes :: "payment_row \<Rightarrow> sql_write list \<Rightarrow> bool" where
  "audit_writes row ws \<longleftrightarrow>
     (\<exists>i now now' uuid. intent_of_row row = Inr i \<and>
        (case process_recovery now now' i of
           (None, _) \<Rightarrow> ws = []
         | (Some action, i') \<Rightarrow>
             ws = [UpdatePaymentIntent (show_status (pi_status i')) (retry_count i') now' (payment_id i),
                   InsertPaymentEvent (''rec_'' @ uuid) (payment_id i) (show_status (pi_status i'))
                     (''Recovery action: '' @ action)]))"

lemma audit_writesI:
  assumes "intent_of_row row = Inr i"
    and "case process_recovery now now' i of
           (None, _) \<Rightarrow> ws = []
         | (Some action, i') \<Rightarrow>
             ws = [UpdatePaymentIntent (show_status (pi_status i')) (retry_count i') now' (payment_id i),
                   InsertPaymentEvent (''rec_'' @ uuid) (payment_id i) (show_status (pi_status i'))
                     (''Recovery action: '' @ action)]"
  shows "audit_writes row ws"
  unfolding audit_writes_def using assms by (intro exI conjI)

lemma audit_payment_writes:
  assumes "pg_logs sv wlog" and "pg_accepts sv" and "intent_of_row row = Inr i"
  shows "\<exists>w' ws. audit_payment sv row w = (Inr (), w') \<and> wlog w' = wlog w @ ws \<and> audit_writes row ws"
proof -
  obtain now w1 where n: "utc_now sv w = (now, w1)" by fastforce
  obtain now' w2 where n': "utc_now sv w1 = (now', w2)" by fastforce
  have kept: "wlog w2 = wlog w"
    using log_keptD [OF pg_logs_kept(8) [OF assms(1)] n] log_keptD [OF pg_logs_kept(8) [OF assms(1)] n'] by simp
  obtain act i' where p: "process_recovery now now' i = (act, i')" by fastforce
  show ?thesis
  proof (cases act)
    case None
    then have "audit_payment sv row w = (Inr (), w2)" using n n' p assms(3) by (simp add: audit_payment_def)
    moreover have "audit_writes row []"
      by (rule audit_writesI [OF assms(3), where now = now and now' = now']) (simp add: p None)
    ultimately show ?thesis using kept by auto
  next
    case (Some a)
    let ?u = "UpdatePaymentIntent (show_status (pi_status i')) (retry_count i') (last_updated_at i') (payment_id i')"
    obtain w3 where w3: "pg_execute sv ?u w2 = (Inr (), w3)" "wlog w3 = wlog w2 @ [?u]"
      using pg_accepts_execute [OF assms(1,2)] by blast
    obtain uuid w4 where u: "new_uuid sv w3 = (uuid, w4)" by fastforce
    let ?e = "InsertPaymentEvent (''rec_'' @ uuid) (payment_id i') (show_status (pi_status i')) (''Recovery action: '' @ a)"
    obtain w5 where w5: "pg_execute sv ?e w4 = (Inr (), w5)" "wlog w5 = wlog w4 @ [?e]"
      using pg_accepts_execute [OF assms(1,2)] by blast
    have "audit_payment sv row w = (Inr (), w5)"
      using n n' p Some w3 u w5 assms(3) by (simp add: audit_payment_def)
    moreover have "wlog w5 = wlog w @ [?u, ?e]"
      using kept w3 w5 log_keptD [OF pg_logs_kept(9) [OF assms(1)] u] by simp
    moreover have "audit_writes row [?u, ?e]"
      by (rule audit_writesI [OF assms(3), where now = now and now' = now' and uuid = uuid])
        (simp add: p Some process_recovery_Some [OF p [unfolded Some]])
    ultimately show ?thesis by blast
  qed
qed

text \<open>When every row decodes and the database accepts writes, the recovery audit succeeds and writes, row by
  row and in order, nothing for a payment that needs no recovery and otherwise the new state followed by one
  audit event that names the same payment and status.\<close>

theorem audit_rows_writes:
  assumes "pg_logs sv wlog" and "pg_accepts sv" and "\<forall>row \<in> set rows. \<exists>i. intent_of_row row = Inr i"
  shows "\<exists>w' wss. audit_rows sv rows w = (Inr (), w') \<and> wlog w' = wlog w @ concat wss
    \<and> list_all2 audit_writes rows wss"
  using assms(3)
proof (induction rows arbitrary: w)
  case Nil
  then show ?case by (auto intro: exI [of _ "[]"])
next
  case (Cons row rows)
  then obtain i where "intent_of_row row = Inr i" by auto
  then obtain w1 ws where 1: "audit_payment sv row w = (Inr (), w1)" "wlog w1 = wlog w @ ws" "audit_writes row ws"
    using audit_payment_writes [OF assms(1,2)] by blast
  obtain w' wss where "audit_rows sv rows w1 = (Inr (), w')" "wlog w' = wlog w1 @ concat wss"
      "list_all2 audit_writes rows wss"
    using Cons by fastforce
  with 1 have "audit_rows sv (row # rows) w = (Inr (), w') \<and> wlog w' = wlog w @ concat (ws # wss)
      \<and> list_all2 audit_writes (row # rows) (ws # wss)" by simp
  then show ?case by blast
qed

definition sample_row :: payment_row where
  "sample_row =
     \<lparr>pr_payment_id = Inr ''p1'', pr_payment_hash = Inr ''h1'', pr_amount_msat = Inr 1000,
      pr_status = Inr ''failed'', pr_failure_type = Inr (Some ''transient''), pr_retry_count = Inr 0,
      pr_created_at = Inr 0, pr_last_updated_at = Inr 0\<rparr>"

theorem audit_rows_writes_witness:
  "\<exists>w' wss. audit_rows recording [sample_row] [] = (Inr (), w') \<and> w' = concat wss
     \<and> list_all2 audit_writes [sample_row] wss"
  using audit_rows_writes [OF recording_logs recording_accepts, of "[sample_row]" "[]"]
  by (simp add: intent_of_row_def sample_row_def)

end
