(* ===== verification/Adapters.thy ===== *)
theory Adapters
  imports Nexus_Services Mmr
begin

text \<open>
  The protocol adapters of \<^verbatim>\<open>src/executor/\<close>: RGB contract lookup, EVM receipt proofs, Cosmos/IBC client
  updates, Stacks transactions, BitVM2 transitions and Fedimint.  The Groth16 verifier and the
  deserialisers of the \<^verbatim>\<open>ark\<close> crates are the fields of the record \<open>groth16\<close>.  Error texts keep the message of the
  program and leave out the detail that a library appends.
\<close>

section \<open>RGB\<close>

datatype RGBSchema = NIA | LNPBP | Unknown

datatype RGBRolloutMode = Disabled | Shadow | Active

fun show_schema :: "RGBSchema \<Rightarrow> string" where
  "show_schema NIA = ''NIA''"
| "show_schema LNPBP = ''LNPBP''"
| "show_schema Unknown = ''Unknown''"

fun show_rollout :: "RGBRolloutMode \<Rightarrow> string" where
  "show_rollout Disabled = ''disabled''"
| "show_rollout Shadow = ''shadow''"
| "show_rollout Active = ''active''"

record RGBContractMetadata =
  rgb_contract_id :: string
  rgb_status :: string
  rgb_mode :: RGBRolloutMode
  rgb_schema :: RGBSchema
  supply_total :: "u64 option"
  issued_at_height :: "u64 option"

record RGBAdapter =
  rollout_mode :: RGBRolloutMode
  known_contracts :: "string list"

definition rgb_new :: "RGBRolloutMode \<Rightarrow> RGBAdapter" where
  "rgb_new m = \<lparr>rollout_mode = m, known_contracts = []\<rparr>"

definition rgb_with_known :: "RGBRolloutMode \<Rightarrow> string list \<Rightarrow> RGBAdapter" where
  "rgb_with_known m known = \<lparr>rollout_mode = m, known_contracts = known\<rparr>"

definition validate_contract_id :: "string \<Rightarrow> (string, RGBSchema) result" where
  "validate_contract_id cid =
     (if \<not> starts_with cid ''rgb:'' then Inl (''Invalid RGB contract ID prefix: expected '' @ [CHR 0x27] @ ''rgb:'' @ [CHR 0x27])
      else if length cid < 40 then Inl ''Invalid RGB contract ID length: too short''
      else if contains cid ''_nia'' then Inr NIA
      else if contains cid ''_lnpbp'' then Inr LNPBP
      else Inr Unknown)"

definition lookup_contract :: "RGBAdapter \<Rightarrow> string \<Rightarrow> (string, RGBContractMetadata option) result" where
  "lookup_contract a cid =
     res_bind (validate_contract_id cid) (\<lambda>schema.
     case rollout_mode a of
       Disabled \<Rightarrow> Inl ''RGB adapter is disabled''
     | Shadow \<Rightarrow>
         Inr (Some \<lparr>rgb_contract_id = cid, rgb_status = ''verified'', rgb_mode = Shadow, rgb_schema = schema,
                   supply_total = Some 100000000, issued_at_height = Some 840000\<rparr>)
     | Active \<Rightarrow>
         if cid \<in> set (known_contracts a) then
           Inr (Some \<lparr>rgb_contract_id = cid, rgb_status = ''active'', rgb_mode = Active, rgb_schema = schema,
                     supply_total = Some 100000000, issued_at_height = Some 840000\<rparr>)
         else Inr None)"

section \<open>EVM receipts\<close>

record EVMReceiptProof =
  block_hash :: string
  transaction_index :: u64
  proof_nodes :: "string list"
  receipt_root :: string

record EVMVerificationResult =
  evm_valid :: bool
  evm_status :: string
  evm_verified_at_height :: u64

definition is_hash_literal :: "string \<Rightarrow> bool" where
  "is_hash_literal s \<longleftrightarrow> starts_with s ''0x'' \<and> length s = 66"

definition verify_receipt_proof ::
  "'w services \<Rightarrow> EVMReceiptProof \<Rightarrow> ('w, string, EVMVerificationResult) io" where
  "verify_receipt_proof sv p =
     (if \<not> is_hash_literal (block_hash p) then
        io_ok \<lparr>evm_valid = False, evm_status = ''Invalid block hash format'', evm_verified_at_height = 0\<rparr>
      else if \<not> is_hash_literal (receipt_root p) then
        io_ok \<lparr>evm_valid = False, evm_status = ''Invalid receipt root format'', evm_verified_at_height = 0\<rparr>
      else let status = ''Receipt proof verified and audited (NIP-005 Phase 1: Structural)'' in
        io_then (pg_execute sv (InsertEvmReceipt (block_hash p) (as_i64 (transaction_index p))
                   (receipt_root p) status 1000000)) (\<lambda>_.
        io_ok \<lparr>evm_valid = True, evm_status = status, evm_verified_at_height = 1000000\<rparr>))"

section \<open>Cosmos and IBC\<close>

record IBCClientUpdate =
  client_id :: string
  header :: string
  trusted_height :: u64

record IBCVerificationResult =
  ibc_valid :: bool
  ibc_client_id :: string
  latest_height :: u64
  trust_level :: string

text \<open>The height after the trusted one wraps in release builds.\<close>

definition verify_client_update ::
  "'w services \<Rightarrow> IBCClientUpdate \<Rightarrow> ('w, string, IBCVerificationResult) io" where
  "verify_client_update sv u =
     (if \<not> contains (client_id u) ''-'' \<or> length (client_id u) < 5 then
        io_ok \<lparr>ibc_valid = False, ibc_client_id = client_id u, latest_height = 0, trust_level = ''None''\<rparr>
      else let h = wrap_u64 (int (trusted_height u) + 1); lvl = ''T1 (NIP-005 Phase 1)'' in
        io_then (pg_execute sv (UpsertCosmosUpdate (client_id u) (as_i64 h) lvl)) (\<lambda>_.
        io_ok \<lparr>ibc_valid = True, ibc_client_id = client_id u, latest_height = h, trust_level = lvl\<rparr>))"

section \<open>Stacks\<close>

record StacksTransaction =
  stx_tx_id :: string
  block_height :: u64
  stx_sender :: string
  amount_sbtc :: u64

record StacksVerificationResult =
  stx_valid :: bool
  stx_status :: string
  stx_verified_at_height :: u64

definition verify_transaction :: "StacksTransaction \<Rightarrow> (string, StacksVerificationResult) result" where
  "verify_transaction tx =
     (if stx_tx_id tx = [] \<or> \<not> starts_with (stx_tx_id tx) ''0x'' then
        Inr \<lparr>stx_valid = False, stx_status = ''Invalid transaction ID format'', stx_verified_at_height = 0\<rparr>
      else if amount_sbtc tx = 0 then
        Inr \<lparr>stx_valid = False, stx_status = ''Zero amount sBTC transaction'', stx_verified_at_height = 0\<rparr>
      else
        Inr \<lparr>stx_valid = True, stx_status = ''Stacks transaction verified (Pilot)'',
             stx_verified_at_height = block_height tx\<rparr>)"

section \<open>BitVM2\<close>

record BitVMTransition =
  prev_state_root :: string
  next_state_root :: string
  proof_bytes :: string
  vk_bytes :: string
  public_inputs :: "string list"
  trace_id :: string

record BitVMVerificationResult =
  bv_valid :: bool
  bv_message :: string
  steps_verified :: u64
  bv_confidence :: rat

record ('p, 'k, 'f) groth16 =
  de_proof :: "bytes \<Rightarrow> 'p option"
  de_vk :: "bytes \<Rightarrow> 'k option"
  de_fr :: "bytes \<Rightarrow> 'f option"
  g_verify :: "'k \<Rightarrow> 'f list \<Rightarrow> 'p \<Rightarrow> bool option"

fun decode_inputs ::
  "('p, 'k, 'f) groth16 \<Rightarrow> string list \<Rightarrow> (string, 'f list \<times> bytes) result" where
  "decode_inputs g [] = Inr ([], [])"
| "decode_inputs g (h # hs) =
     res_bind (ok_or (hex_decode h) ''Invalid input hex'') (\<lambda>bs.
     res_bind (ok_or (de_fr g bs) ''Failed to deserialize public input'') (\<lambda>x.
     res_bind (decode_inputs g hs) (\<lambda>(xs, rest). Inr (x # xs, bs @ rest))))"

definition bv_reject :: "string \<Rightarrow> BitVMVerificationResult" where
  "bv_reject msg = \<lparr>bv_valid = False, bv_message = msg, steps_verified = 0, bv_confidence = 0\<rparr>"

definition verify_transition ::
  "'w services \<Rightarrow> hasher \<Rightarrow> ('p, 'k, 'f) groth16 \<Rightarrow> BitVMTransition \<Rightarrow> ('w, string, BitVMVerificationResult) io" where
  "verify_transition sv H g t =
     (if \<not> is_hash_literal (prev_state_root t) then io_ok (bv_reject ''Invalid prev_state_root format'')
      else if \<not> is_hash_literal (next_state_root t) then io_ok (bv_reject ''Invalid next_state_root format'')
      else
        io_lift (ok_or (hex_decode (proof_bytes t)) ''Invalid proof hex'') (\<lambda>pb.
        io_lift (ok_or (hex_decode (vk_bytes t)) ''Invalid VK hex'') (\<lambda>vb.
        io_lift (ok_or (de_proof g pb) ''Failed to deserialize proof'') (\<lambda>pf.
        io_lift (ok_or (de_vk g vb) ''Failed to deserialize VK'') (\<lambda>vk.
        io_lift (decode_inputs g (public_inputs t)) (\<lambda>(inputs, concatenated).
        io_lift (ok_or (g_verify g vk inputs pf) ''SNARK verification error'') (\<lambda>is_valid.
        if \<not> is_valid then io_ok (bv_reject ''Groth16 proof verification failed'')
        else
          io_then (pg_execute sv (InsertBitvmTransition (trace_id t) (prev_state_root t) (next_state_root t)
                     (hex_encode (H pb)) (hex_encode (H vb)) (hex_encode (H concatenated)) 1024 1)) (\<lambda>_.
          io_ok \<lparr>bv_valid = True,
                 bv_message = ''Transition cryptographically verified and audited successfully (NIP-005)'',
                 steps_verified = 1024, bv_confidence = 1\<rparr>))))))))"

section \<open>Fedimint\<close>

definition verify_mint_proof :: "string \<Rightarrow> (string, bool) result" where
  "verify_mint_proof proof_str = Inr True"

section \<open>Properties\<close>

text \<open>The bytes that a transition carries, and that the verifier accepted them.\<close>

definition bitvm_accepts ::
  "('p, 'k, 'f) groth16 \<Rightarrow> BitVMTransition \<Rightarrow> bytes \<Rightarrow> bytes \<Rightarrow> bytes list \<Rightarrow> bool" where
  "bitvm_accepts g t pb vb bs \<longleftrightarrow>
     is_hash_literal (prev_state_root t) \<and> is_hash_literal (next_state_root t)
     \<and> hex_decode (proof_bytes t) = Some pb \<and> hex_decode (vk_bytes t) = Some vb
     \<and> map hex_decode (public_inputs t) = map Some bs
     \<and> (\<exists>pf vk xs. de_proof g pb = Some pf \<and> de_vk g vb = Some vk \<and> map (de_fr g) bs = map Some xs
          \<and> g_verify g vk xs pf = Some True)"

lemma decode_inputs_Inr:
  "decode_inputs g hs = Inr (xs, cat) \<longleftrightarrow>
     (\<exists>bs. map hex_decode hs = map Some bs \<and> map (de_fr g) bs = map Some xs \<and> cat = concat bs)"
proof (induction hs arbitrary: xs cat)
  case (Cons h hs)
  have "decode_inputs g (h # hs) = Inr (xs, cat) \<longleftrightarrow>
      (\<exists>b x xs' rest. hex_decode h = Some b \<and> de_fr g b = Some x \<and> decode_inputs g hs = Inr (xs', rest)
        \<and> xs = x # xs' \<and> cat = b @ rest)"
    by (auto simp: res_bind_Inr_iff ok_or_Inr_iff)
  then show ?case unfolding Cons.IH by (force simp: Cons_eq_map_conv)
qed auto

text \<open>C22: a BitVM2 transition is reported valid only if both roots are 66-character hash literals, the proof,
  the key and every public input decode, and the Groth16 verifier accepts exactly those; the audit row carries the
  hashes of exactly the bytes that were checked.  A transition that is not reported valid writes nothing.\<close>

theorem bitvm_valid_only_if_verified:
  assumes "verify_transition sv H g t w = (r, w')"
  shows "if (\<exists>res. r = Inr res \<and> bv_valid res)
    then \<exists>pb vb bs. bitvm_accepts g t pb vb bs
      \<and> w' = snd (pg_execute sv (InsertBitvmTransition (trace_id t) (prev_state_root t) (next_state_root t)
           (hex_encode (H pb)) (hex_encode (H vb)) (hex_encode (H (concat bs))) 1024 1) w)
    else w' = w"
proof (cases "\<exists>pb vb pf vk xs cat. is_hash_literal (prev_state_root t) \<and> is_hash_literal (next_state_root t)
    \<and> hex_decode (proof_bytes t) = Some pb \<and> hex_decode (vk_bytes t) = Some vb
    \<and> de_proof g pb = Some pf \<and> de_vk g vb = Some vk \<and> decode_inputs g (public_inputs t) = Inr (xs, cat)
    \<and> g_verify g vk xs pf = Some True")
  case True
  then obtain pb vb pf vk xs cat where c: "is_hash_literal (prev_state_root t)" "is_hash_literal (next_state_root t)"
    "hex_decode (proof_bytes t) = Some pb" "hex_decode (vk_bytes t) = Some vb"
    "de_proof g pb = Some pf" "de_vk g vb = Some vk" "decode_inputs g (public_inputs t) = Inr (xs, cat)"
    "g_verify g vk xs pf = Some True" by blast
  then obtain bs where bs: "map hex_decode (public_inputs t) = map Some bs" "map (de_fr g) bs = map Some xs"
    "cat = concat bs" by (auto simp: decode_inputs_Inr)
  have "bitvm_accepts g t pb vb bs" using c bs unfolding bitvm_accepts_def by blast
  moreover have "w' = snd (pg_execute sv (InsertBitvmTransition (trace_id t) (prev_state_root t) (next_state_root t)
           (hex_encode (H pb)) (hex_encode (H vb)) (hex_encode (H (concat bs))) 1024 1) w)"
      "\<exists>res. r = Inr res \<and> bv_valid res"
    using assms c bs(3) by (auto simp: verify_transition_def io_then_def split: prod.splits)
  ultimately show ?thesis by auto
next
  case False
  then have "(\<forall>res. r = Inr res \<longrightarrow> \<not> bv_valid res) \<and> w' = w"
    using assms unfolding verify_transition_def io_lift_def ok_or_def
    by (auto simp: bv_reject_def split: if_splits option.splits sum.splits)
  then show ?thesis by auto
qed

definition accept_all :: "(bytes, bytes, bytes) groth16" where
  "accept_all = \<lparr>de_proof = Some, de_vk = Some, de_fr = Some, g_verify = (\<lambda>_ _ _. Some True)\<rparr>"

definition sample_transition :: BitVMTransition where
  "sample_transition =
     \<lparr>prev_state_root = zero_root, next_state_root = zero_root, proof_bytes = ''0a'', vk_bytes = ''0b'',
      public_inputs = [''01'', ''02''], trace_id = ''t1''\<rparr>"

lemma zero_root_literal: "is_hash_literal zero_root"
  by (simp add: is_hash_literal_def starts_with_def zero_root_def)

theorem bitvm_valid_only_if_verified_witness:
  "\<exists>res w'. verify_transition recording sampleH accept_all sample_transition [] = (Inr res, w') \<and> bv_valid res
     \<and> (\<exists>pb vb bs. bitvm_accepts accept_all sample_transition pb vb bs) \<and> length w' = 1"
proof -
  have "decode_inputs accept_all [''01'', ''02''] = Inr ([[1], [2]], [1, 2])"
    by (simp add: accept_all_def hex_val_def)
  then obtain res w' where run: "verify_transition recording sampleH accept_all sample_transition [] = (Inr res, w')"
      "bv_valid res" "length w' = 1"
    unfolding verify_transition_def sample_transition_def
    by (simp add: zero_root_literal hex_val_def accept_all_def recording_def offline_def io_then_def)
  from bitvm_valid_only_if_verified [OF run(1)] run show ?thesis by auto
qed

text \<open>The RGB adapter answers only for identifiers of the right form: a disabled adapter rejects every
  lookup, an active adapter finds exactly the known contracts, and every answer echoes the identifier with the
  schema that \<^const>\<open>validate_contract_id\<close> derives.\<close>

theorem rgb_lookup_spec:
  "case validate_contract_id cid of
     Inl e \<Rightarrow> lookup_contract a cid = Inl e \<and> (\<not> starts_with cid ''rgb:'' \<or> length cid < 40)
   | Inr schema \<Rightarrow>
       starts_with cid ''rgb:'' \<and> 40 \<le> length cid
       \<and> (case lookup_contract a cid of
            Inl _ \<Rightarrow> rollout_mode a = Disabled
          | Inr None \<Rightarrow> rollout_mode a = Active \<and> cid \<notin> set (known_contracts a)
          | Inr (Some m) \<Rightarrow> rgb_contract_id m = cid \<and> rgb_schema m = schema \<and> rgb_mode m = rollout_mode a
              \<and> rollout_mode a \<noteq> Disabled \<and> (rollout_mode a = Active \<longrightarrow> cid \<in> set (known_contracts a)))"
  by (cases "rollout_mode a") (auto simp: lookup_contract_def validate_contract_id_def)

theorem rgb_lookup_spec_witness:
  "case lookup_contract (rgb_new Active) ''rgb:asset_nia_123456789012345678901234567890'' of
     Inr None \<Rightarrow> True | _ \<Rightarrow> False"
proof -
  let ?c = "''rgb:asset_nia_123456789012345678901234567890''"
  have "validate_contract_id ?c = Inr NIA" by (simp add: validate_contract_id_def starts_with_def)
  with rgb_lookup_spec [where cid = ?c and a = "rgb_new Active"] show ?thesis
    by (auto simp: rgb_new_def split: sum.splits option.splits)
qed

text \<open>The three structural verifiers answer valid exactly on inputs of the right form, never fail while the
  database accepts their row, and write an audit row exactly when they answer valid.\<close>

theorem structural_verifiers_spec:
  assumes "pg_logs sv wlog" and "pg_accepts sv"
  shows "\<exists>r1 w1 r2 w2 r3.
      verify_receipt_proof sv p w = (Inr r1, w1) \<and> verify_client_update sv u w = (Inr r2, w2)
      \<and> verify_transaction tx = Inr r3
      \<and> (evm_valid r1 \<longleftrightarrow> is_hash_literal (block_hash p) \<and> is_hash_literal (receipt_root p))
      \<and> wlog w1 = wlog w @ (if evm_valid r1 then [InsertEvmReceipt (block_hash p) (as_i64 (transaction_index p))
           (receipt_root p) (evm_status r1) (int (evm_verified_at_height r1))] else [])
      \<and> (ibc_valid r2 \<longleftrightarrow> contains (client_id u) ''-'' \<and> 5 \<le> length (client_id u))
      \<and> wlog w2 = wlog w @ (if ibc_valid r2 then [UpsertCosmosUpdate (client_id u) (as_i64 (latest_height r2))
           (trust_level r2)] else [])
      \<and> (stx_valid r3 \<longleftrightarrow> starts_with (stx_tx_id tx) ''0x'' \<and> amount_sbtc tx \<noteq> 0)"
proof -
  have "\<exists>r1 w1. verify_receipt_proof sv p w = (Inr r1, w1)
      \<and> (evm_valid r1 \<longleftrightarrow> is_hash_literal (block_hash p) \<and> is_hash_literal (receipt_root p))
      \<and> wlog w1 = wlog w @ (if evm_valid r1 then [InsertEvmReceipt (block_hash p) (as_i64 (transaction_index p))
           (receipt_root p) (evm_status r1) (int (evm_verified_at_height r1))] else [])"
    using pg_accepts_execute [OF assms, of "InsertEvmReceipt (block_hash p) (as_i64 (transaction_index p))
        (receipt_root p) ''Receipt proof verified and audited (NIP-005 Phase 1: Structural)'' 1000000" w]
    by (cases "is_hash_literal (block_hash p) \<and> is_hash_literal (receipt_root p)")
      (elim exE conjE, simp add: verify_receipt_proof_def Let_def, auto simp: verify_receipt_proof_def)
  moreover have "\<exists>r2 w2. verify_client_update sv u w = (Inr r2, w2)
      \<and> (ibc_valid r2 \<longleftrightarrow> contains (client_id u) ''-'' \<and> 5 \<le> length (client_id u))
      \<and> wlog w2 = wlog w @ (if ibc_valid r2 then [UpsertCosmosUpdate (client_id u) (as_i64 (latest_height r2))
           (trust_level r2)] else [])"
    using pg_accepts_execute [OF assms, of "UpsertCosmosUpdate (client_id u)
        (as_i64 (wrap_u64 (int (trusted_height u) + 1))) ''T1 (NIP-005 Phase 1)''" w]
    by (cases "contains (client_id u) ''-'' \<and> 5 \<le> length (client_id u)")
      (elim exE conjE, simp add: verify_client_update_def Let_def, auto simp: verify_client_update_def)
  moreover have "\<exists>r3. verify_transaction tx = Inr r3
      \<and> (stx_valid r3 \<longleftrightarrow> starts_with (stx_tx_id tx) ''0x'' \<and> amount_sbtc tx \<noteq> 0)"
    by (auto simp: verify_transaction_def starts_with_def)
  ultimately show ?thesis by blast
qed

theorem structural_verifiers_spec_witness:
  "\<exists>r1 w1. verify_receipt_proof recording
      \<lparr>block_hash = zero_root, transaction_index = 7, proof_nodes = [], receipt_root = zero_root\<rparr> [] = (Inr r1, w1)
    \<and> evm_valid r1 \<and> length w1 = 1"
proof -
  let ?p = "\<lparr>block_hash = zero_root, transaction_index = 7, proof_nodes = [], receipt_root = zero_root\<rparr>"
  obtain r1 w1 where "verify_receipt_proof recording ?p [] = (Inr r1, w1)"
    "evm_valid r1 \<longleftrightarrow> is_hash_literal (block_hash ?p) \<and> is_hash_literal (receipt_root ?p)"
    "w1 = [] @ (if evm_valid r1 then [InsertEvmReceipt (block_hash ?p) (as_i64 (transaction_index ?p))
           (receipt_root ?p) (evm_status r1) (int (evm_verified_at_height r1))] else [])"
    using structural_verifiers_spec [OF recording_logs recording_accepts, of ?p "[]"
        "\<lparr>client_id = ''07-tendermint-0'', header = ''h'', trusted_height = 1\<rparr>"
        "\<lparr>stx_tx_id = ''0x1'', block_height = 1, stx_sender = ''s'', amount_sbtc = 1\<rparr>"] by blast
  then show ?thesis by (simp add: zero_root_literal)
qed

end
