(* ===== verification/Executor.thy ===== *)
theory Executor
  imports Safety Lightning Adapters
begin

text \<open>
  The sequencer \<^verbatim>\<open>NexusExecutor\<close> of \<^verbatim>\<open>src/executor/mod.rs\<close>: a transaction is accepted only outside the safety
  mode and only if it is newer than the latest event, and is then written to the audit log.  The executor's own state is
  the cache of the latest event time and the RGB adapter; it travels with the world.
\<close>

section \<open>Operations\<close>

record ExecutionRequest =
  tx_id :: string
  payload :: string
  req_timestamp :: time
  sender :: string
  priority :: int

record NexusExecutor =
  latest_event_time_cache :: "time option"
  rgb_adapter :: RGBAdapter

definition executor_new :: "RGBRolloutMode \<Rightarrow> string list \<Rightarrow> NexusExecutor" where
  "executor_new m known =
     \<lparr>latest_event_time_cache = None, rgb_adapter = rgb_with_known m known\<rparr>"

text \<open>A call to a service leaves the executor alone.\<close>

definition on_world :: "('w, 'e, 'a) io \<Rightarrow> (NexusExecutor \<times> 'w, 'e, 'a) io" where
  "on_world m s = (case m (snd s) of (r, w') \<Rightarrow> (r, (fst s, w')))"

definition check_safety_mode :: "'w services \<Rightarrow> ('w, string, unit) io" where
  "check_safety_mode sv =
     io_try (is_safety_mode_active sv) (\<lambda>active.
     if active then io_err ''System is in Safety Mode (Sovereign Handoff Active). Execution blocked.''
     else io_ok ())"

definition get_cached_or_fetch_latest_event_time ::
  "'w services \<Rightarrow> (NexusExecutor \<times> 'w, string, time option) io" where
  "get_cached_or_fetch_latest_event_time sv s =
     (case latest_event_time_cache (fst s) of
        Some t \<Rightarrow> (Inr (Some t), s)
      | None \<Rightarrow>
          io_try (on_world (pg_max_arrival sv)) (\<lambda>row (ex, w).
            case row of
              None \<Rightarrow> (Inl ''no rows returned by a query that expected to return at least one row'', (ex, w))
            | Some None \<Rightarrow> (Inr None, (ex, w))
            | Some (Some t) \<Rightarrow> (Inr (Some t), (ex\<lparr>latest_event_time_cache := Some t\<rparr>, w))) s)"

definition validate_transaction ::
  "'w services \<Rightarrow> ExecutionRequest \<Rightarrow> (NexusExecutor \<times> 'w, string, bool) io" where
  "validate_transaction sv req =
     io_try (get_cached_or_fetch_latest_event_time sv) (\<lambda>latest.
     case latest of
       Some event_time \<Rightarrow> if req_timestamp req \<le> event_time then io_ok False else io_ok True
     | None \<Rightarrow> io_ok True)"

definition submit ::
  "'w services \<Rightarrow> hasher \<Rightarrow> ExecutionRequest \<Rightarrow> (NexusExecutor \<times> 'w, string, string) io" where
  "submit sv H req =
     io_try (on_world (check_safety_mode sv)) (\<lambda>_.
     io_try (validate_transaction sv req) (\<lambda>ok.
     if \<not> ok then io_err ''Transaction validation failed''
     else
       io_try (on_world (pg_execute sv (InsertAuditLog (tx_id req)
                  (hex_encode (H (as_bytes (payload req)))) (sender req) (req_timestamp req)
                  (payload req) (priority req)))) (\<lambda>_.
       io_ok (tx_id req))))"

text \<open>The error of the query and a missing row both end in \<^verbatim>\<open>None\<close> (\<^verbatim>\<open>.ok()??\<close>).\<close>

definition get_latest_fx_rate :: "'w services \<Rightarrow> string \<Rightarrow> 'w \<Rightarrow> rat option \<times> 'w" where
  "get_latest_fx_rate sv symbol =
     io_then (pg_latest_rates sv) (\<lambda>r w.
     (case r of
        Inr (Some rates) \<Rightarrow> Option.bind (json_get symbol rates) as_f64
      | _ \<Rightarrow> None, w))"

definition trigger_lightning_recovery :: "'w services \<Rightarrow> ('w, string, unit) io" where
  "trigger_lightning_recovery sv = audit_lightning_payments sv"

definition execute_rebalance :: "(string, unit) result" where
  "execute_rebalance = Inr ()"

record VaultStatus =
  vault_id :: string
  collateral_amount :: u64
  debt_amount :: u64
  ltv_ratio :: rat

definition get_vaults_from_storage :: "(string, VaultStatus list) result" where
  "get_vaults_from_storage = Inr []"

section \<open>Lemmas\<close>

lemma on_world_eq [simp]: "m w = (r, w') \<Longrightarrow> on_world m (ex, w) = (r, (ex, w'))"
  by (simp add: on_world_def)

lemma check_safety_mode_ok:
  "check_safety_mode sv w = (Inr (), w') \<longleftrightarrow> is_safety_mode_active sv w = (Inr False, w')"
  by (auto simp: check_safety_mode_def io_try_def split: prod.splits sum.splits)

text \<open>Reading the flag writes nothing to the database.\<close>

lemma active_log:
  assumes "pg_logs sv wlog" and "is_safety_mode_active sv w = (r, w')"
  shows "wlog w' = wlog w"
proof -
  obtain u v where c: "redis_connect sv w = (u, v)" by fastforce
  obtain u' v' where g: "redis_bool sv [''GET'', ''nexus:safety_mode''] v = (u', v')" by fastforce
  have "w' = v \<or> w' = v'"
    using assms(2) c g by (cases u) (auto simp: is_safety_mode_active_def)
  then show ?thesis
    using log_keptD [OF pg_logs_kept(1) [OF assms(1)] c] log_keptD [OF pg_logs_kept(2) [OF assms(1)] g] by auto
qed

lemma check_keeps:
  assumes "check_safety_mode sv w = (r, w')" and "pg_logs sv wlog"
  shows "wlog w' = wlog w"
  using assms(1) active_log [OF assms(2), of w]
  by (auto simp: check_safety_mode_def io_try_def split: prod.splits sum.splits if_splits)

lemma fetch_cached [simp]:
  "latest_event_time_cache ex = Some t \<Longrightarrow>
     get_cached_or_fetch_latest_event_time sv (ex, w) = (Inr (Some t), (ex, w))"
  by (simp add: get_cached_or_fetch_latest_event_time_def)

lemma fetch_result:
  assumes "get_cached_or_fetch_latest_event_time sv (ex, w) = (Inr latest, (ex', w'))"
  shows "(latest = latest_event_time_cache ex \<and> latest \<noteq> None \<and> ex' = ex \<and> w' = w)
    \<or> (latest_event_time_cache ex = None \<and> pg_max_arrival sv w = (Inr (Some latest), w')
        \<and> ex' = (case latest of None \<Rightarrow> ex | Some t \<Rightarrow> ex\<lparr>latest_event_time_cache := Some t\<rparr>))"
  using assms
  by (auto simp: get_cached_or_fetch_latest_event_time_def on_world_def io_try_def
      split: option.splits prod.splits sum.splits)

lemma submit_ok:
  assumes "submit sv H req (ex, w) = (Inr r, (ex', w'))"
  obtains w1 latest w2 where "r = tx_id req" "is_safety_mode_active sv w = (Inr False, w1)"
    "get_cached_or_fetch_latest_event_time sv (ex, w1) = (Inr latest, (ex', w2))"
    "\<forall>t. latest = Some t \<longrightarrow> t < req_timestamp req"
    "pg_execute sv (InsertAuditLog (tx_id req) (hex_encode (H (as_bytes (payload req)))) (sender req)
       (req_timestamp req) (payload req) (priority req)) w2 = (Inr (), w')"
proof -
  obtain c s1 where c: "check_safety_mode sv w = (c, s1)" by fastforce
  with assms have "c = Inr ()" by (cases c) (auto simp: submit_def io_try_def)
  with c have act: "is_safety_mode_active sv w = (Inr False, s1)" by (simp add: check_safety_mode_ok)
  obtain l ex2 w2 where l: "get_cached_or_fetch_latest_event_time sv (ex, s1) = (l, (ex2, w2))"
    using prod.exhaust by metis
  obtain p w3 where p: "pg_execute sv (InsertAuditLog (tx_id req) (hex_encode (H (as_bytes (payload req)))) (sender req)
       (req_timestamp req) (payload req) (priority req)) w2 = (p, w3)" by fastforce
  have "\<exists>latest. l = Inr latest \<and> (\<forall>t. latest = Some t \<longrightarrow> t < req_timestamp req) \<and> p = Inr ()
      \<and> r = tx_id req \<and> ex' = ex2 \<and> w' = w3"
    using assms c \<open>c = Inr ()\<close> l p
    by (auto simp: submit_def validate_transaction_def io_try_def split: sum.splits option.splits if_splits)
  with act l p that show ?thesis by blast
qed

section \<open>Properties\<close>

text \<open>While the safety mode reads as active, a submission is refused and nothing is written: the world is
  the one after reading the flag, and the executor's cache is untouched.\<close>

theorem submit_blocked_in_safety_mode:
  assumes "is_safety_mode_active sv w = (Inr True, w1)"
  shows "submit sv H req (ex, w) =
    (Inl ''System is in Safety Mode (Sovereign Handoff Active). Execution blocked.'', (ex, w1))"
  using assms by (simp add: submit_def check_safety_mode_def io_try_def on_world_def)

definition sample_request :: ExecutionRequest where
  "sample_request =
     \<lparr>tx_id = ''tx1'', payload = ''data'', req_timestamp = 20, sender = ''alice'', priority = 0\<rparr>"

theorem submit_blocked_in_safety_mode_witness:
  "fst (submit memory_services sampleH sample_request (executor_new Active [], [mode_key \<mapsto> ''1'']))
     = Inl ''System is in Safety Mode (Sovereign Handoff Active). Execution blocked.''"
proof -
  have "is_safety_mode_active memory_services [mode_key \<mapsto> ''1''] = (Inr True, [mode_key \<mapsto> ''1''])"
    by (simp add: is_safety_mode_active_def)
  from submit_blocked_in_safety_mode [OF this] show ?thesis by simp
qed

text \<open>An accepted submission returns its transaction id, was made outside the safety mode, is strictly newer
  than the latest event time known, and adds exactly one audit row, with the hash of its payload.\<close>

theorem submit_accepted:
  assumes "pg_logs sv wlog" and "submit sv H req (ex, w) = (Inr r, (ex', w'))"
  shows "r = tx_id req \<and> fst (is_safety_mode_active sv w) = Inr False
    \<and> (\<forall>t. latest_event_time_cache ex' = Some t \<longrightarrow> t < req_timestamp req)
    \<and> wlog w' = wlog w @ [InsertAuditLog (tx_id req) (hex_encode (H (as_bytes (payload req)))) (sender req)
         (req_timestamp req) (payload req) (priority req)]"
proof -
  from assms(2) obtain w1 latest w2 where s: "r = tx_id req" "is_safety_mode_active sv w = (Inr False, w1)"
    "get_cached_or_fetch_latest_event_time sv (ex, w1) = (Inr latest, (ex', w2))"
    "\<forall>t. latest = Some t \<longrightarrow> t < req_timestamp req"
    "pg_execute sv (InsertAuditLog (tx_id req) (hex_encode (H (as_bytes (payload req)))) (sender req)
       (req_timestamp req) (payload req) (priority req)) w2 = (Inr (), w')"
    by (rule submit_ok)
  have "wlog w1 = wlog w" by (rule active_log [OF assms(1) s(2)])
  moreover have "wlog w2 = wlog w1"
    using fetch_result [OF s(3)] log_keptD [OF pg_logs_kept(4) [OF assms(1)]] by blast
  moreover have "wlog w' = wlog w2 @ [InsertAuditLog (tx_id req) (hex_encode (H (as_bytes (payload req)))) (sender req)
         (req_timestamp req) (payload req) (priority req)]"
    using pg_logs_execute [OF assms(1) s(5)] by simp
  moreover have "latest = latest_event_time_cache ex'" using fetch_result [OF s(3)] by (auto split: option.splits)
  ultimately show ?thesis using s by simp
qed

definition accepting :: "sql_write list services" where
  "accepting = recording\<lparr>redis_connect := io_ok (), redis_bool := (\<lambda>_. io_ok False),
     pg_max_arrival := io_ok (Some (Some 10))\<rparr>"

lemma accepting_logs: "pg_logs accepting (\<lambda>w. w)"
  by (simp add: pg_logs_def log_kept_def accepting_def recording_def offline_def)

lemma accepting_submit:
  "10 < req_timestamp req \<Longrightarrow> latest_event_time_cache ex \<in> {None, Some 10} \<Longrightarrow>
   submit accepting H req (ex, w) =
     (Inr (tx_id req), (ex\<lparr>latest_event_time_cache := Some 10\<rparr>,
        w @ [InsertAuditLog (tx_id req) (hex_encode (H (as_bytes (payload req)))) (sender req)
               (req_timestamp req) (payload req) (priority req)]))"
  by (auto simp: submit_def check_safety_mode_def is_safety_mode_active_def validate_transaction_def
      get_cached_or_fetch_latest_event_time_def accepting_def recording_def offline_def io_try_def io_then_def on_world_def)

theorem submit_accepted_witness:
  "snd (snd (submit accepting sampleH sample_request (executor_new Active [], []))) =
     [InsertAuditLog ''tx1'' (hex_encode (sampleH (as_bytes ''data''))) ''alice'' 20 ''data'' 0]"
proof -
  have "submit accepting sampleH sample_request (executor_new Active [], []) =
      (Inr ''tx1'', snd (submit accepting sampleH sample_request (executor_new Active [], [])))"
    by (simp add: accepting_submit sample_request_def executor_new_def)
  then obtain ex' w' where run: "submit accepting sampleH sample_request (executor_new Active [], []) = (Inr ''tx1'', (ex', w'))"
    by (metis prod.collapse)
  from submit_accepted [OF accepting_logs run] run show ?thesis by (simp add: sample_request_def)
qed

text \<open>The cache is never advanced: once it holds a time, an accepted submission leaves it as it is, so the order of
  arrival times is checked against the first fetched time only, and of two accepted requests the later one may carry
  the earlier time stamp.\<close>

theorem submit_cache_never_advances:
  assumes "latest_event_time_cache ex = Some t"
    and "submit sv H req (ex, w) = (r, (ex', w'))"
  shows "latest_event_time_cache ex' = Some t"
  using assms
  by (auto simp: submit_def check_safety_mode_def validate_transaction_def io_try_def on_world_def
      split: prod.splits sum.splits if_splits)

theorem submit_cache_never_advances_witness:
  "\<exists>ex' ex'' w' w''.
     submit accepting sampleH (sample_request\<lparr>req_timestamp := 20\<rparr>) (executor_new Active []\<lparr>latest_event_time_cache := Some 10\<rparr>, [])
       = (Inr ''tx1'', (ex', w'))
     \<and> latest_event_time_cache ex' = Some 10
     \<and> submit accepting sampleH (sample_request\<lparr>req_timestamp := 15\<rparr>) (ex', w') = (Inr ''tx1'', (ex'', w''))"
proof -
  let ?ex = "executor_new Active []\<lparr>latest_event_time_cache := Some 10\<rparr>"
  obtain ex' w' where 1: "submit accepting sampleH (sample_request\<lparr>req_timestamp := 20\<rparr>) (?ex, []) = (Inr ''tx1'', (ex', w'))"
    by (simp add: accepting_submit sample_request_def)
  have c: "latest_event_time_cache ex' = Some 10"
    by (rule submit_cache_never_advances [OF _ 1]) simp
  then have "\<exists>ex'' w''. submit accepting sampleH (sample_request\<lparr>req_timestamp := 15\<rparr>) (ex', w') = (Inr ''tx1'', (ex'', w''))"
    by (simp add: accepting_submit sample_request_def)
  with 1 c show ?thesis by blast
qed

end
