(* ===== verification/Payloads.thy ===== *)
theory Payloads
  imports Nexus_Text
begin

text \<open>
  Canonical payloads of the form \<^verbatim>\<open>domain|name=value|name=value...\<close> that the program signs (Kwil writes) or
  checks a MAC over (ERP attestations).  The two sources each have their own value encoder; what
  both must ensure is that the signed text determines the values.  The locale \<open>payload_encoder\<close> states what an
  encoder has to satisfy for that, and shows that it is enough.
\<close>

section \<open>Fields\<close>

definition field :: "string \<Rightarrow> string \<Rightarrow> string" where
  "field n v = ''|'' @ n @ ''='' @ v"

definition field_text :: "(string \<times> string) list \<Rightarrow> string" where
  "field_text xs = concat (map (\<lambda>(n, v). field n v) xs)"

definition name_ok :: "string \<Rightarrow> bool" where
  "name_ok n \<longleftrightarrow> CHR ''='' \<notin> set n \<and> CHR ''|'' \<notin> set n \<and> CHR 0x5C \<notin> set n"

text \<open>Every equals sign directly follows a backslash; the flag says whether the character before did.\<close>

fun escaped :: "bool \<Rightarrow> string \<Rightarrow> bool" where
  "escaped b [] = True"
| "escaped b (c # s) = ((c = CHR ''='' \<longrightarrow> b) \<and> escaped (c = CHR 0x5C) s)"

lemma escaped_append_eq:
  "escaped b (s @ [c, CHR ''=''] @ t) \<Longrightarrow> c = CHR 0x5C"
  by (induction s arbitrary: b) auto

lemma escaped_no_eq: "CHR ''='' \<notin> set s \<Longrightarrow> escaped b s"
  by (induction s arbitrary: b) auto

text \<open>A value ends where the next field begins.\<close>

lemma field_boundary:
  assumes "escaped False v" and "name_ok n" and "v @ field n r = v' @ field n r'" and "escaped False v'"
    and "length v \<le> length v'"
  shows "v = v' \<and> r = r'"
proof -
  from assms(3,5) obtain d where d: "v' = v @ d" "field n r = d @ field n r'"
    by (auto simp: append_eq_append_conv2)
  have "d = []"
  proof (rule ccontr)
    assume "d \<noteq> []"
    define p where "p = ''|'' @ n"
    have f: "field n x = p @ [CHR ''=''] @ x" for x by (simp add: field_def p_def)
    show False
    proof (cases "length d \<le> length p")
      case True
      then have "(p @ [CHR ''=''] @ r) ! length d = CHR ''|''" using d(2) f by (simp add: nth_append p_def)
      moreover have "(p @ [CHR ''=''] @ r) ! length d \<noteq> CHR ''|''"
      proof (cases "length d < length p")
        case True
        then have "(p @ [CHR ''=''] @ r) ! length d = n ! (length d - 1)"
          using \<open>d \<noteq> []\<close> by (cases d) (auto simp: nth_append p_def)
        moreover have "n ! (length d - 1) \<in> set n"
          using True \<open>d \<noteq> []\<close> by (intro nth_mem) (cases d, auto simp: p_def)
        ultimately show ?thesis using assms(2) by (auto simp: name_ok_def)
      next
        case False
        then have "length d = length p" using \<open>length d \<le> length p\<close> by simp
        then show ?thesis by (simp add: nth_append)
      qed
      ultimately show False by simp
    next
      case False
      then obtain us where us: "d = p @ us" "us \<noteq> []" "CHR ''='' # r = us @ field n r'"
        using d(2) f by (auto simp: append_eq_append_conv2)
      then obtain e where e: "d = p @ [CHR ''=''] @ e" by (cases us) auto
      obtain q c where "p = q @ [c]" "c \<noteq> CHR 0x5C"
        using assms(2) by (cases n rule: rev_cases) (auto simp: p_def name_ok_def)
      with assms(4) d(1) e show False using escaped_append_eq [of False "v @ q" c e] by simp
    qed
  qed
  with d show ?thesis by (simp add: field_def)
qed

lemma field_split:
  assumes "escaped False v" and "escaped False v'" and "name_ok n" and "v @ field n r = v' @ field n r'"
  shows "v = v' \<and> r = r'"
proof (cases "length v \<le> length v'")
  case True
  then show ?thesis using field_boundary assms by blast
next
  case False
  then show ?thesis using field_boundary [OF assms(2,3) assms(4) [symmetric] assms(1)] by simp
qed

lemma field_text_inj:
  assumes "map fst xs = map fst ys" and "\<forall>n \<in> set (map fst xs). name_ok n"
    and "\<forall>v \<in> set (map snd xs) \<union> set (map snd ys). escaped False v" and "field_text xs = field_text ys"
  shows "xs = ys"
  using assms
proof (induction xs arbitrary: ys)
  case (Cons x xs)
  obtain n v where x: "x = (n, v)" by (cases x)
  with Cons.prems(1) obtain v' ys' where ys: "ys = (n, v') # ys'" "map fst xs = map fst ys'"
    by (cases ys) auto
  have vv: "v @ field_text xs = v' @ field_text ys'" using Cons.prems(4) by (simp add: x ys field_text_def field_def)
  have esc: "escaped False v" "escaped False v'" using Cons.prems(3) by (simp_all add: x ys)
  have "v = v' \<and> field_text xs = field_text ys'"
  proof (cases xs)
    case Nil
    then show ?thesis using vv ys(2) by (simp add: field_text_def)
  next
    case (Cons z zs)
    obtain m u where z: "z = (m, u)" by (cases z)
    with Cons ys(2) obtain u' zs' where ys': "ys' = (m, u') # zs'" by (cases ys') auto
    have "name_ok m" using Cons.prems(2) Cons z by auto
    moreover have "v @ field m (u @ field_text zs) = v' @ field m (u' @ field_text zs')"
      using vv by (simp add: Cons z ys' field_text_def field_def)
    ultimately have "v = v' \<and> u @ field_text zs = u' @ field_text zs'" using field_split esc by blast
    then show ?thesis by (simp add: Cons z ys' field_text_def field_def)
  qed
  moreover have "xs = ys'" if "field_text xs = field_text ys'"
    using Cons.prems ys that by (intro Cons.IH) auto
  ultimately show ?case by (simp add: x ys)
qed simp

section \<open>Encoders\<close>

text \<open>A value is a text, which goes through the encoder, or an integer, which is printed.\<close>

datatype field_value = Text string | Num int

locale payload_encoder =
  fixes enc :: "string \<Rightarrow> string"
  assumes enc_inj: "enc a = enc b \<Longrightarrow> a = b"
    and enc_escaped: "escaped False (enc a)"
begin

fun render :: "field_value \<Rightarrow> string" where
  "render (Text s) = enc s"
| "render (Num i) = show_int i"

definition same_shape :: "(string \<times> field_value) list \<Rightarrow> (string \<times> field_value) list \<Rightarrow> bool" where
  "same_shape xs ys \<longleftrightarrow>
     list_all2 (\<lambda>(n, v) (m, u). n = m \<and> name_ok n \<and> (\<exists>s. v = Text s) = (\<exists>s. u = Text s)) xs ys"

lemma render_escaped: "escaped False (render v)"
proof (cases v)
  case (Num i)
  have "CHR ''='' \<notin> set (show_int i)" using show_int_chars [of "CHR ''=''" i] by (auto simp: is_digit_def)
  with Num show ?thesis by (simp add: escaped_no_eq)
qed (simp add: enc_escaped)

lemma payload_inj:
  assumes "same_shape xs ys" and "field_text (map (map_prod id render) xs) = field_text (map (map_prod id render) ys)"
  shows "xs = ys"
proof -
  have names: "map fst xs = map fst ys" "\<forall>n \<in> set (map fst xs). name_ok n"
    using assms(1) unfolding same_shape_def by (induction rule: list_all2_induct) auto
  then have "map (map_prod id render) xs = map (map_prod id render) ys"
    using assms(2) by (intro field_text_inj) (auto simp: render_escaped)
  with assms(1) show ?thesis unfolding same_shape_def
  proof (induction rule: list_all2_induct)
    case (Cons x xs y ys)
    obtain n v m u where xy: "x = (n, v)" "y = (m, u)" by (cases x, cases y)
    with Cons have "v = u" by (cases v; cases u) (auto dest: enc_inj)
    with Cons xy show ?case by auto
  qed simp
qed

end

end
