(* ===== verification/Erp.thy ===== *)
theory Erp
  imports Nexus_Services Payloads Mmr
begin

text \<open>
  The ERP attestation layer of \<^verbatim>\<open>src/api/erp.rs\<close>: extraction of transaction ids from an OData payload, the
  canonical payload and its HMAC, the metadata and time-window checks, and the replay protection through Redis.
  HMAC-SHA256 is the parameter \<open>mac\<close> (key and message to tag), SHA-256 the parameter \<open>H\<close>.  Arithmetic on time stamps
  wraps as in release builds.
\<close>

section \<open>Data\<close>

record ErpAttestation =
  key_id :: string
  nonce :: string
  issued_at :: i64
  expires_at :: i64
  signature :: string

record ErpSyncRequest =
  organization_id :: string
  erp_type :: string
  odata_payload :: json
  erp_timestamp :: i64
  attestation :: ErpAttestation

record ErpSyncResponse =
  erp_status :: string
  mandate_id :: "string option"
  reconciled_entries :: nat
  erp_errors :: "string list"

record VerifiedErpAttestation =
  attestation_id :: string
  replay_key :: string
  replay_ttl_seconds :: u64

datatype ErpAttestationError =
    InvalidAttestationFormat | InvalidSignature | ExpiredAttestation | ContextMismatch
  | ReplayDetected | ReplayStoreUnavailable

fun status_code :: "ErpAttestationError \<Rightarrow> nat" where
  "status_code ReplayStoreUnavailable = 503"
| "status_code ReplayDetected = 409"
| "status_code InvalidAttestationFormat = 400"
| "status_code InvalidSignature = 403"
| "status_code ExpiredAttestation = 403"
| "status_code ContextMismatch = 403"

section \<open>Canonical payload\<close>

definition erp_escape :: "char \<Rightarrow> string" where
  "erp_escape c =
     (if c = CHR ''%'' then ''%25'' else if c = CHR ''|'' then ''%7C''
      else if c = CHR ''='' then ''%3D'' else if c = CHR '','' then ''%2C'' else [c])"

definition erp_encode_payload_value :: "string \<Rightarrow> string" where
  "erp_encode_payload_value v = replace_char erp_escape v"

definition encoded_tx_ids :: "string list \<Rightarrow> string" where
  "encoded_tx_ids tx_ids =
     (if tx_ids = [] then ''-'' else join '','' (map erp_encode_payload_value tx_ids))"

definition canonical_erp_attestation_payload :: "ErpSyncRequest \<Rightarrow> string \<Rightarrow> string list \<Rightarrow> string" where
  "canonical_erp_attestation_payload req action tx_ids =
     ''nexus:erp:attestation:v1'' @ field_text
       [(''organization_id'', erp_encode_payload_value (organization_id req)),
        (''erp_type'', erp_encode_payload_value (erp_type req)),
        (''request_timestamp'', show_int (erp_timestamp req)),
        (''action'', erp_encode_payload_value action),
        (''tx_ids'', encoded_tx_ids tx_ids),
        (''key_id'', erp_encode_payload_value (trim (key_id (attestation req)))),
        (''nonce'', erp_encode_payload_value (trim (nonce (attestation req)))),
        (''issued_at'', show_int (issued_at (attestation req))),
        (''expires_at'', show_int (expires_at (attestation req)))]"

definition verify_hmac_sha256_signature ::
  "(bytes \<Rightarrow> bytes \<Rightarrow> bytes) \<Rightarrow> string \<Rightarrow> string \<Rightarrow> string \<Rightarrow> bool" where
  "verify_hmac_sha256_signature mac secret payload provided =
     (case hex_decode provided of
        None \<Rightarrow> False
      | Some bs \<Rightarrow> bs = mac (as_bytes secret) (as_bytes payload))"

section \<open>Checks\<close>

definition validate_attestation_metadata :: "ErpAttestation \<Rightarrow> (ErpAttestationError, unit) result" where
  "validate_attestation_metadata a =
     (let kid = trim (key_id a); n = trim (nonce a); sg = trim (signature a) in
      if kid = [] \<or> 128 < length kid then Inl InvalidAttestationFormat
      else if n = [] \<or> 256 < length n then Inl InvalidAttestationFormat
      else if length sg \<noteq> 64 \<or> \<not> list_all is_ascii_hexdigit sg then Inl InvalidAttestationFormat
      else if expires_at a \<le> issued_at a then Inl InvalidAttestationFormat
      else if 600 < wrap_i64 (expires_at a - issued_at a) then Inl InvalidAttestationFormat
      else Inr ())"

definition validate_attestation_time_window ::
  "ErpAttestation \<Rightarrow> i64 \<Rightarrow> i64 \<Rightarrow> (ErpAttestationError, u64) result" where
  "validate_attestation_time_window a request_ts now_ts =
     (if expires_at a < now_ts then Inl ExpiredAttestation
      else if wrap_i64 (now_ts + 60) < issued_at a then Inl InvalidAttestationFormat
      else let min_bound = wrap_i64 (issued_at a - 60); max_bound = wrap_i64 (expires_at a + 60) in
        if request_ts < min_bound \<or> max_bound < request_ts then Inl ContextMismatch
        else Inr (as_u64 (max (wrap_i64 (expires_at a - now_ts)) 1)))"

definition build_replay_cache_key :: "hasher \<Rightarrow> string \<Rightarrow> string \<Rightarrow> string \<Rightarrow> string" where
  "build_replay_cache_key H org kid n =
     ''nexus:erp:attestation:nonce:v1:''
       @ hex_encode (H (as_bytes (trim org) @ as_bytes ''|'' @ as_bytes (trim kid) @ as_bytes ''|''
            @ as_bytes (trim n)))"

definition build_attestation_id :: "hasher \<Rightarrow> string \<Rightarrow> string \<Rightarrow> string" where
  "build_attestation_id H canonical sg =
     ''erp_att_'' @ take 24 (hex_encode (H (as_bytes canonical @ as_bytes ''|'' @ as_bytes (trim sg))))"

definition verify_erp_attestation ::
  "hasher \<Rightarrow> (bytes \<Rightarrow> bytes \<Rightarrow> bytes) \<Rightarrow> ErpSyncRequest \<Rightarrow> string \<Rightarrow> string list \<Rightarrow> (string \<Rightarrow> string option) \<Rightarrow> i64
     \<Rightarrow> (ErpAttestationError, VerifiedErpAttestation) result" where
  "verify_erp_attestation H mac req action tx_ids trusted_keys now =
     (let a = attestation req in
      res_bind (validate_attestation_metadata a) (\<lambda>_.
      res_bind (ok_or (trusted_keys (key_id a)) InvalidSignature) (\<lambda>secret.
      let canonical = canonical_erp_attestation_payload req action tx_ids in
      if \<not> verify_hmac_sha256_signature mac secret canonical (trim (signature a)) then Inl InvalidSignature
      else
        res_bind (validate_attestation_time_window a (erp_timestamp req) now) (\<lambda>ttl.
        Inr \<lparr>attestation_id = build_attestation_id H canonical (signature a),
             replay_key = build_replay_cache_key H (organization_id req) (key_id a) (nonce a),
             replay_ttl_seconds = ttl\<rparr>))))"

section \<open>The handler\<close>

text \<open>The extraction loop stops once a thousand ids are collected.\<close>

fun collect_tx_ids :: "json list \<Rightarrow> string list \<Rightarrow> string list" where
  "collect_tx_ids [] acc = acc"
| "collect_tx_ids (entry # entries) acc =
     (let acc' = (case Option.bind (json_get ''TransactionID'' entry) as_str of
                    Some t \<Rightarrow> acc @ [t]
                  | None \<Rightarrow>
                      (case Option.bind (json_get ''TransactionId'' entry) as_str of
                         Some t \<Rightarrow> acc @ [t]
                       | None \<Rightarrow> acc))
      in if 1000 \<le> length acc' then acc' else collect_tx_ids entries acc')"

definition map_erp_action :: "json \<Rightarrow> string" where
  "map_erp_action odata = (if json_get ''@odata.context'' odata \<noteq> None then ''sync_odata_v4'' else ''sync_legacy'')"

definition ensure_attestation_not_replayed :: "bool \<Rightarrow> (ErpAttestationError, unit) result" where
  "ensure_attestation_not_replayed claimed = (if claimed then Inr () else Inl ReplayDetected)"

definition claim_attestation_nonce ::
  "'w services \<Rightarrow> string \<Rightarrow> u64 \<Rightarrow> ('w, ErpAttestationError, unit) io" where
  "claim_attestation_nonce sv key ttl =
     io_then (redis_connect sv) (\<lambda>c.
     case c of
       Inl _ \<Rightarrow> io_err ReplayStoreUnavailable
     | Inr _ \<Rightarrow>
         io_then (redis_opt_string sv [''SET'', key, ''1'', ''NX'', ''EX'', show_nat ttl]) (\<lambda>r w.
         (case r of
            Inr (Some _) \<Rightarrow> ensure_attestation_not_replayed True
          | Inr None \<Rightarrow> ensure_attestation_not_replayed False
          | Inl _ \<Rightarrow> Inl ReplayStoreUnavailable, w)))"

definition io_map_err :: "('e \<Rightarrow> 'f) \<Rightarrow> ('w, 'e, 'a) io \<Rightarrow> ('w, 'f, 'a) io" where
  "io_map_err f m w = (case m w of (Inl e, w') \<Rightarrow> (Inl (f e), w') | (Inr x, w') \<Rightarrow> (Inr x, w'))"

definition erp_sync_handler ::
  "'w services \<Rightarrow> hasher \<Rightarrow> (bytes \<Rightarrow> bytes \<Rightarrow> bytes) \<Rightarrow> (string \<times> string) list \<Rightarrow> ErpSyncRequest
     \<Rightarrow> ('w, nat, ErpSyncResponse) io" where
  "erp_sync_handler sv H mac trusted_keys req =
     (case Option.bind (json_get ''value'' (odata_payload req)) as_array of
        None \<Rightarrow> io_err 400
      | Some entries \<Rightarrow>
          let tx_ids = collect_tx_ids entries []; action = map_erp_action (odata_payload req) in
          if trusted_keys = [] then io_err 503
          else
            io_then (utc_now sv) (\<lambda>now.
            case verify_erp_attestation H mac req action tx_ids (map_of trusted_keys) (timestamp_secs now) of
              Inl e \<Rightarrow> io_err (status_code e)
            | Inr v \<Rightarrow>
                io_try (io_map_err status_code (claim_attestation_nonce sv (replay_key v) (replay_ttl_seconds v))) (\<lambda>_.
                io_ok \<lparr>erp_status = ''success'', mandate_id = Some (attestation_id v),
                       reconciled_entries = length tx_ids, erp_errors = []\<rparr>)))"

section \<open>The encoder\<close>

lemma erp_encode_Nil [simp]: "erp_encode_payload_value [] = []"
  and erp_encode_Cons [simp]: "erp_encode_payload_value (c # s) = erp_escape c @ erp_encode_payload_value s"
  by (simp_all add: erp_encode_payload_value_def replace_char_def)

lemma erp_encode_plain: "set (erp_encode_payload_value s) \<inter> {CHR ''='', CHR ''|'', CHR '',''} = {}"
  by (induction s) (auto simp: erp_escape_def)

lemma erp_encode_inj: "erp_encode_payload_value a = erp_encode_payload_value b \<Longrightarrow> a = b"
proof (induction a arbitrary: b)
  case Nil
  then show ?case by (cases b) (auto simp: erp_escape_def split: if_splits)
next
  case (Cons c a)
  show ?case
  proof (cases b)
    case Nil
    then show ?thesis using Cons.prems by (auto simp: erp_escape_def split: if_splits)
  next
    case (Cons d b')
    then show ?thesis using Cons.prems Cons.IH [of b'] by (auto simp: erp_escape_def split: if_splits)
  qed
qed

interpretation erp_codec: payload_encoder erp_encode_payload_value
proof
  show "escaped False (erp_encode_payload_value a)" for a
    using erp_encode_plain [of a] by (intro escaped_no_eq) auto
qed (rule erp_encode_inj)

lemma join_comma_inj:
  assumes "length xs = length ys \<or> (xs \<noteq> [] \<and> ys \<noteq> [])" and "\<forall>x \<in> set xs \<union> set ys. CHR '','' \<notin> set x"
    and "join '','' xs = join '','' ys"
  shows "xs = ys"
  using assms
proof (induction "'',''" xs arbitrary: ys rule: join.induct)
  case 1
  then show ?case by auto
next
  case (2 x)
  then obtain y ys' where ys: "ys = y # ys'" by (cases ys) auto
  show ?case
  proof (cases ys')
    case (Cons z zs)
    with 2 ys have "x = y @ '','' @ join '','' (z # zs)" by simp
    then have "CHR '','' \<in> set x" by simp
    then show ?thesis using 2 by auto
  qed (use 2 ys in simp)
next
  case (3 x y xs)
  then obtain u us where ys: "ys = u # us" by (cases ys) auto
  show ?case
  proof (cases us)
    case Nil
    with 3 ys have "u = x @ '','' @ join '','' (y # xs)" by simp
    then have "CHR '','' \<in> set u" by simp
    then show ?thesis using 3 ys by auto
  next
    case (Cons v vs)
    with 3 ys have eq: "x @ '','' @ join '','' (y # xs) = u @ '','' @ join '','' (v # vs)" by simp
    have "CHR '','' \<notin> set x" "CHR '','' \<notin> set u" using 3 ys by auto
    with eq have "x = u \<and> join '','' (y # xs) = join '','' (v # vs)"
      by (auto simp: append_eq_append_conv2 append_eq_Cons_conv Cons_eq_append_conv)
    moreover have "y # xs = v # vs" if "join '','' (y # xs) = join '','' (v # vs)"
      using 3 ys Cons that by (intro 3(1)) auto
    ultimately show ?thesis using ys Cons by simp
  qed
qed

lemma encoded_tx_ids_inj:
  assumes "encoded_tx_ids xs = encoded_tx_ids ys"
  shows "xs = ys \<or> {xs, ys} \<subseteq> {[], [''-'']}"
proof -
  have plain: "\<forall>x \<in> set (map erp_encode_payload_value zs). CHR '','' \<notin> set x" for zs
    using erp_encode_plain by auto
  have dash: "zs = [''-'']" if "zs \<noteq> []" "join '','' (map erp_encode_payload_value zs) = ''-''" for zs
  proof -
    have "map erp_encode_payload_value zs = [''-'']"
      using that plain [of zs] by (intro join_comma_inj) auto
    then obtain z where "zs = [z]" "erp_encode_payload_value z = erp_encode_payload_value ''-''"
      by (auto simp: erp_escape_def)
    then show ?thesis using erp_encode_inj by blast
  qed
  show ?thesis
  proof (cases "xs = [] \<or> ys = []")
    case True
    then show ?thesis using assms dash by (auto simp: encoded_tx_ids_def split: if_splits)
  next
    case False
    then have "map erp_encode_payload_value xs = map erp_encode_payload_value ys"
      using assms plain by (intro join_comma_inj) (auto simp: encoded_tx_ids_def)
    then have "xs = ys" by (rule map_injective) (simp add: inj_def erp_encode_inj)
    then show ?thesis by simp
  qed
qed

section \<open>Properties\<close>

text \<open>C35: the text under the MAC determines the request context: equal canonical payloads have the same
  organisation, ERP type, request time, action, trimmed key id and nonce, issue and expiry times and transaction ids,
  except that an empty id list reads as the list of one dash.\<close>

theorem erp_payload_determines:
  assumes "canonical_erp_attestation_payload req action ids = canonical_erp_attestation_payload req' action' ids'"
  shows "organization_id req = organization_id req' \<and> erp_type req = erp_type req'
    \<and> erp_timestamp req = erp_timestamp req' \<and> action = action'
    \<and> (ids = ids' \<or> {ids, ids'} \<subseteq> {[], [''-'']})
    \<and> trim (key_id (attestation req)) = trim (key_id (attestation req'))
    \<and> trim (nonce (attestation req)) = trim (nonce (attestation req'))
    \<and> issued_at (attestation req) = issued_at (attestation req')
    \<and> expires_at (attestation req) = expires_at (attestation req')"
proof -
  have noeq: "CHR ''='' \<notin> set (encoded_tx_ids zs)" for zs
    using join_chars [of "CHR ''=''" "'',''" "map erp_encode_payload_value zs"] erp_encode_plain
    by (auto simp: encoded_tx_ids_def)
  have int: "escaped False (show_int i)" for i
    using erp_codec.render_escaped [of "Num i"] by simp
  have "[(''organization_id'', erp_encode_payload_value (organization_id req)),
        (''erp_type'', erp_encode_payload_value (erp_type req)), (''request_timestamp'', show_int (erp_timestamp req)),
        (''action'', erp_encode_payload_value action), (''tx_ids'', encoded_tx_ids ids),
        (''key_id'', erp_encode_payload_value (trim (key_id (attestation req)))),
        (''nonce'', erp_encode_payload_value (trim (nonce (attestation req)))),
        (''issued_at'', show_int (issued_at (attestation req))), (''expires_at'', show_int (expires_at (attestation req)))]
    = [(''organization_id'', erp_encode_payload_value (organization_id req')),
        (''erp_type'', erp_encode_payload_value (erp_type req')), (''request_timestamp'', show_int (erp_timestamp req')),
        (''action'', erp_encode_payload_value action'), (''tx_ids'', encoded_tx_ids ids'),
        (''key_id'', erp_encode_payload_value (trim (key_id (attestation req')))),
        (''nonce'', erp_encode_payload_value (trim (nonce (attestation req')))),
        (''issued_at'', show_int (issued_at (attestation req'))), (''expires_at'', show_int (expires_at (attestation req')))]"
    using assms unfolding canonical_erp_attestation_payload_def
    by (intro field_text_inj) (simp_all add: name_ok_def erp_codec.enc_escaped int escaped_no_eq [OF noeq])
  then show ?thesis using erp_encode_inj encoded_tx_ids_inj [of ids ids'] by auto
qed

definition sample_attestation :: ErpAttestation where
  "sample_attestation =
     \<lparr>key_id = ''k1'', nonce = ''n1'', issued_at = 1000, expires_at = 1300, 
      signature = ''0000000000000000000000000000000000000000000000000000000000000000''\<rparr>"

definition sample_erp_request :: ErpSyncRequest where
  "sample_erp_request =
     \<lparr>organization_id = ''org'', erp_type = ''SAP'', odata_payload = JObj [(''value'', JArr [])],
      erp_timestamp = 1010, attestation = sample_attestation\<rparr>"

theorem erp_payload_determines_witness:
  "canonical_erp_attestation_payload sample_erp_request ''sync_legacy'' []
     = canonical_erp_attestation_payload sample_erp_request ''sync_legacy'' [''-'']
   \<and> canonical_erp_attestation_payload sample_erp_request ''sync_legacy'' [''a,b'']
     \<noteq> canonical_erp_attestation_payload sample_erp_request ''sync_legacy'' [''a'', ''b'']"
proof -
  have "canonical_erp_attestation_payload sample_erp_request ''sync_legacy'' []
     = canonical_erp_attestation_payload sample_erp_request ''sync_legacy'' [''-'']"
    by (simp add: canonical_erp_attestation_payload_def encoded_tx_ids_def erp_escape_def)
  moreover from erp_payload_determines [OF this] have "{[], [''-'']} \<subseteq> {[], [''-'' :: string]}" by simp
  ultimately show ?thesis using erp_payload_determines by fastforce
qed

text \<open>C18: a synchronisation that succeeds was authenticated: the MAC over the canonical payload of exactly this
  request matches under the trusted key it names, and, for time stamps away from the ends of the 64-bit range, the attestation lives at
  most 600 seconds, has not expired, was not issued more than 60 seconds in the future, and the request time lies
  in its window.\<close>

theorem erp_sync_authenticated:
  assumes "erp_sync_handler sv H mac keys req w = (Inr resp, w')"
    and "\<bar>issued_at (attestation req)\<bar> < 2 ^ 62" and "\<bar>expires_at (attestation req)\<bar> < 2 ^ 62"
    and "\<bar>timestamp_secs (fst (utc_now sv w))\<bar> < 2 ^ 62"
  shows "\<exists>entries secret bs.
    json_get ''value'' (odata_payload req) = Some (JArr entries)
    \<and> map_of keys (key_id (attestation req)) = Some secret
    \<and> hex_decode (trim (signature (attestation req))) = Some bs
    \<and> bs = mac (as_bytes secret) (as_bytes (canonical_erp_attestation_payload req
         (map_erp_action (odata_payload req)) (collect_tx_ids entries [])))
    \<and> reconciled_entries resp = length (collect_tx_ids entries [])
    \<and> issued_at (attestation req) < expires_at (attestation req)
    \<and> expires_at (attestation req) \<le> issued_at (attestation req) + 600
    \<and> timestamp_secs (fst (utc_now sv w)) \<le> expires_at (attestation req)
    \<and> issued_at (attestation req) \<le> timestamp_secs (fst (utc_now sv w)) + 60
    \<and> issued_at (attestation req) - 60 \<le> erp_timestamp req \<and> erp_timestamp req \<le> expires_at (attestation req) + 60"
proof -
  let ?a = "attestation req"
  obtain now w1 where now: "utc_now sv w = (now, w1)" by fastforce
  obtain entries where e: "Option.bind (json_get ''value'' (odata_payload req)) as_array = Some entries"
    using assms(1) by (cases "Option.bind (json_get ''value'' (odata_payload req)) as_array")
      (auto simp: erp_sync_handler_def)
  then have ej: "json_get ''value'' (odata_payload req) = Some (JArr entries)"
    by (auto simp: Option.bind_eq_Some_conv elim!: as_array.elims)
  obtain v where v: "verify_erp_attestation H mac req (map_erp_action (odata_payload req)) (collect_tx_ids entries [])
      (map_of keys) (timestamp_secs now) = Inr v" and n: "reconciled_entries resp = length (collect_tx_ids entries [])"
    using assms(1) e now
    by (auto simp: erp_sync_handler_def Let_def io_try_def split: if_splits sum.splits prod.splits)
  from v obtain secret ttl where s: "validate_attestation_metadata ?a = Inr ()" "map_of keys (key_id ?a) = Some secret"
    "verify_hmac_sha256_signature mac secret (canonical_erp_attestation_payload req
       (map_erp_action (odata_payload req)) (collect_tx_ids entries [])) (trim (signature ?a))"
    "validate_attestation_time_window ?a (erp_timestamp req) (timestamp_secs now) = Inr ttl"
    by (auto simp: verify_erp_attestation_def Let_def res_bind_Inr_iff ok_or_Inr_iff split: if_splits)
  have wraps: "wrap_i64 (expires_at ?a - issued_at ?a) = expires_at ?a - issued_at ?a"
      "wrap_i64 (timestamp_secs now + 60) = timestamp_secs now + 60"
      "wrap_i64 (issued_at ?a - 60) = issued_at ?a - 60" "wrap_i64 (expires_at ?a + 60) = expires_at ?a + 60"
    using assms(2-4) now by (auto intro!: wrap_i64_id simp: is_i64_def)
  have "issued_at ?a < expires_at ?a \<and> expires_at ?a \<le> issued_at ?a + 600"
    using s(1) by (auto simp: validate_attestation_metadata_def Let_def wraps split: if_splits)
  moreover have "timestamp_secs now \<le> expires_at ?a \<and> issued_at ?a \<le> timestamp_secs now + 60
      \<and> issued_at ?a - 60 \<le> erp_timestamp req \<and> erp_timestamp req \<le> expires_at ?a + 60"
    using s(4) by (auto simp: validate_attestation_time_window_def Let_def wraps split: if_splits)
  moreover obtain bs where "hex_decode (trim (signature ?a)) = Some bs"
      "bs = mac (as_bytes secret) (as_bytes (canonical_erp_attestation_payload req
         (map_erp_action (odata_payload req)) (collect_tx_ids entries [])))"
    using s(3) by (auto simp: verify_hmac_sha256_signature_def split: option.splits)
  ultimately show ?thesis using ej s(2) n now by auto
qed

text \<open>A store that never claims twice, a clock that stands at second 1020, and a MAC of 32 zero bytes.\<close>

definition nonce_store :: "(string \<Rightarrow> string option) services" where
  "nonce_store = offline\<lparr>redis_connect := io_ok (), utc_now := (\<lambda>w. (1020 * 1000000000, w)),
     redis_opt_string := (\<lambda>c w. (Inr (if w (c ! 1) = None then Some ''OK'' else None), redis_effect c w))\<rparr>"

definition zero_mac :: "bytes \<Rightarrow> bytes \<Rightarrow> bytes" where
  "zero_mac k m = replicate 32 0"

lemma nonce_store_fields [simp]:
  "redis_connect nonce_store = io_ok ()" "utc_now nonce_store = (\<lambda>w. (1020 * 1000000000, w))"
  "redis_opt_string nonce_store = (\<lambda>c w. (Inr (if w (c ! 1) = None then Some ''OK'' else None), redis_effect c w))"
  by (simp_all add: nonce_store_def offline_def)

lemma sample_erp_accepted:
  "\<exists>v. verify_erp_attestation sampleH zero_mac sample_erp_request ''sync_legacy'' [] (map_of [(''k1'', ''secret'')]) 1020 = Inr v
     \<and> replay_key v = build_replay_cache_key sampleH ''org'' ''k1'' ''n1''"
proof -
  have t: "trim ''k1'' = ''k1''" "trim ''n1'' = ''n1''" "trim (signature sample_attestation) = signature sample_attestation"
    by (simp_all add: trim_id ws_front_def ws_back_def byte_at_def sample_attestation_def)
  have "validate_attestation_metadata sample_attestation = Inr ()"
    using t by (simp add: validate_attestation_metadata_def Let_def sample_attestation_def
        is_ascii_hexdigit_def hex_val_def wrap_i64_def)
  moreover have "verify_hmac_sha256_signature zero_mac s p (signature sample_attestation)" for s p
    by (simp add: verify_hmac_sha256_signature_def sample_attestation_def hex_val_def zero_mac_def eval_nat_numeral)
  moreover have "validate_attestation_time_window sample_attestation 1010 1020 = Inr 280"
    by (simp add: validate_attestation_time_window_def sample_attestation_def wrap_i64_def as_u64_def wrap_u64_def Let_def)
  ultimately show ?thesis
    using t by (simp add: verify_erp_attestation_def sample_erp_request_def Let_def)
      (simp add: sample_attestation_def)
qed

lemma sample_erp_run:
  "w (build_replay_cache_key sampleH ''org'' ''k1'' ''n1'') = None \<Longrightarrow>
   \<exists>resp w'. erp_sync_handler nonce_store sampleH zero_mac [(''k1'', ''secret'')] sample_erp_request w = (Inr resp, w')"
  using sample_erp_accepted
  by (auto simp: erp_sync_handler_def sample_erp_request_def Let_def map_erp_action_def timestamp_secs_def
      claim_attestation_nonce_def io_map_err_def ensure_attestation_not_replayed_def io_try_def)

theorem erp_sync_authenticated_witness:
  "\<exists>resp w' bs. erp_sync_handler nonce_store sampleH zero_mac [(''k1'', ''secret'')] sample_erp_request Map.empty = (Inr resp, w')
     \<and> hex_decode (trim (signature sample_attestation)) = Some bs \<and> bs = zero_mac (as_bytes ''secret'')
         (as_bytes (canonical_erp_attestation_payload sample_erp_request ''sync_legacy'' []))"
proof -
  obtain resp w' where run: "erp_sync_handler nonce_store sampleH zero_mac [(''k1'', ''secret'')] sample_erp_request Map.empty
      = (Inr resp, w')" using sample_erp_run [of Map.empty] by auto
  from erp_sync_authenticated [OF run] show ?thesis
    using run by (auto simp: sample_erp_request_def sample_attestation_def timestamp_secs_def map_erp_action_def)
qed

text \<open>Redis claims a key once: a conditional set succeeds only on an absent key and then the key is present; whatever it
  answers, it removes no key.\<close>

definition redis_claims :: "'w services \<Rightarrow> ('w \<Rightarrow> string \<Rightarrow> string option) \<Rightarrow> bool" where
  "redis_claims sv val \<longleftrightarrow>
     (\<forall>w. val (snd (redis_connect sv w)) = val w) \<and> (\<forall>w. val (snd (utc_now sv w)) = val w)
     \<and> (\<forall>k v ttl w r w'. redis_opt_string sv [''SET'', k, v, ''NX'', ''EX'', ttl] w = (Inr (Some r), w') \<longrightarrow>
          val w k = None \<and> val w' = (val w)(k := Some v))
     \<and> (\<forall>k v ttl w k'. val w k' \<noteq> None \<longrightarrow> val (snd (redis_opt_string sv [''SET'', k, v, ''NX'', ''EX'', ttl] w)) k' \<noteq> None)"

lemma claim_sets_key:
  assumes "redis_claims sv val" and "claim_attestation_nonce sv key ttl w = (Inr (), w')"
  shows "val w key = None \<and> val w' key = Some ''1''"
proof -
  obtain c w1 where c: "redis_connect sv w = (c, w1)" by fastforce
  obtain r w2 where r: "redis_opt_string sv [''SET'', key, ''1'', ''NX'', ''EX'', show_nat ttl] w1 = (r, w2)" by fastforce
  have "\<exists>s. r = Inr (Some s) \<and> w2 = w'"
    using assms(2) c r by (cases c; cases r)
      (auto simp: claim_attestation_nonce_def ensure_attestation_not_replayed_def split: option.splits)
  with r assms(1) c show ?thesis unfolding redis_claims_def by (metis fun_upd_same snd_conv)
qed

lemma erp_sync_claims:
  assumes "erp_sync_handler sv H mac keys req w = (Inr resp, w')"
  obtains now w1 ttl where "utc_now sv w = (now, w1)"
    "claim_attestation_nonce sv (build_replay_cache_key H (organization_id req) (key_id (attestation req))
       (nonce (attestation req))) ttl w1 = (Inr (), w')"
proof -
  obtain now w1 where now: "utc_now sv w = (now, w1)" by fastforce
  obtain entries where e: "Option.bind (json_get ''value'' (odata_payload req)) as_array = Some entries"
    using assms by (cases "Option.bind (json_get ''value'' (odata_payload req)) as_array") (auto simp: erp_sync_handler_def)
  obtain v where v: "verify_erp_attestation H mac req (map_erp_action (odata_payload req)) (collect_tx_ids entries [])
      (map_of keys) (timestamp_secs now) = Inr v"
    "claim_attestation_nonce sv (replay_key v) (replay_ttl_seconds v) w1 = (Inr (), w')"
    using assms e now
    by (auto simp: erp_sync_handler_def Let_def io_try_def io_map_err_def split: if_splits sum.splits prod.splits)
  then have "replay_key v = build_replay_cache_key H (organization_id req) (key_id (attestation req)) (nonce (attestation req))"
    by (auto simp: verify_erp_attestation_def Let_def res_bind_Inr_iff split: if_splits)
  with now v that show ?thesis by metis
qed

lemma claim_keeps_keys:
  assumes "redis_claims sv val" and "val w k \<noteq> None"
  shows "val (snd (claim_attestation_nonce sv key ttl w)) k \<noteq> None"
proof -
  obtain c w1 where c: "redis_connect sv w = (c, w1)" by fastforce
  then have "val w1 k \<noteq> None" using assms unfolding redis_claims_def by (metis snd_conv)
  moreover obtain r w2 where r: "redis_opt_string sv [''SET'', key, ''1'', ''NX'', ''EX'', show_nat ttl] w1 = (r, w2)" by fastforce
  ultimately have "val w2 k \<noteq> None" using assms(1) unfolding redis_claims_def by (metis snd_conv)
  with \<open>val w1 k \<noteq> None\<close> c r show ?thesis
    by (cases c; cases r) (auto simp: claim_attestation_nonce_def ensure_attestation_not_replayed_def split: option.splits)
qed

text \<open>No request, accepted or not, releases a claim.\<close>

lemma erp_sync_keeps_keys:
  assumes "redis_claims sv val" and "val w k \<noteq> None"
  shows "val (snd (erp_sync_handler sv H mac keys req w)) k \<noteq> None"
proof -
  obtain now w1 where now: "utc_now sv w = (now, w1)" by fastforce
  then have w1: "val w1 k \<noteq> None" using assms unfolding redis_claims_def by (metis snd_conv)
  have c: "val (snd (io_map_err f (claim_attestation_nonce sv key ttl) w1)) k \<noteq> None" for f key ttl
    using claim_keeps_keys [of sv val w1 k key ttl, OF assms(1) w1]
    by (cases "claim_attestation_nonce sv key ttl w1") (simp add: io_map_err_def split: sum.split)
  have last: "snd (io_try m (\<lambda>_. io_ok x) w1) = snd (m w1)" for m :: "('a, nat, unit) io" and x :: ErpSyncResponse
    by (cases "m w1"; cases "fst (m w1)") simp_all
  show ?thesis
  proof (cases "Option.bind (json_get ''value'' (odata_payload req)) as_array")
    case (Some entries)
    then show ?thesis
      using assms(2) w1 now
      by (cases "verify_erp_attestation H mac req (map_erp_action (odata_payload req)) (collect_tx_ids entries [])
          (map_of keys) (timestamp_secs now)") (simp_all add: erp_sync_handler_def Let_def last c del: not_None_eq)
  qed (use assms(2) in \<open>simp add: erp_sync_handler_def\<close>)
qed

text \<open>What may happen after a synchronisation: further requests, of any organisation, and changes of Redis by others.\<close>

definition erp_step ::
  "'w services \<Rightarrow> hasher \<Rightarrow> (bytes \<Rightarrow> bytes \<Rightarrow> bytes) \<Rightarrow> (string \<times> string) list \<Rightarrow> ('w \<Rightarrow> 'w \<Rightarrow> bool) \<Rightarrow> 'w \<Rightarrow> 'w \<Rightarrow> bool" where
  "erp_step sv H mac keys env w w' \<longleftrightarrow> (\<exists>req. w' = snd (erp_sync_handler sv H mac keys req w)) \<or> env w w'"

text \<open>C10: a nonce is accepted at most once.  After a successful synchronisation, whatever requests follow and whatever else happens to
  Redis, as long as the claimed key itself is not removed (it expires after its time to live), no request of the same
  organisation with the same key id and nonce (up to surrounding white space) succeeds, whatever else it contains.\<close>

theorem erp_replay_rejected:
  assumes "redis_claims sv val"
    and "erp_sync_handler sv H mac keys req w = (Inr resp, w1)"
    and "k = build_replay_cache_key H (organization_id req) (key_id (attestation req)) (nonce (attestation req))"
    and "\<forall>v v'. env v v' \<and> val v k \<noteq> None \<longrightarrow> val v' k \<noteq> None" and "(erp_step sv H mac keys env)\<^sup>*\<^sup>* w1 w2"
    and "trim (organization_id req') = trim (organization_id req)"
    and "trim (key_id (attestation req')) = trim (key_id (attestation req))"
    and "trim (nonce (attestation req')) = trim (nonce (attestation req))"
  shows "fst (erp_sync_handler sv H mac keys req' w2) \<noteq> Inr resp'"
proof
  assume second: "fst (erp_sync_handler sv H mac keys req' w2) = Inr resp'"
  have key: "build_replay_cache_key H (organization_id req') (key_id (attestation req')) (nonce (attestation req')) = k"
    using assms(3,6-8) by (simp add: build_replay_cache_key_def)
  from assms(2) obtain now wa ttl where "claim_attestation_nonce sv k ttl wa = (Inr (), w1)"
    unfolding assms(3) by (rule erp_sync_claims)
  then have "val w1 k \<noteq> None" using claim_sets_key [OF assms(1)] by simp
  with assms(5) have set: "val w2 k \<noteq> None"
  proof (induction rule: rtranclp_induct)
    case (step v v')
    then show ?case using erp_sync_keeps_keys [OF assms(1)] assms(4) unfolding erp_step_def by blast
  qed simp
  from second obtain w3 where "erp_sync_handler sv H mac keys req' w2 = (Inr resp', w3)" by (metis prod.collapse)
  then obtain now' wb ttl' where b: "utc_now sv w2 = (now', wb)" "claim_attestation_nonce sv k ttl' wb = (Inr (), w3)"
    using key by (metis erp_sync_claims)
  from claim_sets_key [OF assms(1) b(2)] b(1) set assms(1) show False
    unfolding redis_claims_def by (metis snd_conv)
qed

lemma nonce_store_claims: "redis_claims nonce_store (\<lambda>w. w)"
  by (auto simp: redis_claims_def)

text \<open>A replay directly after the first request, and one after another component has set a key of its own.\<close>

theorem erp_replay_rejected_witness:
  "\<exists>resp w1. erp_sync_handler nonce_store sampleH zero_mac [(''k1'', ''secret'')] sample_erp_request Map.empty = (Inr resp, w1)
     \<and> (\<forall>resp'. fst (erp_sync_handler nonce_store sampleH zero_mac [(''k1'', ''secret'')] sample_erp_request w1) \<noteq> Inr resp'
       \<and> fst (erp_sync_handler nonce_store sampleH zero_mac [(''k1'', ''secret'')] sample_erp_request (w1(''other'' \<mapsto> ''1''))) \<noteq> Inr resp')"
proof -
  obtain resp w1 where run: "erp_sync_handler nonce_store sampleH zero_mac [(''k1'', ''secret'')] sample_erp_request Map.empty
      = (Inr resp, w1)" using sample_erp_run [of Map.empty] by auto
  define env where "env = (\<lambda>(v :: string \<Rightarrow> string option) v'. v' = v(''other'' \<mapsto> ''1''))"
  let ?step = "erp_step nonce_store sampleH zero_mac [(''k1'', ''secret'')] env"
  have e: "\<forall>v v'. env v v' \<and> v k \<noteq> None \<longrightarrow> v' k \<noteq> None" for k by (simp add: env_def)
  note no = erp_replay_rejected [OF nonce_store_claims run refl e _ refl refl refl]
  have "?step\<^sup>*\<^sup>* w1 (w1(''other'' \<mapsto> ''1''))" by (rule r_into_rtranclp) (simp add: erp_step_def env_def)
  then show ?thesis using run no [OF rtranclp.rtrancl_refl] no by blast
qed

end
