(* ===== verification/Kwil.thy ===== *)
theory Kwil
  imports Nexus_Services Payloads
begin

text \<open>
  The Kwil adapter of \<^verbatim>\<open>src/storage/kwil.rs\<close>: every write is posted with a canonical payload and its
  signature.  The wallet's signing function, the RFC 3339 rendering of the clock and the debug rendering of an optional
  double are parameters, collected in \<open>kwil_env\<close>.  Error texts leave out the reason phrase of the HTTP status.
\<close>

section \<open>Data\<close>

record KwilBlockCommitment =
  kb_hash :: string
  kb_height :: u64
  kb_block_type :: string
  kb_state :: string

record KwilStateRootCommitment =
  kr_block_height :: u64
  kr_state_root :: string

record KwilMmrNodeCommitment =
  kn_pos :: u64
  kn_hash :: string
  kn_block_height :: u64

record KwilSettlementProposalCommitment =
  kp_proposal_id :: string
  kp_external_id :: string
  kp_source :: string
  kp_payload :: json
  kp_status :: string
  kp_init_height :: u64
  kp_unlock_height :: u64

record KwilSettlementLogCommitment =
  kl_external_tx_reference :: string
  kl_settlement_network_origin :: string
  kl_fiat_value_pegged :: "rat option"
  kl_raw_payload :: json

record KwilAdapter =
  provider_url :: string
  db_id :: string

record kwil_env =
  wallet_sign :: "string \<Rightarrow> string"
  to_rfc3339 :: "time \<Rightarrow> string"
  debug_f64 :: "rat option \<Rightarrow> string"

type_synonym KwilReceipt = string  \<comment> \<open>\<^verbatim>\<open>tx_hash\<close>\<close>

section \<open>Canonical payloads\<close>

definition kwil_escape :: "char \<Rightarrow> string" where
  "kwil_escape c = (if c = CHR ''|'' \<or> c = CHR ''='' then [CHR 0x5C, c] else [c])"

text \<open>\<^verbatim>\<open>replace('|', ..).replace('=', ..)\<close>: neither replacement introduces a character that the other rewrites.\<close>

definition encode_payload_value :: "string \<Rightarrow> string" where
  "encode_payload_value v = replace_char kwil_escape v"

definition kwil_block_payload :: "KwilBlockCommitment \<Rightarrow> string \<Rightarrow> string" where
  "kwil_block_payload b created =
     ''nexus:kwil:block:v1'' @ field_text
       [(''hash'', encode_payload_value (kb_hash b)), (''height'', show_nat (kb_height b)),
        (''type'', encode_payload_value (kb_block_type b)), (''state'', encode_payload_value (kb_state b)),
        (''created_at'', encode_payload_value created)]"

definition kwil_root_payload :: "KwilStateRootCommitment \<Rightarrow> string \<Rightarrow> string" where
  "kwil_root_payload r created =
     ''nexus:kwil:state_root:v1'' @ field_text
       [(''height'', show_nat (kr_block_height r)), (''root'', encode_payload_value (kr_state_root r)),
        (''created_at'', encode_payload_value created)]"

definition kwil_node_payload :: "KwilMmrNodeCommitment \<Rightarrow> string \<Rightarrow> string" where
  "kwil_node_payload n created =
     ''nexus:kwil:mmr_node:v1'' @ field_text
       [(''pos'', show_nat (kn_pos n)), (''hash'', encode_payload_value (kn_hash n)),
        (''height'', show_nat (kn_block_height n)), (''created_at'', encode_payload_value created)]"

definition kwil_proposal_payload :: "KwilSettlementProposalCommitment \<Rightarrow> string \<Rightarrow> string" where
  "kwil_proposal_payload p created =
     ''nexus:kwil:settlement_proposal:v1'' @ field_text
       [(''proposal_id'', encode_payload_value (kp_proposal_id p)),
        (''external_id'', encode_payload_value (kp_external_id p)),
        (''source'', encode_payload_value (kp_source p)), (''status'', encode_payload_value (kp_status p)),
        (''init_height'', show_nat (kp_init_height p)), (''unlock_height'', show_nat (kp_unlock_height p)),
        (''created_at'', encode_payload_value created)]"

definition kwil_log_payload :: "kwil_env \<Rightarrow> KwilSettlementLogCommitment \<Rightarrow> string \<Rightarrow> string" where
  "kwil_log_payload ke l created =
     ''nexus:kwil:settlement_log:v1'' @ field_text
       [(''external_tx_reference'', encode_payload_value (kl_external_tx_reference l)),
        (''source'', encode_payload_value (kl_settlement_network_origin l)),
        (''fiat_value'', debug_f64 ke (kl_fiat_value_pegged l)), (''created_at'', encode_payload_value created)]"

section \<open>Writes\<close>

text \<open>The receipt as \<^verbatim>\<open>serde\<close> reads it: an object with the member, or an array of its one member.\<close>

definition receipt_of_value :: "json \<Rightarrow> KwilReceipt option" where
  "receipt_of_value j =
     (case j of JArr [JStr h] \<Rightarrow> Some h | _ \<Rightarrow> Option.bind (json_get ''tx_hash'' j) as_str)"

definition handle_response :: "http_response \<Rightarrow> string \<Rightarrow> (string, KwilReceipt) result" where
  "handle_response resp signature =
     (if is_success (hr_status resp) then
        (case hr_json resp of
           Inl _ \<Rightarrow> Inl ''Failed to parse Kwil receipt''
         | Inr j \<Rightarrow>
             (case receipt_of_value j of
                None \<Rightarrow> Inl ''Failed to parse Kwil receipt''
              | Some h \<Rightarrow> Inr h))
      else Inl (''Kwil execution failed (status '' @ show_nat (hr_status resp) @ ''): ''
             @ or_else (hr_text resp) ''Unknown error'' @ '' | Signature: '' @ signature))"

definition kwil_execute ::
  "'w services \<Rightarrow> kwil_env \<Rightarrow> KwilAdapter \<Rightarrow> string \<Rightarrow> json \<Rightarrow> string \<Rightarrow> string \<Rightarrow> ('w, string, KwilReceipt) io" where
  "kwil_execute sv ke k action params payload ctx w =
     (let signature = wallet_sign ke payload;
          url = trim_end_char (CHR 0x2F) (provider_url k) @ ''/api/v1/execute'';
          body = JObj [(''db_id'', JStr (db_id k)), (''action'', JStr action), (''params'', params),
                       (''payload'', JStr payload), (''signature'', JStr signature)] in
      case http_post sv url body w of
        (Inl _, w') \<Rightarrow> (Inl ctx, w')
      | (Inr resp, w') \<Rightarrow> (handle_response resp signature, w'))"

definition persist_block ::
  "'w services \<Rightarrow> kwil_env \<Rightarrow> KwilAdapter \<Rightarrow> KwilBlockCommitment \<Rightarrow> ('w, string, KwilReceipt) io" where
  "persist_block sv ke k b =
     io_then (utc_now sv) (\<lambda>now.
     let created = to_rfc3339 ke now in
     kwil_execute sv ke k ''insert_block''
       (JObj [(''hash'', JStr (kb_hash b)), (''height'', JNum (PosInt (kb_height b))),
              (''type'', JStr (kb_block_type b)), (''state'', JStr (kb_state b)), (''created_at'', JStr created)])
       (kwil_block_payload b created) ''Failed to send block request to Kwil'')"

definition persist_state_root ::
  "'w services \<Rightarrow> kwil_env \<Rightarrow> KwilAdapter \<Rightarrow> KwilStateRootCommitment \<Rightarrow> ('w, string, KwilReceipt) io" where
  "persist_state_root sv ke k r =
     io_then (utc_now sv) (\<lambda>now.
     let created = to_rfc3339 ke now in
     kwil_execute sv ke k ''insert_state_root''
       (JObj [(''block_height'', JNum (PosInt (kr_block_height r))), (''state_root'', JStr (kr_state_root r)),
              (''created_at'', JStr created)])
       (kwil_root_payload r created) ''Failed to send state root request to Kwil'')"

definition persist_mmr_node ::
  "'w services \<Rightarrow> kwil_env \<Rightarrow> KwilAdapter \<Rightarrow> KwilMmrNodeCommitment \<Rightarrow> ('w, string, KwilReceipt) io" where
  "persist_mmr_node sv ke k n =
     io_then (utc_now sv) (\<lambda>now.
     let created = to_rfc3339 ke now in
     kwil_execute sv ke k ''insert_mmr_node''
       (JObj [(''pos'', JNum (PosInt (kn_pos n))), (''hash'', JStr (kn_hash n)),
              (''block_height'', JNum (PosInt (kn_block_height n))), (''created_at'', JStr created)])
       (kwil_node_payload n created) ''Failed to send MMR node request to Kwil'')"

definition persist_settlement_proposal ::
  "'w services \<Rightarrow> kwil_env \<Rightarrow> KwilAdapter \<Rightarrow> KwilSettlementProposalCommitment \<Rightarrow> ('w, string, KwilReceipt) io" where
  "persist_settlement_proposal sv ke k p =
     io_then (utc_now sv) (\<lambda>now.
     let created = to_rfc3339 ke now in
     kwil_execute sv ke k ''insert_settlement_proposal''
       (JObj [(''proposal_id'', JStr (kp_proposal_id p)), (''external_id'', JStr (kp_external_id p)),
              (''source'', JStr (kp_source p)), (''payload'', kp_payload p), (''status'', JStr (kp_status p)),
              (''init_height'', JNum (PosInt (kp_init_height p))),
              (''unlock_height'', JNum (PosInt (kp_unlock_height p))), (''created_at'', JStr created)])
       (kwil_proposal_payload p created) ''Failed to send settlement proposal request to Kwil'')"

definition persist_settlement_log ::
  "'w services \<Rightarrow> kwil_env \<Rightarrow> KwilAdapter \<Rightarrow> KwilSettlementLogCommitment \<Rightarrow> ('w, string, KwilReceipt) io" where
  "persist_settlement_log sv ke k l =
     io_then (utc_now sv) (\<lambda>now.
     let created = to_rfc3339 ke now in
     kwil_execute sv ke k ''insert_settlement_log''
       (JObj [(''external_tx_reference'', JStr (kl_external_tx_reference l)),
              (''settlement_network_origin'', JStr (kl_settlement_network_origin l)),
              (''fiat_value_pegged'', (case kl_fiat_value_pegged l of None \<Rightarrow> JNull | Some v \<Rightarrow> JNum (Float v))),
              (''raw_payload'', kl_raw_payload l), (''created_at'', JStr created)])
       (kwil_log_payload ke l created) ''Failed to send settlement log request to Kwil'')"

section \<open>The encoder\<close>

lemma encode_Nil [simp]: "encode_payload_value [] = []"
  and encode_Cons [simp]: "encode_payload_value (c # s) = kwil_escape c @ encode_payload_value s"
  by (simp_all add: encode_payload_value_def replace_char_def)

lemma encode_head:
  "encode_payload_value s \<noteq> CHR ''|'' # t" "encode_payload_value s \<noteq> CHR ''='' # t"
  "CHR ''|'' # t \<noteq> encode_payload_value s" "CHR ''='' # t \<noteq> encode_payload_value s"
  by (cases s; auto simp: kwil_escape_def split: if_splits)+

lemma encode_inj: "encode_payload_value a = encode_payload_value b \<Longrightarrow> a = b"
proof (induction a arbitrary: b)
  case Nil
  then show ?case by (cases b) (auto simp: kwil_escape_def split: if_splits)
next
  case (Cons c a)
  show ?case
  proof (cases b)
    case Nil
    then show ?thesis using Cons.prems by (auto simp: kwil_escape_def split: if_splits)
  next
    case (Cons d b')
    then show ?thesis
      using Cons.prems Cons.IH [of b'] by (auto simp: kwil_escape_def encode_head split: if_splits)
  qed
qed

lemma encode_escaped: "escaped b (encode_payload_value s)"
  by (induction s arbitrary: b) (auto simp: kwil_escape_def)

interpretation kwil_codec: payload_encoder encode_payload_value
  by unfold_locales (auto intro: encode_inj encode_escaped)

section \<open>Properties\<close>

datatype kwil_write =
    KBlock KwilBlockCommitment
  | KRoot KwilStateRootCommitment
  | KNode KwilMmrNodeCommitment
  | KProposal KwilSettlementProposalCommitment

fun kwil_payload :: "kwil_write \<Rightarrow> string \<Rightarrow> string" where
  "kwil_payload (KBlock b) = kwil_block_payload b"
| "kwil_payload (KRoot r) = kwil_root_payload r"
| "kwil_payload (KNode n) = kwil_node_payload n"
| "kwil_payload (KProposal p) = kwil_proposal_payload p"

text \<open>What the signature covers: all of a commitment but the JSON body of a proposal.\<close>

fun signed_part :: "kwil_write \<Rightarrow> kwil_write" where
  "signed_part (KProposal p) = KProposal (p\<lparr>kp_payload := JNull\<rparr>)"
| "signed_part x = x"

fun write_fields :: "kwil_write \<Rightarrow> string \<Rightarrow> (string \<times> field_value) list" where
  "write_fields (KBlock b) t =
     [(''hash'', Text (kb_hash b)), (''height'', Num (int (kb_height b))), (''type'', Text (kb_block_type b)),
      (''state'', Text (kb_state b)), (''created_at'', Text t)]"
| "write_fields (KRoot r) t =
     [(''height'', Num (int (kr_block_height r))), (''root'', Text (kr_state_root r)), (''created_at'', Text t)]"
| "write_fields (KNode n) t =
     [(''pos'', Num (int (kn_pos n))), (''hash'', Text (kn_hash n)), (''height'', Num (int (kn_block_height n))),
      (''created_at'', Text t)]"
| "write_fields (KProposal p) t =
     [(''proposal_id'', Text (kp_proposal_id p)), (''external_id'', Text (kp_external_id p)),
      (''source'', Text (kp_source p)), (''status'', Text (kp_status p)), (''init_height'', Num (int (kp_init_height p))),
      (''unlock_height'', Num (int (kp_unlock_height p))), (''created_at'', Text t)]"

fun write_domain :: "kwil_write \<Rightarrow> string" where
  "write_domain (KBlock _) = ''nexus:kwil:block:v1''"
| "write_domain (KRoot _) = ''nexus:kwil:state_root:v1''"
| "write_domain (KNode _) = ''nexus:kwil:mmr_node:v1''"
| "write_domain (KProposal _) = ''nexus:kwil:settlement_proposal:v1''"

lemma kwil_payload_fields:
  "kwil_payload x t = write_domain x @ field_text (map (map_prod id kwil_codec.render) (write_fields x t))"
  by (cases x) (simp_all add: kwil_block_payload_def kwil_root_payload_def kwil_node_payload_def
      kwil_proposal_payload_def show_int_def)

lemma write_fields_inj:
  assumes "write_domain x = write_domain y" and "write_fields x t = write_fields y u"
  shows "t = u \<and> signed_part x = signed_part y"
  using assms by (cases x; cases y) simp_all


definition sample_proposal :: KwilSettlementProposalCommitment where
  "sample_proposal =
     \<lparr>kp_proposal_id = ''prop_1'', kp_external_id = ''e|1'', kp_source = ''PAPSS'', kp_payload = JNull,
      kp_status = ''active'', kp_init_height = 5, kp_unlock_height = 149\<rparr>"


end
