(* ===== verification/Settlement.thy ===== *)
theory Settlement
  imports Kwil
begin

text \<open>
  External settlement triggers of \<^verbatim>\<open>src/api/settlement.rs\<close>: the routing policy metadata and its validation,
  and the handler that logs a trigger and opens a proposal with a time lock of 144 blocks.  The deserialisation of the policy
  object is the one \<^verbatim>\<open>serde\<close> derives: unknown members are ignored, \<^verbatim>\<open>null\<close> is absent, a value that is no string or
  a field given under both of its names is an error.  Error reasons leave out the library's detail.
\<close>

section \<open>Data\<close>

record ExternalSettlementTrigger =
  trig_source :: string
  trig_external_id :: string
  trig_payload :: json
  trig_attestation :: string

datatype RoutingSystem = Ibc | Hyperlane | LayerZeroV2 | WormholeNtt | AxelarGmp

datatype TrustTier = T1 | T2 | T3 | T4

datatype VerificationClass = LightClient | ExternalQuorum | AppDefinedMultiverifier | SharedPos

record RoutingPolicyBlock =
  rb_code :: string
  rb_reason :: string
  rb_details :: "json option"

record RoutingPolicyMetadata =
  rp_system :: RoutingSystem
  rp_trust_tier :: TrustTier
  rp_verification_class :: VerificationClass
  rp_policy_version :: string
  rp_evidence_hash :: string
  rp_requested_trust_tier :: "TrustTier option"

record RawRoutingPolicyMetadata =
  raw_system :: "string option"
  raw_trust_tier :: "string option"
  raw_verification_class :: "string option"
  raw_policy_version :: "string option"
  raw_evidence_hash :: "string option"
  raw_requested_trust_tier :: "string option"

record SettlementProposalResponse =
  spr_proposal_id :: string
  spr_status :: string
  spr_unlock_height :: u64
  spr_message :: string
  spr_policy_rejection :: "RoutingPolicyBlock option"

definition new_block :: "string \<Rightarrow> string \<Rightarrow> RoutingPolicyBlock" where
  "new_block code reason = \<lparr>rb_code = code, rb_reason = reason, rb_details = None\<rparr>"

definition with_details :: "RoutingPolicyBlock \<Rightarrow> json \<Rightarrow> RoutingPolicyBlock" where
  "with_details b d = b\<lparr>rb_details := Some d\<rparr>"

section \<open>Tokens\<close>

definition normalize_policy_token :: "string \<Rightarrow> string" where
  "normalize_policy_token v =
     replace_char (\<lambda>c. if c = CHR '' '' \<or> c = CHR ''-'' then ''_'' else [c]) (to_ascii_lowercase (trim v))"

definition parse_system :: "string \<Rightarrow> RoutingSystem option" where
  "parse_system v =
     (let t = normalize_policy_token v in
      if t = ''ibc'' then Some Ibc
      else if t = ''hyperlane'' then Some Hyperlane
      else if t = ''layerzero'' \<or> t = ''layerzero_v2'' then Some LayerZeroV2
      else if t = ''wormhole_ntt'' then Some WormholeNtt
      else if t = ''axelar_gmp'' then Some AxelarGmp
      else None)"

fun system_str :: "RoutingSystem \<Rightarrow> string" where
  "system_str Ibc = ''IBC''"
| "system_str Hyperlane = ''Hyperlane''"
| "system_str LayerZeroV2 = ''LayerZero v2''"
| "system_str WormholeNtt = ''Wormhole NTT''"
| "system_str AxelarGmp = ''Axelar GMP''"

fun required_verification_class :: "RoutingSystem \<Rightarrow> VerificationClass" where
  "required_verification_class Ibc = LightClient"
| "required_verification_class Hyperlane = AppDefinedMultiverifier"
| "required_verification_class LayerZeroV2 = ExternalQuorum"
| "required_verification_class WormholeNtt = ExternalQuorum"
| "required_verification_class AxelarGmp = SharedPos"

fun allowed_tiers :: "RoutingSystem \<Rightarrow> TrustTier list" where
  "allowed_tiers Ibc = [T1, T2]"
| "allowed_tiers _ = [T2, T3]"

definition parse_tier :: "string \<Rightarrow> TrustTier option" where
  "parse_tier v =
     (let t = normalize_policy_token v in
      if t = ''t1'' \<or> t = ''tier1'' then Some T1
      else if t = ''t2'' \<or> t = ''tier2'' then Some T2
      else if t = ''t3'' \<or> t = ''tier3'' then Some T3
      else if t = ''t4'' \<or> t = ''tier4'' then Some T4
      else None)"

fun tier_str :: "TrustTier \<Rightarrow> string" where
  "tier_str T1 = ''T1''" | "tier_str T2 = ''T2''" | "tier_str T3 = ''T3''" | "tier_str T4 = ''T4''"

definition parse_class :: "string \<Rightarrow> VerificationClass option" where
  "parse_class v =
     (let t = normalize_policy_token v in
      if t = ''light_client'' \<or> t = ''lightclient'' then Some LightClient
      else if t = ''external_quorum'' then Some ExternalQuorum
      else if t = ''app_defined_multiverifier'' then Some AppDefinedMultiverifier
      else if t = ''shared_pos'' then Some SharedPos
      else None)"

fun class_str :: "VerificationClass \<Rightarrow> string" where
  "class_str LightClient = ''light_client''"
| "class_str ExternalQuorum = ''external_quorum''"
| "class_str AppDefinedMultiverifier = ''app_defined_multiverifier''"
| "class_str SharedPos = ''shared_pos''"

section \<open>The policy object\<close>

definition or_get :: "'a option \<Rightarrow> 'a option \<Rightarrow> 'a option" where
  "or_get a b = (case a of Some x \<Rightarrow> Some x | None \<Rightarrow> b)"

definition extract_inline_routing_policy :: "json \<Rightarrow> json option" where
  "extract_inline_routing_policy p = or_get (json_get ''routing_policy'' p) (json_get ''routingPolicy'' p)"

definition extract_routing_policy :: "json \<Rightarrow> json option" where
  "extract_routing_policy p =
     or_get (extract_inline_routing_policy p)
    (or_get (Option.bind (json_get ''metadata'' p) extract_inline_routing_policy)
    (or_get (Option.bind (json_get ''routing'' p) extract_inline_routing_policy)
    (or_get (Option.bind (json_get ''bridge_metadata'' p) extract_inline_routing_policy)
            (Option.bind (json_get ''bridgeMetadata'' p) extract_inline_routing_policy))))"

definition raw_member :: "json \<Rightarrow> string list \<Rightarrow> (unit, string option) result" where
  "raw_member obj names =
     (case List.map_filter (\<lambda>n. json_get n obj) names of
        [] \<Rightarrow> Inr None
      | [JNull] \<Rightarrow> Inr None
      | [JStr s] \<Rightarrow> Inr (Some s)
      | _ \<Rightarrow> Inl ())"

definition raw_of_value :: "json \<Rightarrow> (unit, RawRoutingPolicyMetadata) result" where
  "raw_of_value obj =
     res_bind (raw_member obj [''system'']) (\<lambda>s.
     res_bind (raw_member obj [''trust_tier'', ''trustTier'']) (\<lambda>t.
     res_bind (raw_member obj [''verification_class'', ''verificationClass'']) (\<lambda>c.
     res_bind (raw_member obj [''policy_version'', ''policyVersion'']) (\<lambda>v.
     res_bind (raw_member obj [''evidence_hash'', ''evidenceHash'']) (\<lambda>e.
     res_bind (raw_member obj [''requested_trust_tier'', ''requestedTrustTier'']) (\<lambda>r.
     Inr \<lparr>raw_system = s, raw_trust_tier = t, raw_verification_class = c, raw_policy_version = v,
          raw_evidence_hash = e, raw_requested_trust_tier = r\<rparr>))))))"

definition quoted :: "string \<Rightarrow> string" where
  "quoted s = [CHR 0x27] @ s @ [CHR 0x27]"

definition require_non_empty_field :: "string option \<Rightarrow> string \<Rightarrow> (RoutingPolicyBlock, string) result" where
  "require_non_empty_field value name =
     (case map_option trim value of
        Some v \<Rightarrow> if v \<noteq> [] then Inr v
                  else Inl (with_details (new_block ''missing_required_routing_policy_field''
                         (''routing policy field '' @ quoted name @ '' is required'')) (JObj [(''field'', JStr name)]))
      | None \<Rightarrow> Inl (with_details (new_block ''missing_required_routing_policy_field''
                   (''routing policy field '' @ quoted name @ '' is required'')) (JObj [(''field'', JStr name)])))"

definition optional_non_empty_field ::
  "string option \<Rightarrow> string \<Rightarrow> (RoutingPolicyBlock, string option) result" where
  "optional_non_empty_field value name =
     (case value of
        Some v \<Rightarrow>
          if trim v = [] then
            Inl (with_details (new_block ''invalid_routing_policy_field''
                   (''routing policy field '' @ quoted name @ '' must be non-empty'')) (JObj [(''field'', JStr name)]))
          else Inr (Some (trim v))
      | None \<Rightarrow> Inr None)"

text \<open>The checks on the parsed fields, in the order of the code.\<close>

definition policy_rules ::
  "RoutingSystem \<Rightarrow> TrustTier \<Rightarrow> VerificationClass \<Rightarrow> TrustTier option \<Rightarrow> (RoutingPolicyBlock, unit) result" where
  "policy_rules sys tier cls requested =
     (if requested \<noteq> None \<and> requested \<noteq> Some tier then
        Inl (with_details (new_block ''requested_trust_tier_mismatch''
               ''requested trust tier does not match enforced trust tier'')
             (JObj [(''requested_trust_tier'', JStr (tier_str (the requested))), (''trust_tier'', JStr (tier_str tier))]))
      else if tier = T4 then
        Inl (with_details (new_block ''trust_tier_not_allowed'' ''trust tier T4 is denied in this phase'')
             (JObj [(''trust_tier'', JStr (tier_str tier))]))
      else if tier = T1 \<and> sys \<noteq> Ibc then
        Inl (with_details (new_block ''t1_requires_ibc'' ''trust tier T1 allows IBC only'')
             (JObj [(''trust_tier'', JStr (tier_str tier)), (''system'', JStr (system_str sys))]))
      else if cls \<noteq> required_verification_class sys then
        Inl (with_details (new_block ''verification_class_mismatch''
               (''verification class '' @ quoted (class_str cls) @ '' is not approved for system '' @ quoted (system_str sys)))
             (JObj [(''system'', JStr (system_str sys)),
                    (''expected_verification_class'', JStr (class_str (required_verification_class sys))),
                    (''provided_verification_class'', JStr (class_str cls))]))
      else if tier \<notin> set (allowed_tiers sys) then
        Inl (with_details (new_block ''tier_system_not_allowed''
               (''system '' @ quoted (system_str sys) @ '' is not approved for trust tier '' @ quoted (tier_str tier)))
             (JObj [(''system'', JStr (system_str sys)), (''trust_tier'', JStr (tier_str tier))]))
      else Inr ())"

definition parse_or_block ::
  "(string \<Rightarrow> 'a option) \<Rightarrow> string \<Rightarrow> string \<Rightarrow> string \<Rightarrow> string \<Rightarrow> string \<Rightarrow> (RoutingPolicyBlock, 'a) result" where
  "parse_or_block parse raw code before after member =
     ok_or (parse raw) (with_details (new_block code (before @ quoted raw @ after)) (JObj [(member, JStr raw)]))"

definition validate_routing_policy_metadata ::
  "json \<Rightarrow> (RoutingPolicyBlock, RoutingPolicyMetadata) result" where
  "validate_routing_policy_metadata payload =
     (case extract_routing_policy payload of
        None \<Rightarrow> Inl (new_block ''missing_routing_policy'' ''routing policy metadata is required'')
      | Some obj \<Rightarrow>
         if \<not> is_object obj then
           Inl (new_block ''invalid_routing_policy'' ''routing policy metadata must be a JSON object'')
         else (case raw_of_value obj of
           Inl _ \<Rightarrow> Inl (new_block ''invalid_routing_policy'' ''unable to parse routing policy metadata'')
         | Inr raw \<Rightarrow>
             res_bind (require_non_empty_field (raw_system raw) ''system'') (\<lambda>system_raw.
             res_bind (require_non_empty_field (raw_trust_tier raw) ''trust_tier'') (\<lambda>tier_raw.
             res_bind (require_non_empty_field (raw_verification_class raw) ''verification_class'') (\<lambda>class_raw.
             res_bind (require_non_empty_field (raw_policy_version raw) ''policy_version'') (\<lambda>version.
             res_bind (require_non_empty_field (raw_evidence_hash raw) ''evidence_hash'') (\<lambda>evidence.
             res_bind (optional_non_empty_field (raw_requested_trust_tier raw) ''requested_trust_tier'') (\<lambda>requested_raw.
             res_bind (parse_or_block parse_system system_raw ''unknown_system'' ''routing system ''
                         '' is not approved'' ''system'') (\<lambda>sys.
             res_bind (parse_or_block parse_tier tier_raw ''unknown_trust_tier'' ''trust tier ''
                         '' is not recognized'' ''trust_tier'') (\<lambda>tier.
             res_bind (parse_or_block parse_class class_raw ''unknown_verification_class'' ''verification class ''
                         '' is not recognized'' ''verification_class'') (\<lambda>cls.
             res_bind (case requested_raw of
                         None \<Rightarrow> Inr None
                       | Some r \<Rightarrow> map_sum id Some (parse_or_block parse_tier r ''unknown_requested_trust_tier''
                           ''requested trust tier '' '' is not recognized'' ''requested_trust_tier'')) (\<lambda>requested.
             res_bind (policy_rules sys tier cls requested) (\<lambda>_.
             Inr \<lparr>rp_system = sys, rp_trust_tier = tier, rp_verification_class = cls, rp_policy_version = version,
                  rp_evidence_hash = evidence, rp_requested_trust_tier = requested\<rparr>)))))))))))))"

section \<open>The handler\<close>

definition rejection :: "string \<Rightarrow> string \<Rightarrow> RoutingPolicyBlock option \<Rightarrow> SettlementProposalResponse" where
  "rejection status msg blk =
     \<lparr>spr_proposal_id = [], spr_status = status, spr_unlock_height = 0, spr_message = msg, spr_policy_rejection = blk\<rparr>"

text \<open>A best-effort mirror to Kwil: nothing is done without an adapter, and the result is dropped.\<close>

definition mirror :: "KwilAdapter option \<Rightarrow> (KwilAdapter \<Rightarrow> 'w \<Rightarrow> 'r \<times> 'w) \<Rightarrow> 'w \<Rightarrow> unit \<times> 'w" where
  "mirror kwil m w = (case kwil of None \<Rightarrow> ((), w) | Some k \<Rightarrow> ((), snd (m k w)))"

text \<open>\<^verbatim>\<open>SELECT MAX(height)\<close>: 0 when the query fails, returns no row, or the table is empty.\<close>

definition height_or_0 :: "string + i64 option option \<Rightarrow> i64" where
  "height_or_0 row = (case row of Inr (Some (Some h)) \<Rightarrow> h | _ \<Rightarrow> 0)"

text \<open>The reference a trigger is logged under, UETR first, and its amount.\<close>

definition trigger_reference :: "ExternalSettlementTrigger \<Rightarrow> string" where
  "trigger_reference req =
     (let uetr = Option.bind (json_get ''uetr'' (trig_payload req)) as_str;
          e2e_id = Option.bind (json_get ''end_to_end_id'' (trig_payload req)) as_str in
      case or_get uetr e2e_id of Some r \<Rightarrow> r | None \<Rightarrow> trig_external_id req)"

definition trigger_amount :: "ExternalSettlementTrigger \<Rightarrow> rat option" where
  "trigger_amount req = Option.bind (json_get ''amount'' (trig_payload req)) as_f64"

text \<open>Steps 4 to 6: log the trigger, read the height, open the proposal.\<close>

definition open_proposal ::
  "'w services \<Rightarrow> kwil_env \<Rightarrow> KwilAdapter option \<Rightarrow> ExternalSettlementTrigger
     \<Rightarrow> 'w \<Rightarrow> (nat \<times> SettlementProposalResponse) \<times> 'w" where
  "open_proposal sv ke kwil req =
     (let p = trig_payload req;
          fiat_value = trigger_amount req;
          ref = trigger_reference req in
      io_then (pg_execute sv (InsertSettlementLog ref (trig_source req) fiat_value p)) (\<lambda>_.
      io_then (mirror kwil (\<lambda>k. persist_settlement_log sv ke k
          \<lparr>kl_external_tx_reference = ref, kl_settlement_network_origin = trig_source req,
           kl_fiat_value_pegged = fiat_value, kl_raw_payload = p\<rparr>)) (\<lambda>_.
      io_then (pg_max_height sv) (\<lambda>row.
      let height = height_or_0 row;
          unlock = as_u64 (wrap_i64 (height + 144)) in
      io_then (new_uuid sv) (\<lambda>uuid.
      let pid = ''prop_'' @ uuid in
      io_then (pg_execute sv (InsertSettlementProposal pid (trig_external_id req) (trig_source req) p height (as_i64 unlock))) (\<lambda>res.
      io_then (mirror kwil (\<lambda>k. persist_settlement_proposal sv ke k
          \<lparr>kp_proposal_id = pid, kp_external_id = trig_external_id req, kp_source = trig_source req, kp_payload = p,
           kp_status = ''active'', kp_init_height = as_u64 height, kp_unlock_height = unlock\<rparr>)) (\<lambda>_ w.
      (case res of
         Inr _ \<Rightarrow> (200, \<lparr>spr_proposal_id = pid, spr_status = ''Active'', spr_unlock_height = unlock,
                       spr_message = ''External trigger verified. 144-block time-lock initiated.'', spr_policy_rejection = None\<rparr>)
       | Inl _ \<Rightarrow> (500, rejection ''Error'' ''Internal persistence failure.'' None), w))))))))"

definition settlement_trigger_handler ::
  "'w services \<Rightarrow> kwil_env \<Rightarrow> (string \<Rightarrow> json \<Rightarrow> ('w, string, bool) io) option \<Rightarrow> KwilAdapter option
     \<Rightarrow> ExternalSettlementTrigger \<Rightarrow> 'w \<Rightarrow> (nat \<times> SettlementProposalResponse) \<times> 'w" where
  "settlement_trigger_handler sv ke orc kwil req w =
     (if \<not> starts_with (trig_attestation req) ''TEE_'' then
        ((403, rejection ''Rejected'' ''Invalid TEE Attestation. Security floor violated.'' None), w)
      else case validate_routing_policy_metadata (trig_payload req) of
        Inl blk \<Rightarrow>
          ((403, rejection ''PolicyBlocked'' ''Routing policy enforcement rejected settlement trigger.'' (Some blk)), w)
      | Inr _ \<Rightarrow>
          (case orc of
             None \<Rightarrow> open_proposal sv ke kwil req w
           | Some verify_external_signal \<Rightarrow>
               (case verify_external_signal (trig_source req) (trig_payload req) w of
                  (Inr True, w') \<Rightarrow> open_proposal sv ke kwil req w'
                | (Inr False, w') \<Rightarrow>
                    ((400, rejection ''Rejected'' ''Oracle verification failed for external signal.'' None), w')
                | (Inl e, w') \<Rightarrow> ((500, rejection ''Error'' (''Oracle service error: '' @ e) None), w'))))"

section \<open>Lemmas\<close>

lemma require_non_empty_Inr: "require_non_empty_field x n = Inr v \<Longrightarrow> v \<noteq> [] \<and> (\<exists>s. x = Some s \<and> v = trim s)"
  by (cases x) (auto simp: require_non_empty_field_def split: if_splits)

lemma require_non_empty_ne: "require_non_empty_field x n \<noteq> Inr []"
  using require_non_empty_Inr by blast

lemma policy_rules_Inr:
  "policy_rules sys tier cls requested = Inr () \<longleftrightarrow>
     (requested = None \<or> requested = Some tier) \<and> cls = required_verification_class sys
     \<and> tier \<in> set (allowed_tiers sys)"
  by (cases sys; cases tier) (auto simp: policy_rules_def)

text \<open>What the mirrors, the clock and the identifiers do not touch.\<close>

lemma io_then_snd: "snd (io_then m k w) = snd (k (fst (m w)) (snd (m w)))"
  by (simp add: io_then_def split: prod.split)

lemma kwil_execute_log: "pg_logs sv wlog \<Longrightarrow> wlog (snd (kwil_execute sv ke k act params p ctx w)) = wlog w"
  using pg_logs_kept(7) [of sv wlog]
  by (auto simp: kwil_execute_def Let_def log_kept_def split: prod.split sum.split) (metis snd_conv)+

lemma persist_log:
  assumes "pg_logs sv wlog"
  shows "wlog (snd (persist_settlement_log sv ke k l w)) = wlog w"
    and "wlog (snd (persist_settlement_proposal sv ke k p w)) = wlog w"
  using pg_logs_kept(8) [OF assms]
  by (simp_all add: persist_settlement_log_def persist_settlement_proposal_def Let_def io_then_snd
      kwil_execute_log [OF assms] log_kept_def)

lemma mirror_keptD:
  "mirror kwil m w = ((), w') \<Longrightarrow> (\<And>k w. wlog (snd (m k w)) = wlog w) \<Longrightarrow> wlog w' = wlog w"
  by (auto simp: mirror_def split: option.splits)

lemma mirror_unit: "(\<And>w'. mirror kwil m w = ((), w') \<Longrightarrow> thesis) \<Longrightarrow> thesis"
  by (cases "mirror kwil m w") simp

text \<open>What opening a proposal leaves in the database and answers, for either outcome of the two INSERTs.\<close>

definition proposal_opened ::
  "'w services \<Rightarrow> ('w \<Rightarrow> sql_write list) \<Rightarrow> ExternalSettlementTrigger \<Rightarrow> 'w \<Rightarrow> nat \<Rightarrow> SettlementProposalResponse \<Rightarrow> 'w \<Rightarrow> bool" where
  "proposal_opened sv wlog req w status resp w' \<longleftrightarrow>
     (let log_row = InsertSettlementLog (trigger_reference req) (trig_source req) (trigger_amount req) (trig_payload req);
          logged = made (fst (pg_execute sv log_row w)) log_row in
      \<exists>v v' uuid h unlock row.
        h = height_or_0 (fst (pg_max_height sv v)) \<and> unlock = as_u64 (wrap_i64 (h + 144))
        \<and> row = InsertSettlementProposal (''prop_'' @ uuid) (trig_external_id req) (trig_source req) (trig_payload req) h (as_i64 unlock)
        \<and> wlog v = wlog w @ logged \<and> wlog v' = wlog w @ logged
        \<and> (case fst (pg_execute sv row v') of
             Inr _ \<Rightarrow> status = 200 \<and> spr_status resp = ''Active'' \<and> spr_proposal_id resp = ''prop_'' @ uuid
               \<and> spr_unlock_height resp = unlock \<and> wlog w' = wlog w @ logged @ [row]
           | Inl _ \<Rightarrow> status = 500 \<and> spr_status resp = ''Error'' \<and> wlog w' = wlog w @ logged))"

lemma open_proposal_writes:
  assumes "pg_logs sv wlog" and "open_proposal sv ke kwil req w = ((status, resp), w')"
  shows "proposal_opened sv wlog req w status resp w'"
proof -
  let ?p = "trig_payload req"
  define fiat ref where "fiat = trigger_amount req" and "ref = trigger_reference req"
  define log_row where "log_row = InsertSettlementLog ref (trig_source req) fiat ?p"
  obtain r1 w1 where w1: "pg_execute sv log_row w = (r1, w1)" by fastforce
  obtain w2 where w2: "mirror kwil (\<lambda>k. persist_settlement_log sv ke k
          \<lparr>kl_external_tx_reference = ref, kl_settlement_network_origin = trig_source req,
           kl_fiat_value_pegged = fiat, kl_raw_payload = ?p\<rparr>) w1 = ((), w2)" by (rule mirror_unit)
  obtain h w3 where w3: "h = height_or_0 (fst (pg_max_height sv w2))" "w3 = snd (pg_max_height sv w2)" by simp
  define unlock where "unlock = as_u64 (wrap_i64 (h + 144))"
  obtain uuid w4 where w4: "new_uuid sv w3 = (uuid, w4)" by fastforce
  define row where "row = InsertSettlementProposal (''prop_'' @ uuid) (trig_external_id req) (trig_source req) ?p h (as_i64 unlock)"
  obtain r2 w5 where w5: "pg_execute sv row w4 = (r2, w5)" by fastforce
  obtain w6 where w6: "mirror kwil (\<lambda>k. persist_settlement_proposal sv ke k
          \<lparr>kp_proposal_id = ''prop_'' @ uuid, kp_external_id = trig_external_id req, kp_source = trig_source req, kp_payload = ?p,
           kp_status = ''active'', kp_init_height = as_u64 h, kp_unlock_height = unlock\<rparr>) w5 = ((), w6)" by (rule mirror_unit)
  have "wlog w2 = wlog w1" by (rule mirror_keptD [OF w2]) (rule persist_log [OF assms(1)])
  then have l2: "wlog w2 = wlog w @ made r1 log_row" using pg_logs_execute [OF assms(1) w1] by simp
  have l4: "wlog w4 = wlog w2"
    using pg_logs_kept(3) [OF assms(1)] log_keptD [OF pg_logs_kept(9) [OF assms(1)] w4] w3(2) by (simp add: log_kept_def)
  have "wlog w6 = wlog w5" by (rule mirror_keptD [OF w6]) (rule persist_log [OF assms(1)])
  then have l6: "wlog w6 = wlog w4 @ made r2 row" using pg_logs_execute [OF assms(1) w5] by simp
  have run: "open_proposal sv ke kwil req w = ((case r2 of
      Inr _ \<Rightarrow> (200, \<lparr>spr_proposal_id = ''prop_'' @ uuid, spr_status = ''Active'', spr_unlock_height = unlock,
         spr_message = ''External trigger verified. 144-block time-lock initiated.'', spr_policy_rejection = None\<rparr>)
    | Inl _ \<Rightarrow> (500, rejection ''Error'' ''Internal persistence failure.'' None)), w6)"
    unfolding open_proposal_def Let_def fiat_def [symmetric] ref_def [symmetric]
    using w1 w2 w3 w4 w5 w6 by (cases "pg_max_height sv w2"; cases r2) (simp_all add: log_row_def row_def unlock_def)
  have "case r2 of Inr _ \<Rightarrow> status = 200 \<and> spr_status resp = ''Active'' \<and> spr_proposal_id resp = ''prop_'' @ uuid
       \<and> spr_unlock_height resp = unlock \<and> wlog w' = wlog w @ made r1 log_row @ [row]
    | Inl _ \<Rightarrow> status = 500 \<and> spr_status resp = ''Error'' \<and> wlog w' = wlog w @ made r1 log_row"
    using assms(2) run l2 l4 l6 by (cases r2) (auto simp: rejection_def)
  then show ?thesis
    unfolding proposal_opened_def Let_def
    using w1 w5 w3(1) l2 l4 unlock_def row_def
    by (intro exI [of _ w2] exI [of _ w4] exI [of _ uuid] exI [of _ h] exI [of _ unlock] exI [of _ row])
      (cases r2; simp add: log_row_def fiat_def ref_def)
qed

text \<open>The printed names parse back, so the decision on them is the table of the code.\<close>

lemma trim_system_str [simp]: "trim (system_str s) = system_str s"
  by (cases s) (simp_all add: trim_id ws_front_def ws_back_def byte_at_def)

lemma trim_tier_str [simp]: "trim (tier_str t) = tier_str t"
  by (cases t) (simp_all add: trim_id ws_front_def ws_back_def byte_at_def)

lemma trim_class_str [simp]: "trim (class_str c) = class_str c"
  by (cases c) (simp_all add: trim_id ws_front_def ws_back_def byte_at_def)

lemma printed_nonempty [simp]: "system_str s \<noteq> []" "tier_str t \<noteq> []" "class_str c \<noteq> []"
  by ((cases s; simp), (cases t; simp), (cases c; simp))

lemma normalize_system_str:
  "normalize_policy_token (system_str s) =
     (case s of Ibc \<Rightarrow> ''ibc'' | Hyperlane \<Rightarrow> ''hyperlane'' | LayerZeroV2 \<Rightarrow> ''layerzero_v2''
        | WormholeNtt \<Rightarrow> ''wormhole_ntt'' | AxelarGmp \<Rightarrow> ''axelar_gmp'')"
  unfolding normalize_policy_token_def trim_system_str by (induction s; code_simp)

lemma normalize_tier_str:
  "normalize_policy_token (tier_str t) = (case t of T1 \<Rightarrow> ''t1'' | T2 \<Rightarrow> ''t2'' | T3 \<Rightarrow> ''t3'' | T4 \<Rightarrow> ''t4'')"
  unfolding normalize_policy_token_def trim_tier_str by (induction t; code_simp)

lemma normalize_class_str: "normalize_policy_token (class_str c) = class_str c"
  unfolding normalize_policy_token_def trim_class_str by (induction c; code_simp)

lemma parse_system_str [simp]: "parse_system (system_str s) = Some s"
  unfolding parse_system_def normalize_system_str by (cases s) simp_all

lemma parse_tier_str [simp]: "parse_tier (tier_str t) = Some t"
  unfolding parse_tier_def normalize_tier_str by (cases t) simp_all

lemma parse_class_str [simp]: "parse_class (class_str c) = Some c"
  unfolding parse_class_def normalize_class_str by (cases c) simp_all

definition policy_object :: "RoutingSystem \<Rightarrow> TrustTier \<Rightarrow> VerificationClass \<Rightarrow> string \<Rightarrow> string \<Rightarrow> json" where
  "policy_object sys tier cls version evidence =
     JObj [(''routing_policy'', JObj [(''system'', JStr (system_str sys)), (''trust_tier'', JStr (tier_str tier)),
       (''verification_class'', JStr (class_str cls)), (''policy_version'', JStr version), (''evidence_hash'', JStr evidence)])]"

lemma validate_policy_object:
  assumes "trim version \<noteq> []" "trim evidence \<noteq> []"
  shows "validate_routing_policy_metadata (policy_object sys tier cls version evidence) =
     res_bind (policy_rules sys tier cls None) (\<lambda>_.
       Inr \<lparr>rp_system = sys, rp_trust_tier = tier, rp_verification_class = cls, rp_policy_version = trim version,
            rp_evidence_hash = trim evidence, rp_requested_trust_tier = None\<rparr>)"
  using assms
  by (simp add: validate_routing_policy_metadata_def extract_routing_policy_def extract_inline_routing_policy_def or_get_def
      policy_object_def raw_of_value_def raw_member_def require_non_empty_field_def optional_non_empty_field_def
      parse_or_block_def List.map_filter_def)

lemma validated_fields:
  assumes "validate_routing_policy_metadata payload = Inr m"
  shows "policy_rules (rp_system m) (rp_trust_tier m) (rp_verification_class m) (rp_requested_trust_tier m) = Inr ()
    \<and> rp_policy_version m \<noteq> [] \<and> rp_evidence_hash m \<noteq> []"
  using assms
  by (auto simp: validate_routing_policy_metadata_def res_bind_Inr_iff require_non_empty_ne
      split: option.splits if_splits sum.splits)

section \<open>Properties\<close>

text \<open>C26: The routing policy is exactly the table of the code.  Metadata that validate, wherever in the payload they come
  from and however they are spelled, name a tier the system is allowed, the one verification class the system requires,
  never T4, T1 only with IBC, a requested tier equal to the enforced one, and a non-empty version and evidence hash; and a
  policy written with the printed names validates exactly when the class is the required one and the tier is allowed.\<close>

theorem routing_policy_exact:
  assumes "validate_routing_policy_metadata payload = Inr m" "trim version \<noteq> []" "trim evidence \<noteq> []"
  shows "rp_verification_class m = required_verification_class (rp_system m)
      \<and> rp_trust_tier m \<in> set (allowed_tiers (rp_system m)) \<and> rp_trust_tier m \<noteq> T4
      \<and> (rp_trust_tier m = T1 \<longrightarrow> rp_system m = Ibc)
      \<and> (rp_requested_trust_tier m = None \<or> rp_requested_trust_tier m = Some (rp_trust_tier m))
      \<and> rp_policy_version m \<noteq> [] \<and> rp_evidence_hash m \<noteq> []
      \<and> ((\<exists>m'. validate_routing_policy_metadata (policy_object sys tier cls version evidence) = Inr m') \<longleftrightarrow>
      cls = required_verification_class sys \<and> tier \<in> set (allowed_tiers sys))"
proof -
  have tiers: "t \<in> set (allowed_tiers s) \<Longrightarrow> t \<noteq> T4 \<and> (t = T1 \<longrightarrow> s = Ibc)" for s t by (cases s) auto
  have "((\<exists>m'. validate_routing_policy_metadata (policy_object sys tier cls version evidence) = Inr m') \<longleftrightarrow>
      cls = required_verification_class sys \<and> tier \<in> set (allowed_tiers sys))"
    using policy_rules_Inr [of sys tier cls None] by (simp add: validate_policy_object [OF assms(2,3)] res_bind_Inr_iff)
  then show ?thesis
    using validated_fields [OF assms(1)] tiers [of "rp_trust_tier m" "rp_system m"] by (simp add: policy_rules_Inr)
qed

theorem routing_policy_exact_witness:
  "rp_verification_class \<lparr>rp_system = Ibc, rp_trust_tier = T1, rp_verification_class = LightClient,
      rp_policy_version = ''1'', rp_evidence_hash = ''ab'', rp_requested_trust_tier = None\<rparr>
     = required_verification_class Ibc
   \<and> (\<nexists>m. validate_routing_policy_metadata (policy_object Hyperlane T1 AppDefinedMultiverifier ''1'' ''ab'') = Inr m)"
proof -
  have t: "trim ''1'' = ''1''" "trim ''ab'' = ''ab''"
    by (simp_all add: trim_id ws_front_def ws_back_def byte_at_def)
  have v: "validate_routing_policy_metadata (policy_object Ibc T1 LightClient ''1'' ''ab'') =
      Inr \<lparr>rp_system = Ibc, rp_trust_tier = T1, rp_verification_class = LightClient,
      rp_policy_version = ''1'', rp_evidence_hash = ''ab'', rp_requested_trust_tier = None\<rparr>"
    by (simp add: validate_policy_object t policy_rules_def)
  show ?thesis
    using routing_policy_exact [OF v, where version = "''1''" and evidence = "''ab''" and sys = Hyperlane and tier = T1
        and cls = AppDefinedMultiverifier] by (simp add: t)
qed

text \<open>C7: Over a database whose statements may fail, and an oracle that writes nothing, a trigger changes the database only when
  its attestation carries the TEE prefix, its routing policy validates and the oracle (if there is one) answers yes; in every
  other case nothing is written and the status is 400, 403 or 500.  When the checks pass it tries one log row, under the
  UETR, else the end-to-end id, else the external id, with the stated amount, and drops that row's error; then one proposal row that
  unlocks 144 blocks (in 64-bit arithmetic) after the height read from the database, 0 when it could not be read.  The answer is 200
  with the row's identifier exactly when the proposal row was written, and 500 otherwise.\<close>

theorem settlement_writes_only_after_checks:
  assumes "pg_logs sv wlog" and "\<forall>f. orc = Some f \<longrightarrow> (\<forall>s p. log_kept wlog (f s p))"
    and "settlement_trigger_handler sv ke orc kwil req w = ((status, resp), w')"
  shows "if starts_with (trig_attestation req) ''TEE_'' \<and> (\<exists>m. validate_routing_policy_metadata (trig_payload req) = Inr m)
       \<and> (\<forall>f. orc = Some f \<longrightarrow> fst (f (trig_source req) (trig_payload req) w) = Inr True)
     then (let log_row = InsertSettlementLog (trigger_reference req) (trig_source req) (trigger_amount req) (trig_payload req);
               asked = (case orc of None \<Rightarrow> w | Some f \<Rightarrow> snd (f (trig_source req) (trig_payload req) w));
               logged = made (fst (pg_execute sv log_row asked)) log_row in
       \<exists>v v' uuid h unlock row.
         h = height_or_0 (fst (pg_max_height sv v)) \<and> unlock = as_u64 (wrap_i64 (h + 144))
         \<and> row = InsertSettlementProposal (''prop_'' @ uuid) (trig_external_id req) (trig_source req) (trig_payload req) h (as_i64 unlock)
         \<and> wlog v = wlog w @ logged \<and> wlog v' = wlog w @ logged
         \<and> (case fst (pg_execute sv row v') of
              Inr _ \<Rightarrow> status = 200 \<and> spr_status resp = ''Active'' \<and> spr_proposal_id resp = ''prop_'' @ uuid
                \<and> spr_unlock_height resp = unlock \<and> wlog w' = wlog w @ logged @ [row]
            | Inl _ \<Rightarrow> status = 500 \<and> spr_status resp = ''Error'' \<and> wlog w' = wlog w @ logged))
     else status \<in> {400, 403, 500} \<and> wlog w' = wlog w"
proof -
  define asked where "asked = (case orc of None \<Rightarrow> w | Some f \<Rightarrow> snd (f (trig_source req) (trig_payload req) w))"
  have kept: "wlog asked = wlog w"
    using assms(2) by (auto simp: asked_def log_kept_def split: option.splits)
  define checked where "checked \<longleftrightarrow> starts_with (trig_attestation req) ''TEE_''
       \<and> (\<exists>m. validate_routing_policy_metadata (trig_payload req) = Inr m)
       \<and> (\<forall>f. orc = Some f \<longrightarrow> fst (f (trig_source req) (trig_payload req) w) = Inr True)"
  have run: "if checked then open_proposal sv ke kwil req asked = ((status, resp), w') else status \<in> {400, 403, 500} \<and> w' \<in> {w, asked}"
    using assms(3) unfolding asked_def checked_def
    by (auto simp: settlement_trigger_handler_def split: if_splits sum.splits bool.splits option.splits prod.splits)
  show ?thesis
  proof (cases checked)
    case True
    then have "proposal_opened sv wlog req asked status resp w'" using run open_proposal_writes [OF assms(1)] by simp
    then show ?thesis
      using True unfolding checked_def [symmetric] asked_def [symmetric] proposal_opened_def kept by (simp only: if_True Let_def)
  next
    case False
    then show ?thesis using run kept unfolding checked_def [symmetric] by auto
  qed
qed

definition sample_trigger :: ExternalSettlementTrigger where
  "sample_trigger = \<lparr>trig_source = ''PAPSS'', trig_external_id = ''x1'',
     trig_payload = policy_object Ibc T1 LightClient ''1'' ''ab'', trig_attestation = ''TEE_1''\<rparr>"

definition sample_env :: kwil_env where
  "sample_env = \<lparr>wallet_sign = (\<lambda>_. []), to_rfc3339 = (\<lambda>_. []), debug_f64 = (\<lambda>_. [])\<rparr>"

text \<open>A database that refuses the log row, as it does for an amount out of the range of its column.\<close>

definition refusing :: "sql_write list services" where
  "refusing = recording\<lparr>pg_execute := (\<lambda>q w. case q of InsertSettlementLog _ _ _ _ \<Rightarrow> (Inl ''numeric field overflow'', w) | _ \<Rightarrow> (Inr (), w @ [q]))\<rparr>"

lemma refusing_logs: "pg_logs refusing (\<lambda>w. w)"
  by (auto simp: pg_logs_def log_kept_def refusing_def recording_def offline_def split: sql_write.splits)

text \<open>With the recording database both rows are there; with the refusing one the answer is the same and the log row is missing.\<close>

theorem settlement_writes_only_after_checks_witness:
  "(case settlement_trigger_handler recording sample_env None None sample_trigger [] of ((status, resp), w') \<Rightarrow>
     status = 200 \<and> spr_unlock_height resp = 144 \<and> length w' = 2)
   \<and> (case settlement_trigger_handler refusing sample_env None None sample_trigger [] of ((status, resp), w') \<Rightarrow>
     status = 200 \<and> spr_unlock_height resp = 144 \<and> length w' = 1)"
proof -
  have t: "trim ''1'' = ''1''" "trim ''ab'' = ''ab''"
    by (simp_all add: trim_id ws_front_def ws_back_def byte_at_def)
  have v: "\<exists>m. validate_routing_policy_metadata (trig_payload sample_trigger) = Inr m"
    by (simp add: sample_trigger_def validate_policy_object t policy_rules_def)
  have a: "starts_with (trig_attestation sample_trigger) ''TEE_''" by (simp add: sample_trigger_def starts_with_def)
  obtain status resp w' where h: "settlement_trigger_handler recording sample_env None None sample_trigger [] = ((status, resp), w')"
    by (metis surj_pair)
  obtain status' resp' v' where g: "settlement_trigger_handler refusing sample_env None None sample_trigger [] = ((status', resp'), v')"
    by (metis surj_pair)
  have "status = 200 \<and> spr_unlock_height resp = 144 \<and> length w' = 2"
    using settlement_writes_only_after_checks [OF recording_logs _ h] v a
    by (auto simp: recording_def offline_def height_or_0_def as_u64_def wrap_i64_def wrap_u64_def Let_def)
  moreover have "status' = 200 \<and> spr_unlock_height resp' = 144 \<and> length v' = 1"
    using settlement_writes_only_after_checks [OF refusing_logs _ g] v a
    by (auto simp: refusing_def recording_def offline_def height_or_0_def as_u64_def wrap_i64_def wrap_u64_def Let_def)
  ultimately show ?thesis using h g by simp
qed

end
