(* ===== verification/Redis_Hashes.thy ===== *)
theory Redis_Hashes
  imports Nexus_Services
begin

text \<open>
  What the billing code relies on of Redis hashes: \<open>redis_hashes sv hv\<close> says that the services act on the
  hashes seen through \<open>hv\<close> as the Redis documentation describes \<^verbatim>\<open>HSET\<close>, \<^verbatim>\<open>HGET\<close>, \<^verbatim>\<open>HGETALL\<close>, \<^verbatim>\<open>HINCRBY\<close>
  and \<^verbatim>\<open>EXISTS\<close>, with numbers stored as their decimal text.  \<open>hash_memory\<close> is such a service.
\<close>

type_synonym hashes = "string \<Rightarrow> string \<rightharpoonup> string"

fun hset :: "string list \<Rightarrow> (string \<rightharpoonup> string) \<Rightarrow> (string \<rightharpoonup> string)" where
  "hset (f # v # rest) m = hset rest (m(f \<mapsto> v))"
| "hset _ m = m"

definition hash_kept :: "('w \<Rightarrow> hashes) \<Rightarrow> ('w \<Rightarrow> 'r \<times> 'w) \<Rightarrow> bool" where
  "hash_kept hv m \<longleftrightarrow> (\<forall>w. hv (snd (m w)) = hv w)"

definition redis_hashes :: "'w services \<Rightarrow> ('w \<Rightarrow> hashes) \<Rightarrow> bool" where
  "redis_hashes sv hv \<longleftrightarrow>
     hash_kept hv (redis_connect sv) \<and> hash_kept hv (utc_now sv) \<and> hash_kept hv (random_f32 sv)
     \<and> hash_kept hv (random_bytes32 sv)
     \<and> (\<forall>k w. \<exists>data w'. redis_map sv [''HGETALL'', k] w = (Inr data, w') \<and> map_of data = hv w k \<and> hv w' = hv w)
     \<and> (\<forall>k w n. hv w k ''usage'' = Some (show_nat n) \<longrightarrow> n < 2 ^ 63 - 1 \<longrightarrow>
          (\<exists>w'. redis_u64 sv [''HINCRBY'', k, ''usage'', ''1''] w = (Inr (n + 1), w')
             \<and> hv w' = (hv w)(k := (hv w k)(''usage'' \<mapsto> show_nat (n + 1)))))
     \<and> (\<forall>k f. hash_kept hv (redis_opt_i64 sv [''HGET'', k, f]))
     \<and> (\<forall>k f w. hv w k f = None \<longrightarrow> fst (redis_opt_i64 sv [''HGET'', k, f] w) = Inr None)
     \<and> (\<forall>k f w i. hv w k f = Some (show_int i) \<longrightarrow> fst (redis_opt_i64 sv [''HGET'', k, f] w) = Inr (Some i))
     \<and> (\<forall>k kvs w. \<exists>w'. redis_unit sv (''HSET'' # k # kvs) w = (Inr (), w') \<and> hv w' = (hv w)(k := hset kvs (hv w k)))
     \<and> (\<forall>k w. \<exists>w'. redis_bool sv [''EXISTS'', k] w = (Inr (hv w k \<noteq> Map.empty), w') \<and> hv w' = hv w)"

lemma hash_keptD: "hash_kept hv m \<Longrightarrow> m w = (r, w') \<Longrightarrow> hv w' = hv w"
  unfolding hash_kept_def by (metis snd_conv)

lemma redis_hashes_kept:
  assumes "redis_hashes sv hv"
  shows "hash_kept hv (redis_connect sv)" "hash_kept hv (utc_now sv)" "hash_kept hv (random_f32 sv)"
    "hash_kept hv (random_bytes32 sv)"
  using assms unfolding redis_hashes_def by blast+

lemma redis_hgetall:
  "redis_hashes sv hv \<Longrightarrow> \<exists>data w'. redis_map sv [''HGETALL'', k] w = (Inr data, w') \<and> map_of data = hv w k \<and> hv w' = hv w"
  unfolding redis_hashes_def by blast

lemma redis_hincrby:
  "redis_hashes sv hv \<Longrightarrow> hv w k ''usage'' = Some (show_nat n) \<Longrightarrow> n < 2 ^ 63 - 1 \<Longrightarrow>
     \<exists>w'. redis_u64 sv [''HINCRBY'', k, ''usage'', ''1''] w = (Inr (n + 1), w')
       \<and> hv w' = (hv w)(k := (hv w k)(''usage'' \<mapsto> show_nat (n + 1)))"
  unfolding redis_hashes_def by blast

text \<open>Reading a field that is absent or holds a number.\<close>

lemma redis_hget:
  assumes "redis_hashes sv hv" and "hv w k f = map_option show_int x"
  shows "\<exists>w'. redis_opt_i64 sv [''HGET'', k, f] w = (Inr x, w') \<and> hv w' = hv w"
proof -
  have "fst (redis_opt_i64 sv [''HGET'', k, f] w) = Inr x"
    using assms unfolding redis_hashes_def by (cases x) auto
  moreover have "hv (snd (redis_opt_i64 sv [''HGET'', k, f] w)) = hv w"
    using assms(1) unfolding redis_hashes_def hash_kept_def by blast
  ultimately show ?thesis by (metis prod.collapse)
qed

lemma redis_hset:
  "redis_hashes sv hv \<Longrightarrow>
     \<exists>w'. redis_unit sv (''HSET'' # k # kvs) w = (Inr (), w') \<and> hv w' = (hv w)(k := hset kvs (hv w k))"
  unfolding redis_hashes_def by blast

lemma redis_exists:
  "redis_hashes sv hv \<Longrightarrow> \<exists>w'. redis_bool sv [''EXISTS'', k] w = (Inr (hv w k \<noteq> Map.empty), w') \<and> hv w' = hv w"
  unfolding redis_hashes_def by blast

section \<open>An instance\<close>

definition read_int :: "string \<Rightarrow> int" where
  "read_int s = (case s of [] \<Rightarrow> 0 | c # cs \<Rightarrow> if c = CHR ''-'' then - int (read_nat cs) else int (read_nat s))"

lemma read_show_int [simp]: "read_int (show_int i) = i"
proof (cases "i < 0")
  case True
  then show ?thesis by (simp add: read_int_def show_int_def)
next
  case False
  obtain c cs where "show_nat (nat i) = c # cs" by (meson neq_Nil_conv show_nat_nonempty)
  moreover from this have "c \<noteq> CHR ''-''" using show_nat_no_minus [of "nat i"] by auto
  ultimately show ?thesis using False read_show_nat [of "nat i"] by (simp add: read_int_def show_int_def)
qed

text \<open>The worlds are the hashes, each an association list.\<close>

type_synonym hash_world = "string \<Rightarrow> (string \<times> string) list"

fun hset_list :: "string list \<Rightarrow> (string \<times> string) list \<Rightarrow> (string \<times> string) list" where
  "hset_list (f # v # rest) m = hset_list rest ((f, v) # m)"
| "hset_list _ m = m"

lemma map_of_hset_list [simp]: "map_of (hset_list kvs m) = hset kvs (map_of m)"
  by (induction kvs m rule: hset_list.induct) (simp_all add: fun_upd_def)

definition hash_memory :: "hash_world services" where
  "hash_memory = offline\<lparr>
     redis_connect := io_ok (),
     redis_map := (\<lambda>c w. (Inr (w (c ! 1)), w)),
     redis_u64 := (\<lambda>c w. let k = c ! 1; n = (case map_of (w k) ''usage'' of None \<Rightarrow> 0 | Some s \<Rightarrow> read_nat s) + 1
        in (Inr n, w(k := hset_list [''usage'', show_nat n] (w k)))),
     redis_opt_i64 := (\<lambda>c w. (Inr (map_option read_int (map_of (w (c ! 1)) (c ! 2))), w)),
     redis_unit := (\<lambda>c w. if c ! 0 = ''HSET'' then (Inr (), w(c ! 1 := hset_list (drop 2 c) (w (c ! 1)))) else (Inr (), w)),
     redis_bool := (\<lambda>c w. (Inr (w (c ! 1) \<noteq> []), w))\<rparr>"

lemma hash_memory_hashes: "redis_hashes hash_memory (\<lambda>w k. map_of (w k))"
  unfolding redis_hashes_def hash_kept_def
  by (simp add: hash_memory_def offline_def Let_def) (auto simp: fun_eq_iff)

end
