(* ===== verification/Nostr.thy ===== *)
theory Nostr
  imports Redis_Hashes
begin

text \<open>
  The Nostr bridge of \<^verbatim>\<open>src/api/billing/nostr.rs\<close>: publishing telemetry and health events, and the collector
  that turns telemetry events into usage counts.  The relay client, the text that \<^verbatim>\<open>serde_json\<close> writes for a value
  and the value it reads from a text are parameters.
\<close>

section \<open>Data\<close>

definition TELEMETRY_EVENT_KIND :: nat where "TELEMETRY_EVENT_KIND = 26001"

definition HEALTH_EVENT_KIND :: nat where "HEALTH_EVENT_KIND = 26002"

definition MAX_EVENT_AGE_SECONDS :: u64 where "MAX_EVENT_AGE_SECONDS = 3600"

datatype BridgeAction = Bridge | IgnoreDuplicate | RejectInvalidApiKey

record 'w nostr_client =
  json_text :: "json \<Rightarrow> string"
  send_event :: "nat \<Rightarrow> string \<Rightarrow> ('w, string, string) io"

record nostr_event =
  ev_id :: string
  ev_kind :: nat
  ev_created_at :: u64
  ev_content :: string

section \<open>Connecting\<close>

text \<open>The client library: keys from a secret key, their printed form, a client with or without a signer, relays.\<close>

record 'w nostr_sdk =
  parse_keys :: "string \<Rightarrow> (string, string) result"
  to_bech32 :: "string \<Rightarrow> (string, string) result"
  build_client :: "string option \<Rightarrow> 'w nostr_client"
  add_relay :: "string \<Rightarrow> ('w, string, unit) io"
  connect_relays :: "'w \<Rightarrow> 'w"

fun add_relays :: "'w nostr_sdk \<Rightarrow> string list \<Rightarrow> ('w, string, unit) io" where
  "add_relays sdk [] = io_ok ()"
| "add_relays sdk (relay # relays) = io_try (add_relay sdk relay) (\<lambda>_. add_relays sdk relays)"

text \<open>\<^verbatim>\<open>NostrTelemetry::new\<close>; the printed public key only reaches log lines.\<close>

definition nostr_telemetry_new :: "'w nostr_sdk \<Rightarrow> string \<Rightarrow> string list \<Rightarrow> ('w, string, 'w nostr_client) io" where
  "nostr_telemetry_new sdk secret_key relays =
     (case parse_keys sdk secret_key of
        Inl _ \<Rightarrow> io_err ''Failed to parse Nostr secret key''
      | Inr keys \<Rightarrow>
          (case to_bech32 sdk keys of
             Inl _ \<Rightarrow> io_err ''Failed to encode pubkey''
           | Inr _ \<Rightarrow> io_try (add_relays sdk relays) (\<lambda>_ w. (Inr (build_client sdk (Some keys)), connect_relays sdk w))))"

definition nostr_collector_new :: "'w nostr_sdk \<Rightarrow> string list \<Rightarrow> ('w, string, 'w nostr_client) io" where
  "nostr_collector_new sdk relays =
     io_try (add_relays sdk relays) (\<lambda>_ w. (Inr (build_client sdk None), connect_relays sdk w))"

section \<open>Publishing\<close>

definition jint :: "i64 \<Rightarrow> json" where
  "jint i = (if 0 \<le> i then JNum (PosInt (nat i)) else JNum (NegInt i))"

definition now_secs :: "'w services \<Rightarrow> 'w \<Rightarrow> u64 \<times> 'w" where
  "now_secs sv w = (case utc_now sv w of (t, w') \<Rightarrow> (as_u64 (timestamp_secs t), w'))"

definition track_signature_nostr ::
  "'w nostr_client \<Rightarrow> string \<Rightarrow> string \<Rightarrow> i64 \<Rightarrow> ('w, string, string) io" where
  "track_signature_nostr nc api_key signature_hash timestamp =
     send_event nc TELEMETRY_EVENT_KIND (json_text nc (JObj
       [(''api_key'', JStr api_key), (''signature_hash'', JStr signature_hash), (''timestamp'', jint timestamp),
        (''kind'', JStr ''nexus_telemetry_v1'')]))"

definition report_health_nostr ::
  "'w services \<Rightarrow> 'w nostr_client \<Rightarrow> string \<Rightarrow> u64 \<Rightarrow> string \<Rightarrow> ('w, string, string) io" where
  "report_health_nostr sv nc status processed_height state_root =
     io_then (now_secs sv) (\<lambda>now.
     send_event nc HEALTH_EVENT_KIND (json_text nc (JObj
       [(''status'', JStr status), (''processed_height'', JNum (PosInt processed_height)),
        (''state_root'', JStr state_root), (''timestamp'', JNum (PosInt now)), (''kind'', JStr ''nexus_health_v1'')])))"

section \<open>Collecting\<close>

definition is_telemetry_kind :: "nat \<Rightarrow> bool" where
  "is_telemetry_kind k \<longleftrightarrow> k = TELEMETRY_EVENT_KIND"

text \<open>\<^verbatim>\<open>saturating_add\<close> on 64 bits.\<close>

definition is_event_fresh :: "u64 \<Rightarrow> u64 \<Rightarrow> bool" where
  "is_event_fresh created_at now \<longleftrightarrow> now \<le> min (created_at + MAX_EVENT_AGE_SECONDS) (2 ^ 64 - 1)"

definition parse_api_key_from_content :: "(string \<Rightarrow> (string, json) result) \<Rightarrow> string \<Rightarrow> (string, string) result" where
  "parse_api_key_from_content from_str content =
     res_bind (from_str content) (\<lambda>payload.
     ok_or (Option.bind (json_get ''api_key'' payload) as_str) ''Missing api_key in Nostr event'')"

definition dedup_key_for_event :: "string \<Rightarrow> string" where
  "dedup_key_for_event event_id = ''nostr_dedup:'' @ event_id"

definition determine_bridge_action :: "bool \<Rightarrow> bool \<Rightarrow> BridgeAction" where
  "determine_bridge_action is_new api_key_exists =
     (if \<not> is_new then IgnoreDuplicate else if \<not> api_key_exists then RejectInvalidApiKey else Bridge)"

text \<open>The reply of \<^verbatim>\<open>SET .. NX\<close> is decoded as the unit type, so \<^verbatim>\<open>is_new\<close> says only that the command was answered.\<close>

definition handle_telemetry_event ::
  "'w services \<Rightarrow> (string \<Rightarrow> (string, json) result) \<Rightarrow> nostr_event \<Rightarrow> ('w, string, unit) io" where
  "handle_telemetry_event sv from_str ev =
     io_then (now_secs sv) (\<lambda>now.
     if \<not> is_event_fresh (ev_created_at ev) now then io_ok ()
     else io_lift (parse_api_key_from_content from_str (ev_content ev)) (\<lambda>api_key.
       io_try (redis_connect sv) (\<lambda>_.
       io_then (redis_unit sv [''SET'', dedup_key_for_event (ev_id ev), ''1'', ''NX'', ''EX'', ''86400'']) (\<lambda>r.
       if determine_bridge_action (\<not> isl r) True = IgnoreDuplicate then io_ok ()
       else let redis_key = ''apikey:'' @ api_key in
         io_try (redis_bool sv [''EXISTS'', redis_key]) (\<lambda>exists.
         if determine_bridge_action True exists = RejectInvalidApiKey
         then io_err (''Invalid API Key in Nostr telemetry: '' @ api_key)
         else io_then (redis_u64 sv [''HINCRBY'', redis_key, ''usage'', ''1'']) (\<lambda>_. io_ok ()))))))"

text \<open>The collector loop on the notifications it receives; errors are logged and dropped.\<close>

fun collector_run :: "'w services \<Rightarrow> (string \<Rightarrow> (string, json) result) \<Rightarrow> nostr_event list \<Rightarrow> 'w \<Rightarrow> 'w" where
  "collector_run sv from_str [] w = w"
| "collector_run sv from_str (ev # evs) w =
     collector_run sv from_str evs
       (if is_telemetry_kind (ev_kind ev) then snd (handle_telemetry_event sv from_str ev w) else w)"

section \<open>Lemmas\<close>

text \<open>One relay that cannot be added is enough for the bridge not to start.\<close>

lemma add_relays_refused:
  "relay \<in> set relays \<Longrightarrow> (\<And>w. \<exists>e. fst (add_relay sdk relay w) = Inl e) \<Longrightarrow> \<exists>e. fst (add_relays sdk relays w) = Inl e"
proof (induction relays arbitrary: w)
  case (Cons x relays)
  obtain r w1 where x: "add_relay sdk x w = (r, w1)" by fastforce
  show ?case
  proof (cases r)
    case (Inr u)
    then have "relay \<noteq> x" using x Cons.prems(2) [of w] by auto
    then show ?thesis using Cons x Inr by (simp add: io_try_def)
  qed (simp add: io_try_def x)
qed simp

lemma bridge_action_simps [simp]:
  "determine_bridge_action True e = RejectInvalidApiKey \<longleftrightarrow> \<not> e"
  "determine_bridge_action n True = IgnoreDuplicate \<longleftrightarrow> \<not> n"
  by (simp_all add: determine_bridge_action_def)

text \<open>What the collector relies on besides the hashes: the reply to \<^verbatim>\<open>SET .. NX\<close> decodes as the unit type whether the
  key was set or was there before, and the key is not a hash of interest.\<close>

definition dedup_store :: "'w services \<Rightarrow> ('w \<Rightarrow> hashes) \<Rightarrow> bool" where
  "dedup_store sv hv \<longleftrightarrow> redis_hashes sv hv
     \<and> (\<forall>w. fst (redis_connect sv w) = Inr ())
     \<and> (\<forall>k w. \<exists>w'. redis_unit sv [''SET'', k, ''1'', ''NX'', ''EX'', ''86400''] w = (Inr (), w') \<and> hv w' = hv w)"

lemma now_secs_kept: "redis_hashes sv hv \<Longrightarrow> now_secs sv w = (n, w') \<Longrightarrow> hv w' = hv w"
  using redis_hashes_kept(2) [of sv hv] by (auto simp: now_secs_def dest: hash_keptD split: prod.splits)

text \<open>A fresh event with a known key adds one to the usage of that key, and to nothing else.\<close>

lemma handle_counts:
  assumes st: "dedup_store sv hv"
    and fresh: "is_event_fresh (ev_created_at ev) (fst (now_secs sv w))"
    and parsed: "parse_api_key_from_content from_str (ev_content ev) = Inr key"
    and usage: "hv w (''apikey:'' @ key) ''usage'' = Some (show_nat n)" "n < 2 ^ 63 - 1"
  shows "\<exists>w'. handle_telemetry_event sv from_str ev w = (Inr (), w')
    \<and> hv w' = (hv w)(''apikey:'' @ key := (hv w (''apikey:'' @ key))(''usage'' \<mapsto> show_nat (n + 1)))"
proof -
  from st have rh: "redis_hashes sv hv" by (simp add: dedup_store_def)
  let ?k = "''apikey:'' @ key"
  obtain now w1 where w1: "now_secs sv w = (now, w1)" "hv w1 = hv w" using now_secs_kept [OF rh] by fastforce
  obtain w2 where w2: "redis_connect sv w1 = (Inr (), w2)" "hv w2 = hv w1"
    using st hash_keptD [OF redis_hashes_kept(1) [OF rh]] unfolding dedup_store_def by (metis prod.collapse)
  obtain w3 where w3: "redis_unit sv [''SET'', dedup_key_for_event (ev_id ev), ''1'', ''NX'', ''EX'', ''86400''] w2 = (Inr (), w3)"
      "hv w3 = hv w2" using st unfolding dedup_store_def by blast
  obtain w4 where w4: "redis_bool sv [''EXISTS'', ?k] w3 = (Inr (hv w3 ?k \<noteq> Map.empty), w4)" "hv w4 = hv w3"
    using redis_exists [OF rh] by blast
  have eq: "hv w4 = hv w" using w1 w2 w3 w4 by simp
  then obtain w5 where w5: "redis_u64 sv [''HINCRBY'', ?k, ''usage'', ''1''] w4 = (Inr (n + 1), w5)"
      "hv w5 = (hv w4)(?k := (hv w4 ?k)(''usage'' \<mapsto> show_nat (n + 1)))"
    using redis_hincrby [OF rh, of w4 ?k n] usage by auto
  have ne: "hv w3 ?k \<noteq> Map.empty" using usage eq w4(2) by (metis option.simps(3))
  have "handle_telemetry_event sv from_str ev w = (Inr (), w5)"
    using fresh parsed w1(1) w2(1) w3(1) w4(1) w5(1) ne
    by (simp add: handle_telemetry_event_def Let_def)
  with w5(2) eq show ?thesis by simp
qed

section \<open>Properties\<close>

text \<open>The collector does not recognise duplicates.  Redis answers \<^verbatim>\<open>SET .. NX\<close> also when the key exists, and the code
  reads every answer as a new event; so a fresh telemetry event with a known key that is delivered \<open>m\<close> times, as happens
  with several relays, adds \<open>m\<close> to the usage of the key, and changes no other hash.\<close>

theorem collector_counts_duplicates:
  assumes "dedup_store sv hv" and "is_telemetry_kind (ev_kind ev)"
    and "\<forall>w. is_event_fresh (ev_created_at ev) (fst (now_secs sv w))"
    and "parse_api_key_from_content from_str (ev_content ev) = Inr key"
    and "hv w (''apikey:'' @ key) ''usage'' = Some (show_nat n)" and "n + m < 2 ^ 63"
  shows "hv (collector_run sv from_str (replicate m ev) w) =
    (hv w)(''apikey:'' @ key := (hv w (''apikey:'' @ key))(''usage'' \<mapsto> show_nat (n + m)))"
  using assms(5,6)
proof (induction m arbitrary: w n)
  case 0
  then show ?case by (simp add: map_upd_triv)
next
  case (Suc m)
  let ?k = "''apikey:'' @ key"
  obtain w' where w': "handle_telemetry_event sv from_str ev w = (Inr (), w')"
      "hv w' = (hv w)(?k := (hv w ?k)(''usage'' \<mapsto> show_nat (n + 1)))"
    using handle_counts [where sv = sv and hv = hv and ev = ev and w = w and from_str = from_str and key = key and n = n]
      assms(1,3,4) Suc.prems by fastforce
  have u: "hv w' ?k ''usage'' = Some (show_nat (n + 1))" by (simp only: w'(2) fun_upd_same)
  have m: "n + 1 + m = n + Suc m" "n + 1 + m < 2 ^ 63" using Suc.prems(2) by simp_all
  note Suc.IH [OF u m(2), unfolded m(1)]
  with w' assms(2) show ?case by (simp only: collector_run.simps replicate_Suc if_True snd_conv fun_upd_same fun_upd_upd)
qed

definition sample_event :: nostr_event where
  "sample_event = \<lparr>ev_id = ''e1'', ev_kind = 26001, ev_created_at = 0, ev_content = ''{}''\<rparr>"

definition sample_content :: "string \<Rightarrow> (string, json) result" where
  "sample_content s = Inr (JObj [(''api_key'', JStr ''k'')])"

theorem collector_counts_duplicates_witness:
  "map_of (collector_run hash_memory sample_content (replicate 3 sample_event)
     ((\<lambda>_. [])(''apikey:k'' := [(''usage'', ''0'')])) ''apikey:k'') ''usage'' = Some ''3''"
proof -
  have st: "dedup_store hash_memory (\<lambda>w k. map_of (w k))"
    by (simp add: dedup_store_def hash_memory_hashes) (simp add: hash_memory_def)
  have fresh: "\<forall>w. is_event_fresh (ev_created_at sample_event) (fst (now_secs hash_memory w))"
    by (simp add: is_event_fresh_def now_secs_def hash_memory_def offline_def timestamp_secs_def as_u64_def wrap_u64_def)
  have parsed: "parse_api_key_from_content sample_content (ev_content sample_event) = Inr ''k''"
    by (simp add: parse_api_key_from_content_def sample_content_def)
  have texts: "show_nat 0 = ''0''" "show_nat 3 = ''3''"
    by code_simp+
  show ?thesis
    using fun_cong [OF collector_counts_duplicates [OF st _ fresh parsed, where n = 0 and m = 3
          and w = "(\<lambda>_. [])(''apikey:k'' := [(''usage'', ''0'')])"], of "''apikey:k''"]
    by (simp add: texts is_telemetry_kind_def TELEMETRY_EVENT_KIND_def sample_event_def)
qed

end
