(* ===== verification/Billing.thy ===== *)
theory Billing
  imports Nostr Mmr
begin

text \<open>
  Licences and metering of \<^verbatim>\<open>src/api/billing/mod.rs\<close>: API keys, authenticated signature telemetry, the free tier of
  50000 signatures and the grace period of 24 hours at 40 percent.  HMAC-SHA256 (\<open>mac\<close>) and SHA-256 (\<open>H\<close>) are
  parameters; a signed difference wraps as in a release build.
\<close>

section \<open>Data\<close>

definition GRACE_PERIOD_DURATION_SECONDS :: i64 where "GRACE_PERIOD_DURATION_SECONDS = 86400"

text \<open>The single-precision value of the literal \<^verbatim>\<open>0.4\<close>.\<close>

definition GRACE_PERIOD_EFFICIENCY :: rat where "GRACE_PERIOD_EFFICIENCY = 13421773 / 33554432"

definition MAX_ORGANIZATION_ID_LEN :: nat where "MAX_ORGANIZATION_ID_LEN = 128"

definition FREE_TIER_SIGNATURE_LIMIT :: u64 where "FREE_TIER_SIGNATURE_LIMIT = 50000"

record GenerateKeyRequest =
  gk_organization_id :: string
  gk_developer_email :: string
  gk_project_name :: string

record GenerateKeyResponse =
  gr_api_key :: string
  gr_api_secret :: string
  gr_status :: string
  gr_grace_period_remaining :: "i64 option"
  gr_efficiency :: "rat option"

record TelemetryRequest =
  tr_api_key :: string
  tr_signature_hash :: string
  tr_timestamp :: i64
  tr_hmac :: string

record TelemetryResponse =
  current_usage :: u64
  limit :: u64
  tel_status :: string
  grace_period_remaining :: "i64 option"
  efficiency :: "rat option"

datatype GraceStatus = GraceActive i64 bool | Expired

datatype TelemetryAuthError = InvalidApiKey | InvalidHmac

datatype QuotaDecision =
    WithinLimit
  | GraceAllowed "i64 option"
  | GraceThrottled i64
  | GraceExpired

section \<open>Decisions\<close>

definition determine_grace_status :: "i64 \<Rightarrow> i64 \<Rightarrow> rat \<Rightarrow> GraceStatus" where
  "determine_grace_status now grace_start roll =
     (let elapsed = wrap_i64 (now - grace_start) in
      if elapsed < GRACE_PERIOD_DURATION_SECONDS
      then GraceActive (wrap_i64 (GRACE_PERIOD_DURATION_SECONDS - elapsed)) (roll \<le> GRACE_PERIOD_EFFICIENCY)
      else Expired)"

definition validate_telemetry_auth ::
  "(bytes \<Rightarrow> bytes \<Rightarrow> bytes) \<Rightarrow> (string \<times> string) list \<Rightarrow> TelemetryRequest \<Rightarrow> (TelemetryAuthError, unit) result" where
  "validate_telemetry_auth mac data req =
     (if data = [] then Inl InvalidApiKey
      else let secret = (case map_of data ''secret'' of Some s \<Rightarrow> s | None \<Rightarrow> []);
               message = tr_signature_hash req @ '':'' @ show_int (tr_timestamp req) in
        case hex_decode (tr_hmac req) of
          None \<Rightarrow> Inl InvalidHmac
        | Some received \<Rightarrow>
            if received = mac (as_bytes secret) (as_bytes message) then Inr () else Inl InvalidHmac)"

definition evaluate_quota_decision :: "u64 \<Rightarrow> i64 \<Rightarrow> i64 option \<Rightarrow> rat \<Rightarrow> QuotaDecision" where
  "evaluate_quota_decision new_usage now grace_start roll =
     (if new_usage \<le> FREE_TIER_SIGNATURE_LIMIT then WithinLimit
      else let (start, to_set) = (case grace_start of Some s \<Rightarrow> (s, None) | None \<Rightarrow> (now, Some now)) in
        case determine_grace_status now start roll of
          GraceActive remaining allowed \<Rightarrow> if allowed then GraceAllowed to_set else GraceThrottled remaining
        | Expired \<Rightarrow> GraceExpired)"

section \<open>Handlers\<close>

definition generate_developer_key ::
  "'w services \<Rightarrow> hasher \<Rightarrow> GenerateKeyRequest \<Rightarrow> 'w \<Rightarrow> GenerateKeyResponse reply \<times> 'w" where
  "generate_developer_key sv H req =
     (let organization_id = trim (gk_organization_id req) in
      if organization_id = [] \<or> MAX_ORGANIZATION_ID_LEN < length organization_id
      then Pair (Text 400 ''Invalid organization_id'')
      else io_then (random_bytes32 sv) (\<lambda>raw_key.
        io_then (random_bytes32 sv) (\<lambda>raw_secret.
        let api_key = ''cxl_'' @ hex_encode (H raw_key); api_secret = hex_encode (H raw_secret) in
        io_then (redis_connect sv) (\<lambda>conn.
        if isl conn then Pair (Text 500 ''Redis Error'')
        else io_then (redis_unit sv [''HSET'', ''apikey:'' @ api_key, ''org_id'', organization_id,
               ''email'', gk_developer_email req, ''project'', gk_project_name req, ''secret'', api_secret,
               ''usage'', ''0'']) (\<lambda>_.
             Pair (Body 200 \<lparr>gr_api_key = api_key, gr_api_secret = api_secret,
               gr_status = ''Key Generated. Free Tier: 50,000 Signatures'',
               gr_grace_period_remaining = None, gr_efficiency = None\<rparr>))))))"

text \<open>The quota decision with the values read for it.\<close>

definition read_quota :: "'w services \<Rightarrow> string \<Rightarrow> u64 \<Rightarrow> 'w \<Rightarrow> QuotaDecision \<times> 'w" where
  "read_quota sv redis_key new_usage =
     (if new_usage \<le> FREE_TIER_SIGNATURE_LIMIT then Pair WithinLimit
      else io_then (utc_now sv) (\<lambda>t.
        io_then (redis_opt_i64 sv [''HGET'', redis_key, ''grace_period_start'']) (\<lambda>grace_start.
        io_then (random_f32 sv) (\<lambda>roll.
        Pair (evaluate_quota_decision new_usage (timestamp_secs t) (or_else grace_start None) roll)))))"

definition tel_ok :: "u64 \<Rightarrow> TelemetryResponse reply" where
  "tel_ok new_usage = Body 200 \<lparr>current_usage = new_usage, limit = FREE_TIER_SIGNATURE_LIMIT, tel_status = ''OK'',
     grace_period_remaining = None, efficiency = None\<rparr>"

definition answer_quota :: "'w services \<Rightarrow> string \<Rightarrow> u64 \<Rightarrow> QuotaDecision \<Rightarrow> 'w \<Rightarrow> TelemetryResponse reply \<times> 'w" where
  "answer_quota sv redis_key new_usage d =
     (case d of
        WithinLimit \<Rightarrow> Pair (tel_ok new_usage)
      | GraceAllowed None \<Rightarrow> Pair (tel_ok new_usage)
      | GraceAllowed (Some start) \<Rightarrow>
          io_then (redis_unit sv [''HSET'', redis_key, ''grace_period_start'', show_int start]) (\<lambda>_. Pair (tel_ok new_usage))
      | GraceThrottled remaining \<Rightarrow>
          Pair (Body 402 \<lparr>current_usage = new_usage, limit = FREE_TIER_SIGNATURE_LIMIT, tel_status = ''THROTTLED'',
            grace_period_remaining = Some remaining, efficiency = Some GRACE_PERIOD_EFFICIENCY\<rparr>)
      | GraceExpired \<Rightarrow> Pair (Text 403 ''License Expired''))"

definition track_signature ::
  "'w services \<Rightarrow> (bytes \<Rightarrow> bytes \<Rightarrow> bytes) \<Rightarrow> 'w nostr_client option \<Rightarrow> TelemetryRequest
     \<Rightarrow> 'w \<Rightarrow> TelemetryResponse reply \<times> 'w" where
  "track_signature sv mac nostr req =
     io_then (redis_connect sv) (\<lambda>conn.
     if isl conn then Pair (Status 500)
     else let redis_key = ''apikey:'' @ tr_api_key req in
       io_then (redis_map sv [''HGETALL'', redis_key]) (\<lambda>data.
       case validate_telemetry_auth mac (or_else data []) req of
         Inl InvalidApiKey \<Rightarrow> Pair (Text 401 ''Invalid API Key'')
       | Inl InvalidHmac \<Rightarrow> Pair (Text 401 ''Invalid HMAC'')
       | Inr _ \<Rightarrow>
           io_then (case nostr of
                      None \<Rightarrow> Pair ()
                    | Some nc \<Rightarrow> (\<lambda>w. ((), snd (track_signature_nostr nc (tr_api_key req) (tr_signature_hash req)
                                               (tr_timestamp req) w)))) (\<lambda>_.
           io_then (redis_u64 sv [''HINCRBY'', redis_key, ''usage'', ''1'']) (\<lambda>usage.
           let new_usage = or_else usage 0 in
           io_then (read_quota sv redis_key new_usage) (\<lambda>d. answer_quota sv redis_key new_usage d)))))"

section \<open>Lemmas\<close>

lemma telemetry_auth_iff:
  assumes "map_of data = m" and "m \<noteq> Map.empty"
  shows "validate_telemetry_auth mac data req = Inr () \<longleftrightarrow>
    hex_decode (tr_hmac req) = Some (mac (as_bytes (case m ''secret'' of Some s \<Rightarrow> s | None \<Rightarrow> []))
      (as_bytes (tr_signature_hash req @ '':'' @ show_int (tr_timestamp req))))"
  using assms by (auto simp: validate_telemetry_auth_def Let_def split: option.splits)

text \<open>What is left of a quota decision once it has been answered.\<close>

definition quota_outcome ::
  "u64 \<Rightarrow> i64 \<Rightarrow> i64 option \<Rightarrow> rat \<Rightarrow> nat \<times> i64 option" where
  "quota_outcome new_usage now gs roll =
     (let start = (case gs of None \<Rightarrow> now | Some s \<Rightarrow> s); live = wrap_i64 (now - start) < 86400 in
      if new_usage \<le> 50000 then (200, gs)
      else if live \<and> roll \<le> GRACE_PERIOD_EFFICIENCY then (200, Some start)
      else (if live then 402 else 403, gs))"

lemma answer_quota_outcome:
  assumes rh: "redis_hashes sv hv" and gs: "hv w k ''grace_period_start'' = map_option show_int gs"
    and run: "answer_quota sv k u (evaluate_quota_decision u now gs roll) w = (rep, w')"
    and out: "quota_outcome u now gs roll = (status, gs')"
  shows "reply_status rep = status
    \<and> hv w' = (hv w)(k := (hv w k)(''grace_period_start'' := map_option show_int gs'))"
proof -
  have keep: "(hv w)(k := (hv w k)(''grace_period_start'' := map_option show_int gs)) = hv w"
    by (simp flip: gs)
  obtain w1 where w1: "redis_unit sv [''HSET'', k, ''grace_period_start'', show_int now] w = (Inr (), w1)"
      "hv w1 = (hv w)(k := (hv w k)(''grace_period_start'' \<mapsto> show_int now))"
    using redis_hset [OF rh, of k "[''grace_period_start'', show_int now]" w] by auto
  show ?thesis
    using run out keep w1
    by (cases gs) (auto simp: answer_quota_def evaluate_quota_decision_def determine_grace_status_def quota_outcome_def
        GRACE_PERIOD_DURATION_SECONDS_def FREE_TIER_SIGNATURE_LIMIT_def tel_ok_def Let_def split: if_splits)
qed

text \<open>Reading the decision: the clock and the roll are those of the services, and no hash changes.\<close>

lemma read_quota_runs:
  assumes rh: "redis_hashes sv hv" and gs: "hv w k ''grace_period_start'' = map_option show_int gs"
  shows "\<exists>v v' w'. read_quota sv k u w
      = (evaluate_quota_decision u (timestamp_secs (fst (utc_now sv v))) gs (fst (random_f32 sv v')), w') \<and> hv w' = hv w"
proof (cases "u \<le> FREE_TIER_SIGNATURE_LIMIT")
  case True
  then show ?thesis by (simp add: read_quota_def evaluate_quota_decision_def)
next
  case False
  obtain t w1 where w1: "utc_now sv w = (t, w1)" by fastforce
  then have k1: "hv w1 = hv w" by (rule hash_keptD [OF redis_hashes_kept(2) [OF rh]])
  then obtain w2 where w2: "redis_opt_i64 sv [''HGET'', k, ''grace_period_start''] w1 = (Inr gs, w2)" "hv w2 = hv w"
    using redis_hget [OF rh, of w1 k "''grace_period_start''" gs] gs by auto
  obtain roll w3 where w3: "random_f32 sv w2 = (roll, w3)" by fastforce
  then have "hv w3 = hv w2" by (rule hash_keptD [OF redis_hashes_kept(3) [OF rh]])
  with False w1 w2 w3 show ?thesis
    by (intro exI [of _ w] exI [of _ w2] exI [of _ w3]) (simp add: read_quota_def)
qed

definition authentic :: "(bytes \<Rightarrow> bytes \<Rightarrow> bytes) \<Rightarrow> (string \<rightharpoonup> string) \<Rightarrow> TelemetryRequest \<Rightarrow> bool" where
  "authentic mac m req \<longleftrightarrow>
     hex_decode (tr_hmac req) = Some (mac (as_bytes (case m ''secret'' of Some s \<Rightarrow> s | None \<Rightarrow> []))
       (as_bytes (tr_signature_hash req @ '':'' @ show_int (tr_timestamp req))))"

lemma telemetry_auth_authentic:
  assumes "map_of data = m" and "m \<noteq> Map.empty"
  shows "validate_telemetry_auth mac data req = Inr () \<longleftrightarrow> authentic mac m req"
  using telemetry_auth_iff [OF assms] by (simp add: authentic_def)

text \<open>The way of a telemetry request: refused, or counted and then answered by the quota decision.\<close>

lemma track_signature_runs:
  assumes rh: "redis_hashes sv hv" and conn: "\<forall>w. fst (redis_connect sv w) = Inr ()"
    and nost: "\<forall>nc kind text. nostr = Some nc \<longrightarrow> hash_kept hv (send_event nc kind text)"
    and k: "k = ''apikey:'' @ tr_api_key req"
    and usage: "hv w k ''usage'' = Some (show_nat n)" "n < 2 ^ 63 - 1"
    and gs: "hv w k ''grace_period_start'' = map_option show_int gs"
  shows "if authentic mac (hv w k) req
    then \<exists>v v' w'. track_signature sv mac nostr req w = answer_quota sv k (n + 1) (evaluate_quota_decision (n + 1)
             (timestamp_secs (fst (utc_now sv v))) gs (fst (random_f32 sv v'))) w'
           \<and> hv w' = (hv w)(k := (hv w k)(''usage'' \<mapsto> show_nat (n + 1)))
    else \<exists>e w'. track_signature sv mac nostr req w = (Text 401 e, w') \<and> hv w' = hv w"
proof -
  obtain w1 where w1: "redis_connect sv w = (Inr (), w1)" "hv w1 = hv w"
    using conn hash_keptD [OF redis_hashes_kept(1) [OF rh]] by (metis prod.collapse)
  obtain data w2 where w2: "redis_map sv [''HGETALL'', k] w1 = (Inr data, w2)" "map_of data = hv w1 k" "hv w2 = hv w1"
    using redis_hgetall [OF rh] by blast
  have ne: "hv w k \<noteq> Map.empty" using usage(1) by (metis option.simps(3))
  have auth: "validate_telemetry_auth mac data req = Inr () \<longleftrightarrow> authentic mac (hv w k) req"
    using telemetry_auth_authentic [of data "hv w k"] ne w1(2) w2(2) by simp
  show ?thesis
  proof (cases "authentic mac (hv w k) req")
    case False
    with auth w1 w2 k show ?thesis
      by (auto simp: track_signature_def Let_def split: sum.splits TelemetryAuthError.splits)
  next
    case True
    define pub where "pub = (case nostr of None \<Rightarrow> Pair () | Some nc \<Rightarrow> (\<lambda>w. ((), snd (track_signature_nostr nc
        (tr_api_key req) (tr_signature_hash req) (tr_timestamp req) w))))"
    obtain w3 where w3: "pub w2 = ((), w3)" by (cases "pub w2") simp
    then have k3: "hv w3 = hv w"
      using nost w1(2) w2(3) by (auto simp: pub_def track_signature_nostr_def hash_kept_def split: option.splits)
    then obtain w4 where w4: "redis_u64 sv [''HINCRBY'', k, ''usage'', ''1''] w3 = (Inr (n + 1), w4)"
        "hv w4 = (hv w)(k := (hv w k)(''usage'' \<mapsto> show_nat (n + 1)))"
      using redis_hincrby [OF rh, of w3 k n] usage by auto
    then obtain v v' w5 where w5: "read_quota sv k (n + 1) w4 = (evaluate_quota_decision (n + 1)
        (timestamp_secs (fst (utc_now sv v))) gs (fst (random_f32 sv v')), w5)" "hv w5 = hv w4"
      using read_quota_runs [OF rh, of w4 k gs "n + 1"] gs by auto
    then have "track_signature sv mac nostr req w = answer_quota sv k (n + 1) (evaluate_quota_decision (n + 1)
        (timestamp_secs (fst (utc_now sv v))) gs (fst (random_f32 sv v'))) w5"
      using w1(1) w2(1) w3 w4(1) auth True
      unfolding track_signature_def pub_def [symmetric] k [symmetric] by (simp add: Let_def)
    with w4(2) w5(2) True show ?thesis by auto
  qed
qed

text \<open>A new key holds its secret and an unused counter.\<close>

lemma generate_developer_key_stores:
  assumes rh: "redis_hashes sv hv" and run: "generate_developer_key sv H req w = (Body st resp, w')"
    and fresh: "hv w (''apikey:'' @ gr_api_key resp) = Map.empty"
  shows "hv w' (''apikey:'' @ gr_api_key resp) = [''org_id'' \<mapsto> trim (gk_organization_id req),
      ''email'' \<mapsto> gk_developer_email req, ''project'' \<mapsto> gk_project_name req, ''secret'' \<mapsto> gr_api_secret resp,
      ''usage'' \<mapsto> ''0'']"
proof -
  obtain b1 w1 where w1: "random_bytes32 sv w = (b1, w1)" by fastforce
  obtain b2 w2 where w2: "random_bytes32 sv w1 = (b2, w2)" by fastforce
  obtain c w3 where w3: "redis_connect sv w2 = (c, w3)" by fastforce
  have k: "hv w3 = hv w"
    using hash_keptD [OF redis_hashes_kept(4) [OF rh] w1] hash_keptD [OF redis_hashes_kept(4) [OF rh] w2]
      hash_keptD [OF redis_hashes_kept(1) [OF rh] w3] by simp
  obtain w4 where w4: "redis_unit sv (''HSET'' # (''apikey:'' @ gr_api_key resp) # [''org_id'', trim (gk_organization_id req),
      ''email'', gk_developer_email req, ''project'', gk_project_name req, ''secret'', gr_api_secret resp, ''usage'', ''0'']) w3
        = (Inr (), w4)"
      "hv w4 = (hv w3)(''apikey:'' @ gr_api_key resp := hset [''org_id'', trim (gk_organization_id req),
      ''email'', gk_developer_email req, ''project'', gk_project_name req, ''secret'', gr_api_secret resp, ''usage'', ''0'']
        (hv w3 (''apikey:'' @ gr_api_key resp)))"
    using redis_hset [OF rh] by blast
  have "w' = w4"
    using run w1 w2 w3 w4(1) by (auto simp: generate_developer_key_def Let_def io_then_def split: if_splits prod.splits)
  with w4(2) k fresh show ?thesis by simp
qed

section \<open>Properties\<close>

text \<open>C23: Telemetry on a registered key, while Redis answers.  Without the MAC over the signature hash and the time stamp under the secret of the
  key the answer is 401 and no hash changes.  With it the usage counter of the key, and of no other, grows by one, and the
  answer is 200 up to 50000 signatures.  Beyond that, counting from the recorded start of the grace period, or from now when
  none is recorded: after 24 hours the answer is 403, within them it is 200 with the start recorded when the roll is at most
  0.4, and 402 otherwise, which leaves a grace period that has not begun unrecorded.\<close>

theorem track_signature_meters:
  assumes rh: "redis_hashes sv hv" and conn: "\<forall>w. fst (redis_connect sv w) = Inr ()"
    and nost: "\<forall>nc kind text. nostr = Some nc \<longrightarrow> hash_kept hv (send_event nc kind text)"
    and k: "k = ''apikey:'' @ tr_api_key req"
    and usage: "hv w k ''usage'' = Some (show_nat n)" "n < 2 ^ 63 - 1"
    and gs: "hv w k ''grace_period_start'' = map_option show_int gs"
    and run: "track_signature sv mac nostr req w = (rep, w')"
  shows "if authentic mac (hv w k) req
    then \<exists>v v' gs'. quota_outcome (n + 1) (timestamp_secs (fst (utc_now sv v))) gs (fst (random_f32 sv v'))
             = (reply_status rep, gs')
           \<and> hv w' = (hv w)(k := (hv w k)(''usage'' \<mapsto> show_nat (n + 1), ''grace_period_start'' := map_option show_int gs'))
    else reply_status rep = 401 \<and> hv w' = hv w"
proof (cases "authentic mac (hv w k) req")
  case False
  then show ?thesis using track_signature_runs [where sv = sv and hv = hv and nostr = nostr and k = k and req = req and w = w and n = n
        and gs = gs and mac = mac, OF rh conn nost k usage gs] run by auto
next
  case True
  then obtain v v' w5 where w5: "answer_quota sv k (n + 1) (evaluate_quota_decision (n + 1)
        (timestamp_secs (fst (utc_now sv v))) gs (fst (random_f32 sv v'))) w5 = (rep, w')"
      "hv w5 = (hv w)(k := (hv w k)(''usage'' \<mapsto> show_nat (n + 1)))"
    using track_signature_runs [where sv = sv and hv = hv and nostr = nostr and k = k and req = req and w = w and n = n
        and gs = gs and mac = mac, OF rh conn nost k usage gs] run by auto
  obtain status gs' where out: "quota_outcome (n + 1) (timestamp_secs (fst (utc_now sv v))) gs (fst (random_f32 sv v'))
      = (status, gs')" by fastforce
  have "hv w5 k ''grace_period_start'' = map_option show_int gs" using w5(2) gs by simp
  note ans = answer_quota_outcome [OF rh this w5(1) out]
  then have "hv w' = (hv w)(k := (hv w k)(''usage'' \<mapsto> show_nat (n + 1), ''grace_period_start'' := map_option show_int gs'))"
    by (simp only: w5(2) fun_upd_same fun_upd_upd)
  moreover from ans out have "quota_outcome (n + 1) (timestamp_secs (fst (utc_now sv v))) gs (fst (random_f32 sv v'))
      = (reply_status rep, gs')" by simp
  ultimately show ?thesis using True by (simp only: if_True) blast
qed

definition sample_telemetry :: TelemetryRequest where
  "sample_telemetry = \<lparr>tr_api_key = ''k'', tr_signature_hash = ''s'', tr_timestamp = 7, tr_hmac = ''00''\<rparr>"

definition sample_keys :: "nat \<Rightarrow> hash_world" where
  "sample_keys n = (\<lambda>_. [])(''apikey:k'' := [(''secret'', ''x''), (''usage'', show_nat n)])"

theorem track_signature_meters_witness:
  "reply_status (fst (track_signature hash_memory (\<lambda>_ _. [0]) None sample_telemetry (sample_keys 50000))) = 200
   \<and> reply_status (fst (track_signature hash_memory (\<lambda>_ _. [1]) None sample_telemetry (sample_keys 50000))) = 401"
proof -
  have conn: "\<forall>w. fst (redis_connect hash_memory w) = Inr ()" by (simp add: hash_memory_def)
  have h: "hex_decode ''00'' = Some [0]" by (simp add: hex_val_def)
  have dev: "utc_now hash_memory v = (0, v)" "random_f32 hash_memory v = (0, v)" for v
    by (simp_all add: hash_memory_def offline_def)
  obtain r1 w1 where r1: "track_signature hash_memory (\<lambda>_ _. [0]) None sample_telemetry (sample_keys 50000) = (r1, w1)"
    by fastforce
  obtain r2 w2 where r2: "track_signature hash_memory (\<lambda>_ _. [1]) None sample_telemetry (sample_keys 50000) = (r2, w2)"
    by fastforce
  note meters = track_signature_meters [OF hash_memory_hashes conn, where k = "''apikey:k''" and n = 50000 and gs = None
      and w = "sample_keys 50000" and req = sample_telemetry and nostr = None]
  have "reply_status r1 = 200"
    using meters [OF _ _ _ _ _ r1] h
    by (simp add: sample_keys_def sample_telemetry_def authentic_def dev quota_outcome_def timestamp_secs_def
        wrap_i64_def GRACE_PERIOD_EFFICIENCY_def)
  moreover have "reply_status r2 = 401"
    using meters [OF _ _ _ _ _ r2] h by (simp add: sample_keys_def sample_telemetry_def authentic_def)
  ultimately show ?thesis using r1 r2 by simp
qed



end
