(* ===== verification/Admin.thy ===== *)
theory Admin
  imports Nexus_Config Safety Mmr "HOL-Library.AList"
begin

text \<open>
  Administration and agent credentials of \<^verbatim>\<open>src/api/admin.rs\<close>: bearer tokens, scopes, the dual-signature
  requests, registration of agents and the claim ceremony, and the read-only endpoints.  The two global maps are the
  association lists of \<open>admin_state\<close>; their order stands for the iteration order of the hash maps.  The ECDSA types of
  the \<^verbatim>\<open>k256\<close> crate, the formatting of a time and the build mode are the fields of \<open>admin_env\<close>.
\<close>

section \<open>Data\<close>

record RegistrationRecord =
  rr_registration_id :: string
  rr_registration_type :: string
  rr_claim_token_hash :: string
  rr_claim_view_token :: string
  rr_otp_hash :: string
  rr_otp_plaintext :: string
  rr_requested_credential_type :: string
  rr_credential :: "string option"
  rr_pre_claim_scopes :: "string list"
  rr_post_claim_scopes :: "string list"
  rr_email :: "string option"
  rr_claimed :: bool
  rr_claim_token_expires_at :: string

record CredentialRecord =
  cr_registration_id :: string
  cr_scopes :: "string list"
  cr_revoked :: bool

record ReleaseApprovalRequest =
  ra_artifact_id :: string
  ra_requested_by :: string
  ra_second_approver :: "string option"
  ra_signatures :: "string list option"
  ra_notes :: "string option"

record ReleaseDecisionRequest =
  rd_second_approver :: "string option"
  rd_signatures :: "string list option"
  rd_artifact_id :: string
  rd_decision :: string
  rd_actor_id :: string
  rd_notes :: "string option"

record GovernanceDecisionRequest =
  gd_second_approver :: "string option"
  gd_signatures :: "string list option"
  gd_action_id :: string
  gd_decision :: string
  gd_actor_id :: string
  gd_notes :: "string option"

record AdminLoginRequest =
  al_session_name :: string
  al_signatures :: "string list option"
  al_second_approver :: "string option"

record RegistrationRequest =
  rq_registration_type :: string
  rq_credential_type :: string
  rq_scopes :: "string list"
  rq_post_claim_scopes :: "string list"

record ClaimRequest =
  cq_claim_token :: string
  cq_email :: string

record ClaimCompleteRequest =
  cc_claim_token :: string
  cc_otp :: string

record admin_state =
  registrations :: "(string \<times> RegistrationRecord) list"
  credentials :: "(string \<times> CredentialRecord) list"

datatype admin_body = JsonBody json | HtmlBody string

text \<open>A response: status, body, and the challenge of the \<^verbatim>\<open>WWW-Authenticate\<close> header.\<close>

record admin_response =
  ar_status :: nat
  ar_body :: admin_body
  ar_challenge :: "string option"

record ('s, 'k) admin_env =
  debug_assertions :: bool
  format_time :: "time \<Rightarrow> string"
  sig_from_der :: "bytes \<Rightarrow> 's option"
  vk_from_sec1 :: "bytes \<Rightarrow> 'k option"
  vk_verify :: "'k \<Rightarrow> bytes \<Rightarrow> 's \<Rightarrow> bool"

text \<open>The headers in use that are present and printable.\<close>

type_synonym headers = "string \<Rightarrow> string option"

type_synonym 'w admin_handler = "admin_state \<times> 'w \<Rightarrow> admin_response \<times> (admin_state \<times> 'w)"

definition empty_admin :: admin_state where
  "empty_admin = \<lparr>registrations = [], credentials = []\<rparr>"

section \<open>Responses and tokens\<close>

definition json_reply :: "nat \<Rightarrow> (string \<times> json) list \<Rightarrow> admin_response" where
  "json_reply status kvs = \<lparr>ar_status = status, ar_body = JsonBody (JObj kvs), ar_challenge = None\<rparr>"

definition with_world :: "('w \<Rightarrow> 'r \<times> 'w) \<Rightarrow> admin_state \<times> 'w \<Rightarrow> 'r \<times> (admin_state \<times> 'w)" where
  "with_world m = (\<lambda>(st, w). case m w of (r, w') \<Rightarrow> (r, (st, w')))"

text \<open>The \<^verbatim>\<open>?\<close> on a check that fails with a response.\<close>

definition guard :: "(admin_response, 'a) result \<Rightarrow> ('a \<Rightarrow> 'w admin_handler) \<Rightarrow> 'w admin_handler" where
  "guard r k z = (case r of Inl e \<Rightarrow> (e, z) | Inr x \<Rightarrow> k x z)"

definition hash_value :: "hasher \<Rightarrow> string \<Rightarrow> string" where
  "hash_value H v = hex_encode (H (as_bytes v))"

definition uuid_simple :: "string \<Rightarrow> string" where
  "uuid_simple u = filter (\<lambda>c. c \<noteq> CHR ''-'') u"

definition issue :: "'w services \<Rightarrow> string \<Rightarrow> 'w \<Rightarrow> string \<times> 'w" where
  "issue sv prefix w = (case new_uuid sv w of (u, w') \<Rightarrow> (prefix @ uuid_simple u, w'))"

definition uuid_u128 :: "string \<Rightarrow> nat" where
  "uuid_u128 u = foldl (\<lambda>acc c. 16 * acc + (case hex_val c of Some d \<Rightarrow> d | None \<Rightarrow> 0)) 0 (uuid_simple u)"

definition issue_otp :: "'w services \<Rightarrow> 'w \<Rightarrow> string \<times> 'w" where
  "issue_otp sv w =
     (case new_uuid sv w of (u, w') \<Rightarrow>
        let digits = show_nat (uuid_u128 u mod 1000000) in (replicate (6 - length digits) CHR ''0'' @ digits, w'))"

definition service_base :: "headers \<Rightarrow> string" where
  "service_base hs =
     (case hs ''x-forwarded-proto'' of Some p \<Rightarrow> p | None \<Rightarrow> ''http'') @ ''://''
     @ (case hs ''host'' of Some h \<Rightarrow> h | None \<Rightarrow> ''localhost:3000'')"

definition bearer_unauthorized_response :: "headers \<Rightarrow> string \<Rightarrow> admin_response" where
  "bearer_unauthorized_response hs description =
     (let q = [CHR 0x22] in
      \<lparr>ar_status = 401,
       ar_body = JsonBody (JObj [(''error'', JStr ''invalid_token''), (''error_description'', JStr description)]),
       ar_challenge = Some (''Bearer realm='' @ q @ ''Conxian Nexus Admin'' @ q
         @ '', scope='' @ q @ ''api.read api.write admin.write'' @ q
         @ '', error='' @ q @ ''invalid_token'' @ q @ '', error_description='' @ q @ description @ q
         @ '', resource_metadata='' @ q @ service_base hs @ ''/.well-known/oauth-protected-resource'' @ q)\<rparr>)"

definition unauthorized_response :: "headers \<Rightarrow> admin_response" where
  "unauthorized_response hs = bearer_unauthorized_response hs ''Agent or admin credential required''"

definition admin_token_not_configured_response :: admin_response where
  "admin_token_not_configured_response = json_reply 503
     [(''error'', JStr ''admin_api_token_not_configured''),
      (''error_description'', JStr ''NEXUS_ADMIN_API_TOKEN environment variable must be set to access admin routes.'')]"

definition bearer_token :: "headers \<Rightarrow> string option" where
  "bearer_token hs = Option.bind (hs ''authorization'') (\<lambda>v. strip_prefix v ''Bearer '')"

section \<open>Authorisation\<close>

definition pool_grants :: "(string \<times> CredentialRecord) list \<Rightarrow> string \<Rightarrow> string \<Rightarrow> string list option" where
  "pool_grants creds token scope =
     (case map_of creds token of
        Some r \<Rightarrow> if \<not> cr_revoked r \<and> scope \<in> set (cr_scopes r) then Some (cr_scopes r) else None
      | None \<Rightarrow> None)"

definition authorize_admin_write ::
  "Config \<Rightarrow> (string \<times> CredentialRecord) list \<Rightarrow> headers \<Rightarrow> (admin_response, unit) result" where
  "authorize_admin_write cfg creds hs =
     (case bearer_token hs of
        None \<Rightarrow> Inl (bearer_unauthorized_response hs ''Admin API token required'')
      | Some token \<Rightarrow>
          if pool_grants creds token ''admin.write'' \<noteq> None then Inr ()
          else (case admin_api_token cfg of
                  None \<Rightarrow> Inl admin_token_not_configured_response
                | Some expected \<Rightarrow>
                    if token = expected then Inr ()
                    else Inl (bearer_unauthorized_response hs ''Invalid admin API token'')))"

definition all_scopes :: "string list" where
  "all_scopes = [''admin.write'', ''api.read'', ''api.write'']"

definition authorize_for_scope ::
  "Config \<Rightarrow> (string \<times> CredentialRecord) list \<Rightarrow> headers \<Rightarrow> string \<Rightarrow> (admin_response, string list) result" where
  "authorize_for_scope cfg creds hs scope =
     (case bearer_token hs of
        None \<Rightarrow> Inl (unauthorized_response hs)
      | Some token \<Rightarrow>
          (case pool_grants creds token scope of
             Some scopes \<Rightarrow> Inr scopes
           | None \<Rightarrow> if admin_api_token cfg = Some token then Inr all_scopes else Inl (unauthorized_response hs)))"

section \<open>Dual signatures\<close>

text \<open>Whether one submitted text is a signature of the message under some configured key.\<close>

definition signature_verified :: "('s, 'k) admin_env \<Rightarrow> string list \<Rightarrow> string \<Rightarrow> string \<Rightarrow> bool" where
  "signature_verified ae keys msg sig_hex =
     (case Option.bind (hex_decode sig_hex) (sig_from_der ae) of
        None \<Rightarrow> False
      | Some s \<Rightarrow> list_ex (\<lambda>pk_hex. case Option.bind (hex_decode pk_hex) (vk_from_sec1 ae) of
            None \<Rightarrow> False
          | Some vk \<Rightarrow> vk_verify ae vk (as_bytes msg) s) keys)"

definition validate_dual_signature ::
  "('s, 'k) admin_env \<Rightarrow> Config \<Rightarrow> string list option \<Rightarrow> string \<Rightarrow> (admin_response, unit) result" where
  "validate_dual_signature ae cfg sigs msg =
     (let unique = remdups (case sigs of Some s \<Rightarrow> s | None \<Rightarrow> []) in
      if length unique < 2 then
        Inl (json_reply 403 [(''error'', JStr ''insufficient_approvals''),
          (''message'', JStr (''At least two unique cryptographic signatures are required for this action. Found: ''
             @ show_nat (length unique)))])
      else if admin_public_keys cfg = [] then
        if debug_assertions ae then Inr ()
        else Inl (json_reply 500 [(''error'', JStr ''misconfigured''), (''message'', JStr ''ADMIN_PUBLIC_KEYS not configured.'')])
      else
        let verified_count = length (filter (signature_verified ae (admin_public_keys cfg) msg) unique) in
        if verified_count < 2 then
          Inl (json_reply 401 [(''error'', JStr ''cryptographic_verification_failed''),
            (''message'', JStr (''Only '' @ show_nat verified_count
               @ '' of 2 required signatures verified against trusted admin_public_keys (NIP-004).''))])
        else Inr ())"

definition release_approval_message :: "ReleaseApprovalRequest \<Rightarrow> string" where
  "release_approval_message r = ''approve_release:'' @ ra_artifact_id r @ '':'' @ ra_requested_by r"

definition release_decision_message :: "ReleaseDecisionRequest \<Rightarrow> string" where
  "release_decision_message r = ''release_decision:'' @ rd_artifact_id r @ '':'' @ rd_decision r @ '':'' @ rd_actor_id r"

definition governance_decision_message :: "GovernanceDecisionRequest \<Rightarrow> string" where
  "governance_decision_message r = ''governance_decision:'' @ gd_action_id r @ '':'' @ gd_decision r @ '':'' @ gd_actor_id r"

definition admin_login_message :: "AdminLoginRequest \<Rightarrow> string" where
  "admin_login_message r = ''admin_login:'' @ al_session_name r"

section \<open>Signed messages\<close>

text \<open>The trait \<^verbatim>\<open>DualSignatureRequest\<close>: a message is its kind, a colon and the rest, so the kinds keep the messages of
  different requests apart.\<close>

locale dual_signature_request =
  fixes kind :: string and message :: "'r \<Rightarrow> string"
  assumes kind_plain: "CHR '':'' \<notin> set kind"
    and prefixed: "\<exists>rest. message r = kind @ '':'' @ rest"
begin

lemma kind_of_message: "takeWhile (\<lambda>c. c \<noteq> CHR '':'') (message r) = kind"
  using prefixed [of r] kind_plain by (auto simp: takeWhile_append)

lemma differs: "takeWhile (\<lambda>c. c \<noteq> CHR '':'') m \<noteq> kind \<Longrightarrow> message r \<noteq> m"
  using kind_of_message by metis

end

interpretation approval: dual_signature_request "''approve_release''" release_approval_message
  by unfold_locales (simp_all add: release_approval_message_def)

interpretation decision: dual_signature_request "''release_decision''" release_decision_message
  by unfold_locales (simp_all add: release_decision_message_def)

interpretation governance: dual_signature_request "''governance_decision''" governance_decision_message
  by unfold_locales (simp_all add: governance_decision_message_def)

interpretation login: dual_signature_request "''admin_login''" admin_login_message
  by unfold_locales (simp_all add: admin_login_message_def)

section \<open>Lemmas\<close>

lemma length_filter_remdups: "length (filter P (remdups xs)) = card {x \<in> set xs. P x}"
  by (metis distinct_card distinct_filter distinct_remdups set_filter set_remdups)

lemma validate_dual_signature_iff:
  "validate_dual_signature ae cfg sigs msg = Inr () \<longleftrightarrow>
     (let submitted = set (case sigs of Some s \<Rightarrow> s | None \<Rightarrow> []) in
      2 \<le> card submitted
      \<and> (if admin_public_keys cfg = [] then debug_assertions ae
         else 2 \<le> card {s \<in> submitted. signature_verified ae (admin_public_keys cfg) msg s}))"
  by (simp add: validate_dual_signature_def Let_def length_filter_remdups length_remdups_card_conv not_less)

lemma authorize_admin_write_iff:
  "authorize_admin_write cfg creds hs = Inr () \<longleftrightarrow>
     (\<exists>token. bearer_token hs = Some token
        \<and> ((\<exists>r. map_of creds token = Some r \<and> \<not> cr_revoked r \<and> ''admin.write'' \<in> set (cr_scopes r))
           \<or> admin_api_token cfg = Some token))"
  by (auto simp: authorize_admin_write_def pool_grants_def split: option.splits)

lemma authorize_for_scope_iff:
  "(\<exists>scopes. authorize_for_scope cfg creds hs scope = Inr scopes) \<longleftrightarrow>
     (\<exists>token. bearer_token hs = Some token
        \<and> ((\<exists>r. map_of creds token = Some r \<and> \<not> cr_revoked r \<and> scope \<in> set (cr_scopes r))
           \<or> admin_api_token cfg = Some token))"
  by (auto simp: authorize_for_scope_def pool_grants_def split: option.splits)

section \<open>Properties\<close>

text \<open>Domain separation of the signed messages.  A signature collected for one kind of request (login, release
  approval, release decision, governance decision) is never over the message of another kind.  Within a kind the message
  does not determine the request: the fields are joined by unescaped colons, so two different release decisions, of
  different artifacts, have the same message.\<close>

theorem approval_messages_separated:
  "release_approval_message a \<noteq> release_decision_message d \<and> release_approval_message a \<noteq> governance_decision_message g
   \<and> release_approval_message a \<noteq> admin_login_message l \<and> release_decision_message d \<noteq> governance_decision_message g
   \<and> release_decision_message d \<noteq> admin_login_message l \<and> governance_decision_message g \<noteq> admin_login_message l
   \<and> (admin_login_message l = admin_login_message l' \<longleftrightarrow> al_session_name l = al_session_name l')
   \<and> (\<exists>r r'. release_decision_message r = release_decision_message r' \<and> rd_artifact_id r \<noteq> rd_artifact_id r'
        \<and> rd_decision r \<noteq> rd_decision r' \<and> rd_actor_id r = rd_actor_id r')"
proof -
  let ?r = "\<lambda>a d. \<lparr>rd_second_approver = None, rd_signatures = None, rd_artifact_id = a, rd_decision = d,
      rd_actor_id = ''alice'', rd_notes = None\<rparr>"
  have "release_decision_message (?r ''app'' ''v2:approve'') = release_decision_message (?r ''app:v2'' ''approve'')"
    by (simp add: release_decision_message_def)
  then have "\<exists>r r'. release_decision_message r = release_decision_message r' \<and> rd_artifact_id r \<noteq> rd_artifact_id r'
        \<and> rd_decision r \<noteq> rd_decision r' \<and> rd_actor_id r = rd_actor_id r'"
    by (intro exI [of _ "?r ''app'' ''v2:approve''"] exI [of _ "?r ''app:v2'' ''approve''"]) simp
  moreover have "release_approval_message a \<noteq> release_decision_message d"
    "release_approval_message a \<noteq> governance_decision_message g" "release_approval_message a \<noteq> admin_login_message l"
    by (rule approval.differs, simp only: decision.kind_of_message governance.kind_of_message login.kind_of_message, simp)+
  moreover have "release_decision_message d \<noteq> governance_decision_message g" "release_decision_message d \<noteq> admin_login_message l"
    by (rule decision.differs, simp only: governance.kind_of_message login.kind_of_message, simp)+
  moreover have "governance_decision_message g \<noteq> admin_login_message l"
    by (rule governance.differs, simp only: login.kind_of_message, simp)
  ultimately show ?thesis by (simp add: admin_login_message_def)
qed

text \<open>Dual approval counts texts, not signers.  Hexadecimal digits are accepted in both cases, so two different texts of
  one and the same signature by one configured key satisfy the check for two signatures.\<close>

theorem dual_signature_by_one_signer:
  assumes "pk \<in> set (admin_public_keys cfg)" and "Option.bind (hex_decode pk) (vk_from_sec1 ae) = Some vk"
    and "sig_from_der ae bs = Some s" and "vk_verify ae vk (as_bytes msg) s"
    and "hex_decode t = Some bs" and "hex_decode t' = Some bs" and "t \<noteq> t'"
  shows "validate_dual_signature ae cfg (Some [t, t']) msg = Inr ()"
proof -
  have "signature_verified ae (admin_public_keys cfg) msg x" if "hex_decode x = Some bs" for x
    using that assms(1-4) by (force simp: signature_verified_def list_ex_iff)
  then have "{x \<in> set [t, t']. signature_verified ae (admin_public_keys cfg) msg x} = {t, t'}"
    using assms(5,6) by auto
  moreover have "card {t, t'} = 2" using assms(7) by simp
  moreover have "admin_public_keys cfg \<noteq> []" using assms(1) by auto
  ultimately show ?thesis by (simp add: validate_dual_signature_iff Let_def)
qed

definition sample_admin_env :: "(bytes, bytes) admin_env" where
  "sample_admin_env = \<lparr>debug_assertions = False, format_time = (\<lambda>_. []), sig_from_der = Some, vk_from_sec1 = Some,
     vk_verify = (\<lambda>k m s. s = k)\<rparr>"

definition sample_admin_config :: Config where
  "sample_admin_config = default_test\<lparr>admin_public_keys := [''ab'']\<rparr>"

theorem dual_signature_by_one_signer_witness:
  "validate_dual_signature sample_admin_env sample_admin_config (Some [''ab'', ''AB'']) ''admin_login:x'' = Inr ()"
  by (rule dual_signature_by_one_signer [where pk = "''ab''" and vk = "[0xab]" and bs = "[0xab]" and s = "[0xab]"])
    (simp_all add: sample_admin_config_def default_test_def sample_admin_env_def hex_val_def)

end
