(* ===== verification/Admin_Handlers.thy ===== *)
theory Admin_Handlers
  imports Admin
begin

text \<open>
  The request handlers of \<^verbatim>\<open>src/api/admin.rs\<close>, in the order of the file: login, the three dual-signed decisions, the
  read-only endpoints, and the agent registration and claim ceremony.
\<close>

section \<open>Dual-signed requests\<close>

definition login_handler ::
  "'w services \<Rightarrow> ('s, 'k) admin_env \<Rightarrow> Config \<Rightarrow> AdminLoginRequest \<Rightarrow> 'w admin_handler" where
  "login_handler sv ae cfg req =
     guard (validate_dual_signature ae cfg (al_signatures req) (admin_login_message req)) (\<lambda>_.
     io_then (with_world (issue sv ''nx_key_'')) (\<lambda>credential (st, w).
       (json_reply 200 [(''status'', JStr ''success''), (''credential'', JStr credential),
          (''scopes'', JArr (map JStr all_scopes))],
        (st\<lparr>credentials := AList.update credential
           \<lparr>cr_registration_id = ''login_'' @ al_session_name req, cr_scopes = all_scopes, cr_revoked = False\<rparr>
           (credentials st)\<rparr>, w))))"

text \<open>The common end of the three decisions: two identifiers and the acceptance.\<close>

definition accept_decision :: "'w services \<Rightarrow> string \<Rightarrow> 'w admin_handler" where
  "accept_decision sv message =
     io_then (with_world (issue sv ''req_'')) (\<lambda>request_id.
     io_then (with_world (issue sv ''audit_'')) (\<lambda>audit_event_id.
     Pair (json_reply 200 [(''accepted'', JBool True), (''requestId'', JStr request_id),
       (''auditEventId'', JStr audit_event_id), (''message'', JStr message)])))"

definition request_release_approval ::
  "'w services \<Rightarrow> ('s, 'k) admin_env \<Rightarrow> Config \<Rightarrow> headers \<Rightarrow> ReleaseApprovalRequest \<Rightarrow> 'w admin_handler" where
  "request_release_approval sv ae cfg hs req z =
     guard (authorize_admin_write cfg (credentials (fst z)) hs) (\<lambda>_.
     guard (validate_dual_signature ae cfg (ra_signatures req) (release_approval_message req)) (\<lambda>_.
     accept_decision sv ''Release approval recorded in audit trail.'')) z"

definition submit_release_decision ::
  "'w services \<Rightarrow> ('s, 'k) admin_env \<Rightarrow> Config \<Rightarrow> headers \<Rightarrow> ReleaseDecisionRequest \<Rightarrow> 'w admin_handler" where
  "submit_release_decision sv ae cfg hs req z =
     guard (authorize_admin_write cfg (credentials (fst z)) hs) (\<lambda>_.
     guard (validate_dual_signature ae cfg (rd_signatures req) (release_decision_message req)) (\<lambda>_.
     accept_decision sv (''Release decision '' @ [CHR 0x27] @ rd_decision req @ [CHR 0x27] @ '' finalized.''))) z"

definition submit_governance_decision ::
  "'w services \<Rightarrow> ('s, 'k) admin_env \<Rightarrow> Config \<Rightarrow> headers \<Rightarrow> GovernanceDecisionRequest \<Rightarrow> 'w admin_handler" where
  "submit_governance_decision sv ae cfg hs req z =
     guard (authorize_admin_write cfg (credentials (fst z)) hs) (\<lambda>_.
     guard (validate_dual_signature ae cfg (gd_signatures req) (governance_decision_message req)) (\<lambda>_.
     accept_decision sv ''Governance decision recorded.'')) z"

section \<open>Read-only endpoints\<close>

definition current_timestamp :: "'w services \<Rightarrow> ('s, 'k) admin_env \<Rightarrow> 'w \<Rightarrow> string \<times> 'w" where
  "current_timestamp sv ae w = (case utc_now sv w of (t, w') \<Rightarrow> (format_time ae t @ ''Z'', w'))"

definition reading :: "Config \<Rightarrow> headers \<Rightarrow> (string list \<Rightarrow> 'w admin_handler) \<Rightarrow> 'w admin_handler" where
  "reading cfg hs k z = guard (authorize_for_scope cfg (credentials (fst z)) hs ''api.read'') k z"

definition get_protected_status :: "Config \<Rightarrow> headers \<Rightarrow> 'w admin_handler" where
  "get_protected_status cfg hs = reading cfg hs (\<lambda>scopes.
     Pair (json_reply 200 [(''status'', JStr ''ok''), (''scopes'', JArr (map JStr scopes))]))"

definition get_runtime_health :: "'w services \<Rightarrow> ('s, 'k) admin_env \<Rightarrow> Config \<Rightarrow> headers \<Rightarrow> 'w admin_handler" where
  "get_runtime_health sv ae cfg hs = reading cfg hs (\<lambda>_.
     io_then (with_world (current_timestamp sv ae)) (\<lambda>now.
     io_then (with_world (is_safety_mode_active sv)) (\<lambda>active.
     Pair (json_reply 200 [(''status'', JStr ''healthy''), (''timestamp'', JStr now), (''version'', JStr ''v0.4.18''),
       (''safety_mode'', JBool (or_else active False))]))))"

definition get_runtime_readiness :: "'w services \<Rightarrow> ('s, 'k) admin_env \<Rightarrow> Config \<Rightarrow> headers \<Rightarrow> 'w admin_handler" where
  "get_runtime_readiness sv ae cfg hs = reading cfg hs (\<lambda>_.
     io_then (with_world (current_timestamp sv ae)) (\<lambda>now.
     Pair (json_reply 200 [(''status'', JStr ''ready''), (''timestamp'', JStr now)])))"

definition list_audit_events :: "Config \<Rightarrow> headers \<Rightarrow> 'w admin_handler" where
  "list_audit_events cfg hs = reading cfg hs (\<lambda>_. Pair (json_reply 200 [(''events'', JArr []), (''total'', JNum (PosInt 0))]))"

definition get_environment :: "Config \<Rightarrow> headers \<Rightarrow> string \<Rightarrow> 'w admin_handler" where
  "get_environment cfg hs env = reading cfg hs (\<lambda>_.
     Pair (json_reply 200 [(''environment'', JStr env), (''status'', JStr ''active'')]))"

definition list_chains :: "Config \<Rightarrow> headers \<Rightarrow> 'w admin_handler" where
  "list_chains cfg hs = reading cfg hs (\<lambda>_.
     Pair (json_reply 200 [(''chains'', JArr (map JStr [''bitcoin'', ''stacks'', ''evm'', ''cosmos'']))]))"

definition get_chain_status :: "Config \<Rightarrow> headers \<Rightarrow> string \<Rightarrow> 'w admin_handler" where
  "get_chain_status cfg hs chain = reading cfg hs (\<lambda>_.
     Pair (json_reply 200 [(''chain'', JStr chain), (''height'', JNum (PosInt 840000)), (''synchronized'', JBool True)]))"

definition list_attestations :: "Config \<Rightarrow> headers \<Rightarrow> 'w admin_handler" where
  "list_attestations cfg hs = reading cfg hs (\<lambda>_. Pair (json_reply 200 [(''attestations'', JArr [])]))"

definition get_attestation :: "Config \<Rightarrow> headers \<Rightarrow> string \<Rightarrow> 'w admin_handler" where
  "get_attestation cfg hs i = reading cfg hs (\<lambda>_. Pair (json_reply 200 [(''id'', JStr i), (''verified'', JBool True)]))"

definition get_drift :: "Config \<Rightarrow> headers \<Rightarrow> 'w admin_handler" where
  "get_drift cfg hs = reading cfg hs (\<lambda>_.
     Pair (json_reply 200 [(''drift_ms'', JNum (PosInt 12)), (''status'', JStr ''low'')]))"

definition get_safety_mode :: "'w services \<Rightarrow> Config \<Rightarrow> headers \<Rightarrow> 'w admin_handler" where
  "get_safety_mode sv cfg hs = reading cfg hs (\<lambda>_.
     io_then (with_world (is_safety_mode_active sv)) (\<lambda>active.
     Pair (json_reply 200 [(''active'', JBool (or_else active False)), (''triggered_at'', JNull)])))"

definition ack_safety_mode :: "'w services \<Rightarrow> ('s, 'k) admin_env \<Rightarrow> Config \<Rightarrow> headers \<Rightarrow> 'w admin_handler" where
  "ack_safety_mode sv ae cfg hs z =
     guard (authorize_admin_write cfg (credentials (fst z)) hs) (\<lambda>_.
     io_then (with_world (current_timestamp sv ae)) (\<lambda>now.
     Pair (json_reply 200 [(''status'', JStr ''acknowledged''), (''timestamp'', JStr now)]))) z"

definition get_promotion_evidence :: "Config \<Rightarrow> headers \<Rightarrow> string \<Rightarrow> 'w admin_handler" where
  "get_promotion_evidence cfg hs release = reading cfg hs (\<lambda>_.
     Pair (json_reply 200 [(''release'', JStr release), (''evidence_type'', JStr ''git_tag_attestation''),
       (''verified'', JBool True)]))"

definition list_environments :: "Config \<Rightarrow> headers \<Rightarrow> 'w admin_handler" where
  "list_environments cfg hs = reading cfg hs (\<lambda>_.
     Pair (json_reply 200 [(''environments'', JArr (map JStr [''dev'', ''staging'', ''prod'']))]))"

definition scopes_supported :: json where
  "scopes_supported = JArr (map JStr [''api.read'', ''api.write'', ''admin.write''])"

definition get_auth_md :: admin_response where
  "get_auth_md =
     (let base = ''http://localhost:3000'' in
      json_reply 200 [(''issuer'', JStr base), (''registration_endpoint'', JStr (base @ ''/agent/auth/register'')),
        (''claim_endpoint'', JStr (base @ ''/agent/auth/claim'')), (''token_endpoint'', JStr (base @ ''/agent/auth/token'')),
        (''jwks_uri'', JStr (base @ ''/agent/auth/jwks'')), (''scopes_supported'', scopes_supported)])"

definition get_oauth_protected_resource_metadata :: "headers \<Rightarrow> admin_response" where
  "get_oauth_protected_resource_metadata hs =
     json_reply 200 [(''resource'', JStr (service_base hs)), (''resource_name'', JStr ''Conxian Nexus''),
       (''authorization_servers'', JArr [JStr (service_base hs)])]"

definition get_oauth_authorization_server_metadata :: "headers \<Rightarrow> admin_response" where
  "get_oauth_authorization_server_metadata hs =
     (let base = service_base hs in
      json_reply 200 [(''issuer'', JStr base), (''registration_endpoint'', JStr (base @ ''/agent/auth/register'')),
        (''token_endpoint'', JStr (base @ ''/agent/auth/token'')), (''jwks_uri'', JStr (base @ ''/agent/auth/jwks'')),
        (''scopes_supported'', scopes_supported)])"

section \<open>Registration and claim\<close>

definition claim_scopes :: "RegistrationRequest \<Rightarrow> string list" where
  "claim_scopes req =
     (if rq_post_claim_scopes req = []
      then if rq_scopes req = [] then [''api.read'', ''api.write''] else rq_scopes req
      else rq_post_claim_scopes req)"

text \<open>The credential of an anonymous registration, before the claim.\<close>

definition issue_credential :: "'w services \<Rightarrow> string \<Rightarrow> 'w \<Rightarrow> string option \<times> 'w" where
  "issue_credential sv registration_type w =
     (if registration_type = ''anonymous'' then (case issue sv ''nx_key_'' w of (c, w') \<Rightarrow> (Some c, w')) else (None, w))"

definition opt_json :: "string option \<Rightarrow> json" where
  "opt_json x = (case x of Some s \<Rightarrow> JStr s | None \<Rightarrow> JNull)"

definition start_registration ::
  "'w services \<Rightarrow> hasher \<Rightarrow> ('s, 'k) admin_env \<Rightarrow> headers \<Rightarrow> RegistrationRequest \<Rightarrow> 'w admin_handler" where
  "start_registration sv H ae hs req =
     (if rq_registration_type req \<notin> {''anonymous'', ''identity_assertion''}
      then Pair (json_reply 400 [(''error'', JStr ''unsupported_registration_type'')])
      else
        io_then (with_world (issue sv ''reg_'')) (\<lambda>registration_id.
        io_then (with_world (issue sv ''nx_claim_'')) (\<lambda>claim_token.
        io_then (with_world (issue sv ''nx_cv_'')) (\<lambda>claim_view_token.
        io_then (with_world (issue_otp sv)) (\<lambda>otp.
        io_then (with_world (issue_credential sv (rq_registration_type req))) (\<lambda>credential.
        io_then (with_world (current_timestamp sv ae)) (\<lambda>now (st, w).
        let rec = \<lparr>rr_registration_id = registration_id, rr_registration_type = rq_registration_type req,
              rr_claim_token_hash = hash_value H claim_token, rr_claim_view_token = claim_view_token,
              rr_otp_hash = hash_value H otp, rr_otp_plaintext = otp,
              rr_requested_credential_type = rq_credential_type req, rr_credential = credential,
              rr_pre_claim_scopes = rq_scopes req, rr_post_claim_scopes = claim_scopes req, rr_email = None,
              rr_claimed = False, rr_claim_token_expires_at = now\<rparr>;
            creds = (case credential of
                None \<Rightarrow> credentials st
              | Some c \<Rightarrow> AList.update c \<lparr>cr_registration_id = registration_id,
                    cr_scopes = [''api.read'', ''api.write''], cr_revoked = False\<rparr> (credentials st)) in
        (json_reply 200
           [(''registration_id'', JStr registration_id), (''registration_type'', JStr ''email-verification''),
            (''claim_url'', JStr (service_base hs @ ''/agent/auth/claim'')), (''claim_token'', JStr claim_token),
            (''claim_view_url'', JStr (service_base hs @ ''/agent/auth/claim/view?token='' @ claim_view_token)),
            (''post_claim_scopes'', JArr (map JStr (claim_scopes req))), (''credential'', opt_json credential)],
         (st\<lparr>credentials := creds, registrations := AList.update (hash_value H claim_token) rec (registrations st)\<rparr>, w)))))))))"

definition error_reply :: "nat \<Rightarrow> string \<Rightarrow> admin_response" where
  "error_reply status e = json_reply status [(''error'', JStr e)]"

definition start_claim :: "'w services \<Rightarrow> hasher \<Rightarrow> ClaimRequest \<Rightarrow> 'w admin_handler" where
  "start_claim sv H req = (\<lambda>(st, w).
     let claim_hash = hash_value H (cq_claim_token req) in
     case map_of (registrations st) claim_hash of
       None \<Rightarrow> (error_reply 400 ''invalid_claim_token'', (st, w))
     | Some r \<Rightarrow>
         if rr_claimed r then (error_reply 409 ''previously_claimed'', (st, w))
         else (case issue sv ''claim_attempt_'' w of (attempt, w') \<Rightarrow>
           (json_reply 200 [(''registration_id'', JStr (rr_registration_id r)), (''claim_attempt_id'', JStr attempt),
              (''status'', JStr ''initiated''),
              (''claim_view_url'', JStr (''/agent/auth/claim/view?token='' @ rr_claim_view_token r))],
            (st\<lparr>registrations := AList.update claim_hash (r\<lparr>rr_email := Some (cq_email req)\<rparr>) (registrations st)\<rparr>, w'))))"

definition complete_claim :: "'w services \<Rightarrow> hasher \<Rightarrow> ClaimCompleteRequest \<Rightarrow> 'w admin_handler" where
  "complete_claim sv H req = (\<lambda>(st, w).
     let claim_hash = hash_value H (cc_claim_token req) in
     case map_of (registrations st) claim_hash of
       None \<Rightarrow> (error_reply 400 ''invalid_claim_token'', (st, w))
     | Some r \<Rightarrow>
         if rr_claimed r then (error_reply 409 ''previously_claimed'', (st, w))
         else if rr_otp_hash r \<noteq> hash_value H (cc_otp req) then (error_reply 401 ''otp_invalid'', (st, w))
         else (case rr_credential r of
           Some existing \<Rightarrow>
             (json_reply 200 [(''registration_id'', JStr (rr_registration_id r)), (''status'', JStr ''claimed'')],
              (st\<lparr>registrations := AList.update claim_hash (r\<lparr>rr_claimed := True\<rparr>) (registrations st),
                 credentials := (case map_of (credentials st) existing of
                     None \<Rightarrow> credentials st
                   | Some c \<Rightarrow> AList.update existing (c\<lparr>cr_scopes := rr_post_claim_scopes r\<rparr>) (credentials st))\<rparr>, w))
         | None \<Rightarrow>
             (case issue sv ''nx_key_'' w of (credential, w') \<Rightarrow>
               (json_reply 200 [(''registration_id'', JStr (rr_registration_id r)), (''status'', JStr ''claimed''),
                  (''credential_type'', JStr (rr_requested_credential_type r)), (''credential'', JStr credential),
                  (''credential_expires'', JNull), (''scopes'', JArr (map JStr (rr_post_claim_scopes r)))],
                (st\<lparr>registrations := AList.update claim_hash (r\<lparr>rr_claimed := True, rr_credential := Some credential\<rparr>)
                     (registrations st),
                   credentials := AList.update credential \<lparr>cr_registration_id = rr_registration_id r,
                     cr_scopes = rr_post_claim_scopes r, cr_revoked = False\<rparr> (credentials st)\<rparr>, w')))))"

definition view_claim_otp :: "string \<Rightarrow> 'w admin_handler" where
  "view_claim_otp token = (\<lambda>(st, w).
     case find (\<lambda>r. rr_claim_view_token r = token) (map snd (registrations st)) of
       None \<Rightarrow> (error_reply 404 ''invalid_claim_view_token'', (st, w))
     | Some r \<Rightarrow>
         (\<lparr>ar_status = 200, ar_body = HtmlBody (''<html><body><h1>Conxian Nexus Claim Code</h1><p>Registration: ''
             @ rr_registration_id r @ ''</p><p>OTP: <strong>'' @ rr_otp_plaintext r @ ''</strong></p></body></html>''),
           ar_challenge = None\<rparr>, (st, w)))"

section \<open>Lemmas\<close>

lemma guard_simps [simp]: "guard (Inl e) k z = (e, z)" "guard (Inr x) k z = k x z"
  by (simp_all add: guard_def)

lemma json_reply_status [simp]: "ar_status (json_reply s kvs) = s"
  by (simp add: json_reply_def)

lemma error_reply_status [simp]: "ar_status (error_reply s e) = s"
  by (simp add: error_reply_def)

lemma with_world_eq [simp]: "with_world m (st, w) = (fst (m w), (st, snd (m w)))"
  by (simp add: with_world_def split: prod.split)

lemma io_then_with_world [simp]: "io_then (with_world m) k (st, w) = k (fst (m w)) (st, snd (m w))"
  by (simp add: io_then_def)

lemma accept_decision_runs:
  "ar_status (fst (accept_decision sv m z)) = 200 \<and> fst (snd (accept_decision sv m z)) = fst z"
  by (cases z) (simp add: accept_decision_def)

text \<open>No failed check is answered with a success.\<close>

lemma authorize_failure_status: "authorize_admin_write cfg creds hs = Inl e \<Longrightarrow> ar_status e \<noteq> 200"
  by (auto simp: authorize_admin_write_def bearer_unauthorized_response_def admin_token_not_configured_response_def Let_def
      split: option.splits if_splits)

lemma dual_failure_status: "validate_dual_signature ae cfg sigs msg = Inl e \<Longrightarrow> ar_status e \<noteq> 200"
  by (auto simp: validate_dual_signature_def Let_def split: if_splits)

text \<open>A decision handler: both checks, then the acceptance.\<close>

definition dual_approved :: "('s, 'k) admin_env \<Rightarrow> Config \<Rightarrow> string list option \<Rightarrow> string \<Rightarrow> bool" where
  "dual_approved ae cfg sigs msg \<longleftrightarrow>
     (let submitted = set (case sigs of Some s \<Rightarrow> s | None \<Rightarrow> []) in
      2 \<le> card submitted
      \<and> (if admin_public_keys cfg = [] then debug_assertions ae
         else 2 \<le> card {s \<in> submitted. signature_verified ae (admin_public_keys cfg) msg s}))"

definition admin_bearer :: "Config \<Rightarrow> admin_state \<Rightarrow> headers \<Rightarrow> bool" where
  "admin_bearer cfg st hs \<longleftrightarrow>
     (\<exists>token. bearer_token hs = Some token
        \<and> ((\<exists>r. map_of (credentials st) token = Some r \<and> \<not> cr_revoked r \<and> ''admin.write'' \<in> set (cr_scopes r))
           \<or> admin_api_token cfg = Some token))"

lemma admin_bearer_iff: "authorize_admin_write cfg (credentials st) hs = Inr () \<longleftrightarrow> admin_bearer cfg st hs"
  by (simp only: admin_bearer_def authorize_admin_write_iff)

lemma dual_approved_iff: "validate_dual_signature ae cfg sigs msg = Inr () \<longleftrightarrow> dual_approved ae cfg sigs msg"
  by (simp only: dual_approved_def validate_dual_signature_iff)

lemma decision_runs:
  assumes "h = guard (authorize_admin_write cfg (credentials (fst z)) hs) (\<lambda>_.
     guard (validate_dual_signature ae cfg sigs msg) (\<lambda>_. accept_decision sv m)) z"
  shows "(ar_status (fst h) = 200 \<longleftrightarrow> admin_bearer cfg (fst z) hs \<and> dual_approved ae cfg sigs msg) \<and> fst (snd h) = fst z"
proof (cases "authorize_admin_write cfg (credentials (fst z)) hs")
  case (Inl e)
  then have "\<not> admin_bearer cfg (fst z) hs" by (simp flip: admin_bearer_iff)
  with Inl assms authorize_failure_status [OF Inl] show ?thesis by simp
next
  case auth: (Inr u)
  then have bearer: "admin_bearer cfg (fst z) hs" by (simp flip: admin_bearer_iff)
  show ?thesis
  proof (cases "validate_dual_signature ae cfg sigs msg")
    case (Inl e)
    then have "\<not> dual_approved ae cfg sigs msg" by (simp flip: dual_approved_iff)
    with Inl auth assms dual_failure_status [OF Inl] show ?thesis by simp
  next
    case (Inr u')
    then have "dual_approved ae cfg sigs msg" by (simp flip: dual_approved_iff)
    with Inr auth bearer assms accept_decision_runs [of sv m z] show ?thesis by simp
  qed
qed

section \<open>Properties\<close>

text \<open>A release approval, a release decision and a governance decision are accepted exactly when the bearer token is a live
  credential with the scope admin.write or the configured administrator token and the request passes the dual signature check
  for its own message.  None of them changes a registration or a credential.\<close>

lemma decisions_accepted_iff_approved:
  "(ar_status (fst (request_release_approval sv ae cfg hs a z)) = 200 \<longleftrightarrow>
      admin_bearer cfg (fst z) hs \<and> dual_approved ae cfg (ra_signatures a) (release_approval_message a))
   \<and> (ar_status (fst (submit_release_decision sv ae cfg hs d z)) = 200 \<longleftrightarrow>
      admin_bearer cfg (fst z) hs \<and> dual_approved ae cfg (rd_signatures d) (release_decision_message d))
   \<and> (ar_status (fst (submit_governance_decision sv ae cfg hs g z)) = 200 \<longleftrightarrow>
      admin_bearer cfg (fst z) hs \<and> dual_approved ae cfg (gd_signatures g) (governance_decision_message g))
   \<and> fst (snd (request_release_approval sv ae cfg hs a z)) = fst z
   \<and> fst (snd (submit_release_decision sv ae cfg hs d z)) = fst z
   \<and> fst (snd (submit_governance_decision sv ae cfg hs g z)) = fst z"
  using decision_runs [OF request_release_approval_def [of sv ae cfg hs a z]]
    decision_runs [OF submit_release_decision_def [of sv ae cfg hs d z]]
    decision_runs [OF submit_governance_decision_def [of sv ae cfg hs g z]] by simp

text \<open>What the holders of the configured keys have signed: no key verifies a signature over any other message.\<close>

definition keys_signed :: "('s, 'k) admin_env \<Rightarrow> Config \<Rightarrow> bytes set \<Rightarrow> bool" where
  "keys_signed ae cfg msgs \<longleftrightarrow>
     (\<forall>pk vk m s. pk \<in> set (admin_public_keys cfg) \<and> Option.bind (hex_decode pk) (vk_from_sec1 ae) = Some vk \<and> vk_verify ae vk m s \<longrightarrow>
        m \<in> msgs)"

lemma dual_approved_signed:
  assumes "keys_signed ae cfg msgs" and "admin_public_keys cfg \<noteq> []" and "dual_approved ae cfg sigs msg"
  shows "as_bytes msg \<in> msgs"
proof -
  let ?v = "{s \<in> set (case sigs of Some s \<Rightarrow> s | None \<Rightarrow> []). signature_verified ae (admin_public_keys cfg) msg s}"
  have "2 \<le> card ?v" using assms(2,3) by (simp add: dual_approved_def Let_def)
  then have "?v \<noteq> {}" by (metis card.empty not_numeral_le_zero)
  then obtain x where "signature_verified ae (admin_public_keys cfg) msg x" by blast
  then show ?thesis
    using assms(1) by (fastforce simp: signature_verified_def list_ex_iff keys_signed_def split: option.splits)
qed

lemma login_runs:
  "ar_status (fst (login_handler sv ae cfg l z)) = 200 \<longleftrightarrow> dual_approved ae cfg (al_signatures l) (admin_login_message l)"
proof (cases "validate_dual_signature ae cfg (al_signatures l) (admin_login_message l)")
  case (Inl e)
  then show ?thesis using dual_failure_status [OF Inl] by (simp add: login_handler_def flip: dual_approved_iff)
next
  case (Inr u)
  then show ?thesis by (cases z) (simp add: login_handler_def flip: dual_approved_iff)
qed

text \<open>C11: Approvals are bound to their message.  With administrator keys configured that verify only what their holders signed, an
  accepted release approval, release decision, governance decision or login is one whose exact message (its kind with the
  artifact, decision, actor or session it names) a holder of a configured key signed; the three decisions also need an
  administrator's bearer token.  In particular signatures never cross kinds: when nothing but logins has been signed no decision is accepted, and
  when no login has been signed no session is opened and no credential issued, whatever else was signed.\<close>

theorem approvals_bound_to_their_message:
  assumes "admin_public_keys cfg \<noteq> []" and "keys_signed ae cfg msgs"
  shows "(ar_status (fst (request_release_approval sv ae cfg hs a z)) = 200 \<longrightarrow>
        admin_bearer cfg (fst z) hs \<and> as_bytes (release_approval_message a) \<in> msgs)
     \<and> (ar_status (fst (submit_release_decision sv ae cfg hs d z)) = 200 \<longrightarrow>
        admin_bearer cfg (fst z) hs \<and> as_bytes (release_decision_message d) \<in> msgs)
     \<and> (ar_status (fst (submit_governance_decision sv ae cfg hs g z)) = 200 \<longrightarrow>
        admin_bearer cfg (fst z) hs \<and> as_bytes (governance_decision_message g) \<in> msgs)
     \<and> (ar_status (fst (login_handler sv ae cfg l z)) = 200 \<longrightarrow> as_bytes (admin_login_message l) \<in> msgs)
     \<and> (msgs \<subseteq> range (\<lambda>l'. as_bytes (admin_login_message l')) \<longrightarrow>
        ar_status (fst (request_release_approval sv ae cfg hs a z)) \<noteq> 200
        \<and> ar_status (fst (submit_release_decision sv ae cfg hs d z)) \<noteq> 200
        \<and> ar_status (fst (submit_governance_decision sv ae cfg hs g z)) \<noteq> 200)
     \<and> (msgs \<inter> range (\<lambda>l'. as_bytes (admin_login_message l')) = {} \<longrightarrow>
        ar_status (fst (login_handler sv ae cfg l z)) \<noteq> 200 \<and> snd (login_handler sv ae cfg l z) = z)"
proof -
  note msgs = dual_approved_signed [OF assms(2,1)]
  note runs = decisions_accepted_iff_approved [of sv ae cfg hs a z d g]
  have kinds: "release_approval_message a \<noteq> admin_login_message l'" "release_decision_message d \<noteq> admin_login_message l'"
    "governance_decision_message g \<noteq> admin_login_message l'" for l'
    by (rule approval.differs decision.differs governance.differs, simp only: login.kind_of_message, simp)+
  have "snd (login_handler sv ae cfg l z) = z" if "ar_status (fst (login_handler sv ae cfg l z)) \<noteq> 200"
    using that unfolding login_runs dual_approved_iff [symmetric]
    by (cases "validate_dual_signature ae cfg (al_signatures l) (admin_login_message l)") (simp_all add: login_handler_def)
  moreover have "ar_status (fst (login_handler sv ae cfg l z)) = 200 \<Longrightarrow> as_bytes (admin_login_message l) \<in> msgs"
    unfolding login_runs by (rule msgs)
  moreover have "ar_status (fst (request_release_approval sv ae cfg hs a z)) = 200 \<Longrightarrow> as_bytes (release_approval_message a) \<in> msgs"
    "ar_status (fst (submit_release_decision sv ae cfg hs d z)) = 200 \<Longrightarrow> as_bytes (release_decision_message d) \<in> msgs"
    "ar_status (fst (submit_governance_decision sv ae cfg hs g z)) = 200 \<Longrightarrow> as_bytes (governance_decision_message g) \<in> msgs"
    using runs msgs by blast+
  moreover have "as_bytes (release_approval_message a) \<notin> range (\<lambda>l'. as_bytes (admin_login_message l'))"
    "as_bytes (release_decision_message d) \<notin> range (\<lambda>l'. as_bytes (admin_login_message l'))"
    "as_bytes (governance_decision_message g) \<notin> range (\<lambda>l'. as_bytes (admin_login_message l'))"
    using kinds by auto
  ultimately show ?thesis using runs by blast
qed

text \<open>Two keys whose holders have signed one login: the session opens, and the same two signatures approve no release.\<close>

definition login_only_env :: "(bytes, bytes) admin_env" where
  "login_only_env = sample_admin_env\<lparr>vk_verify := (\<lambda>k m s. s = k \<and> m = as_bytes ''admin_login:x'')\<rparr>"

definition two_keys :: Config where
  "two_keys = default_test\<lparr>admin_public_keys := [''ab'', ''cd''], admin_api_token := Some ''t''\<rparr>"

theorem approvals_bound_to_their_message_witness:
  "ar_status (fst (login_handler (offline :: unit services) login_only_env two_keys
       \<lparr>al_session_name = ''x'', al_signatures = Some [''ab'', ''cd''], al_second_approver = None\<rparr> (empty_admin, ()))) = 200
   \<and> ar_status (fst (request_release_approval (offline :: unit services) login_only_env two_keys [''authorization'' \<mapsto> ''Bearer t'']
       \<lparr>ra_artifact_id = ''app'', ra_requested_by = ''alice'', ra_second_approver = None, ra_signatures = Some [''ab'', ''cd''],
        ra_notes = None\<rparr> (empty_admin, ()))) \<noteq> 200"
proof -
  have k: "admin_public_keys two_keys = [''ab'', ''cd'']" by (simp add: two_keys_def)
  have m: "''admin_login:x'' = admin_login_message \<lparr>al_session_name = ''x'', al_signatures = None, al_second_approver = None\<rparr>"
    by (simp add: admin_login_message_def)
  have ne: "admin_public_keys two_keys \<noteq> []" by (simp add: k)
  have ks: "keys_signed login_only_env two_keys {as_bytes ''admin_login:x''}"
    by (auto simp: keys_signed_def login_only_env_def)
  have sub: "{as_bytes ''admin_login:x''} \<subseteq> range (\<lambda>l'. as_bytes (admin_login_message l'))" using m by auto
  have "ar_status (fst (request_release_approval (offline :: unit services) login_only_env two_keys hs a (empty_admin, ()))) \<noteq> 200"
    for hs a using approvals_bound_to_their_message [OF ne ks, of offline hs a "(empty_admin, ())" undefined undefined undefined] sub by argo
  moreover have "validate_dual_signature login_only_env two_keys (Some [''ab'', ''cd'']) ''admin_login:x'' = Inr ()"
    by (simp add: validate_dual_signature_def k signature_verified_def login_only_env_def sample_admin_env_def hex_val_def)
  ultimately show ?thesis by (simp add: login_handler_def admin_login_message_def)
qed

end
