(* ===== verification/Admin_Runs.thy ===== *)
theory Admin_Runs
  imports Admin_Handlers
begin

text \<open>
  Histories of the administration service: the requests that change registrations or credentials, in any order and from
  any caller.  The effect of each handler on the state is one lemma; the origin of the scope admin.write is an invariant
  of all histories.
\<close>

section \<open>Effects\<close>

text \<open>What a handler can have put into the two maps, and what it keeps of a claimed registration.\<close>

lemma login_effect:
  assumes "login_handler sv ae cfg req (st, w) = (r, (st', w'))"
  shows "map_of (credentials st') c = Some k \<Longrightarrow> map_of (credentials st) c = Some k
      \<or> dual_approved ae cfg (al_signatures req) (admin_login_message req) \<and> cr_scopes k = all_scopes"
    and "registrations st' = registrations st"
  using assms
  by (auto simp: login_handler_def guard_def update_conv' split: sum.splits if_splits simp flip: dual_approved_iff)

lemma register_effect:
  assumes "start_registration sv H ae hs req (st, w) = (r, (st', w'))"
  shows "map_of (credentials st') c = Some k \<Longrightarrow> map_of (credentials st) c = Some k
      \<or> cr_scopes k = [''api.read'', ''api.write'']"
    and "map_of (registrations st') h = Some rec \<Longrightarrow> map_of (registrations st) h = Some rec
      \<or> rr_post_claim_scopes rec = claim_scopes req"
  using assms
  by (auto simp: start_registration_def Let_def update_conv' split: if_splits option.splits)

lemma start_claim_effect:
  assumes "start_claim sv H req (st, w) = (r, (st', w'))"
  shows "credentials st' = credentials st"
    and "map_of (registrations st') h = Some rec \<Longrightarrow>
      \<exists>rec0. map_of (registrations st) h = Some rec0 \<and> rr_post_claim_scopes rec = rr_post_claim_scopes rec0"
    and "map_of (registrations st) h = Some rec \<Longrightarrow> rr_claimed rec \<Longrightarrow> map_of (registrations st') h = Some rec"
  using assms
  by (auto simp: start_claim_def Let_def update_conv' split: option.splits if_splits prod.splits)

lemma complete_claim_effect:
  assumes "complete_claim sv H req (st, w) = (r, (st', w'))"
  shows "map_of (credentials st') c = Some k \<Longrightarrow> map_of (credentials st) c = Some k
      \<or> (\<exists>h rec. map_of (registrations st) h = Some rec \<and> cr_scopes k = rr_post_claim_scopes rec)"
    and "map_of (registrations st') h = Some rec \<Longrightarrow>
      \<exists>rec0. map_of (registrations st) h = Some rec0 \<and> rr_post_claim_scopes rec = rr_post_claim_scopes rec0"
    and "map_of (registrations st) h = Some rec \<Longrightarrow> rr_claimed rec \<Longrightarrow> map_of (registrations st') h = Some rec"
  using assms
  by (auto simp: complete_claim_def Let_def update_conv' split: option.splits if_splits prod.splits) blast+

text \<open>The other requests leave registrations and credentials alone.\<close>

lemma reading_keeps:
  assumes "\<And>x. fst (snd (k x z)) = fst z"
  shows "fst (snd (reading cfg hs k z)) = fst z"
  using assms by (simp add: reading_def guard_def split: sum.split)

lemma read_only_handlers:
  "fst (snd (get_protected_status cfg hs z)) = fst z" "fst (snd (get_runtime_health sv ae cfg hs z)) = fst z"
  "fst (snd (get_runtime_readiness sv ae cfg hs z)) = fst z" "fst (snd (list_audit_events cfg hs z)) = fst z"
  "fst (snd (get_environment cfg hs s z)) = fst z" "fst (snd (list_chains cfg hs z)) = fst z"
  "fst (snd (get_chain_status cfg hs s z)) = fst z" "fst (snd (list_attestations cfg hs z)) = fst z"
  "fst (snd (get_attestation cfg hs s z)) = fst z" "fst (snd (get_drift cfg hs z)) = fst z"
  "fst (snd (get_safety_mode sv cfg hs z)) = fst z" "fst (snd (get_promotion_evidence cfg hs s z)) = fst z"
  "fst (snd (list_environments cfg hs z)) = fst z"
  unfolding get_protected_status_def get_runtime_health_def get_runtime_readiness_def list_audit_events_def
    get_environment_def list_chains_def get_chain_status_def list_attestations_def get_attestation_def get_drift_def
    get_safety_mode_def get_promotion_evidence_def list_environments_def
  by (rule reading_keeps, cases z, simp)+

lemma ack_and_view_keep:
  "fst (snd (ack_safety_mode sv ae cfg hs z)) = fst z" "fst (snd (view_claim_otp s z)) = fst z"
  by (cases z, simp add: ack_safety_mode_def guard_def split: sum.split)
    (cases z, simp add: view_claim_otp_def split: option.split)

section \<open>Histories\<close>

datatype admin_event =
    LoginEv AdminLoginRequest
  | RegisterEv RegistrationRequest
  | StartClaimEv ClaimRequest
  | CompleteEv ClaimCompleteRequest

text \<open>The requests are the callers' choice, and so are the worlds in between; the latest event comes first.\<close>

inductive admin_run ::
  "'w services \<Rightarrow> hasher \<Rightarrow> ('s, 'k) admin_env \<Rightarrow> Config \<Rightarrow> admin_event list \<Rightarrow> admin_state \<Rightarrow> bool"
  for sv H ae cfg where
  start: "admin_run sv H ae cfg [] empty_admin"
| login: "admin_run sv H ae cfg es st \<Longrightarrow> login_handler sv ae cfg req (st, w) = (r, (st', w')) \<Longrightarrow>
     admin_run sv H ae cfg (LoginEv req # es) st'"
| register: "admin_run sv H ae cfg es st \<Longrightarrow> start_registration sv H ae hs rq (st, w) = (r, (st', w')) \<Longrightarrow>
     admin_run sv H ae cfg (RegisterEv rq # es) st'"
| start_claim: "admin_run sv H ae cfg es st \<Longrightarrow> start_claim sv H cq (st, w) = (r, (st', w')) \<Longrightarrow>
     admin_run sv H ae cfg (StartClaimEv cq # es) st'"
| complete: "admin_run sv H ae cfg es st \<Longrightarrow> complete_claim sv H cc (st, w) = (r, (st', w')) \<Longrightarrow>
     admin_run sv H ae cfg (CompleteEv cc # es) st'"

text \<open>The scopes that a history has asked for at registration.\<close>

definition asked_scopes :: "admin_event list \<Rightarrow> string list set" where
  "asked_scopes es = {claim_scopes rq |rq. RegisterEv rq \<in> set es}"

lemma asked_scopes_simps [simp]:
  "asked_scopes [] = {}" "asked_scopes (LoginEv lq # es) = asked_scopes es"
  "asked_scopes (RegisterEv rq # es) = insert (claim_scopes rq) (asked_scopes es)"
  "asked_scopes (StartClaimEv sq # es) = asked_scopes es" "asked_scopes (CompleteEv cc # es) = asked_scopes es"
  by (auto simp: asked_scopes_def)

lemma registered_scopes_asked:
  assumes "admin_run sv H ae cfg es st" and "map_of (registrations st) h = Some rec"
  shows "rr_post_claim_scopes rec \<in> asked_scopes es"
  using assms
proof (induction arbitrary: h rec rule: admin_run.induct)
  case start
  then show ?case by (simp add: empty_admin_def)
next
  case (login es st req w r st' w')
  then show ?case using login_effect(2) by force
next
  case (register es st hs rq w r st' w')
  then show ?case using register_effect(2) [OF register.hyps(2)] by auto
next
  case (start_claim es st cq w r st' w')
  then show ?case using start_claim_effect(2) [OF start_claim.hyps(2)] by force
next
  case (complete es st cc w r st' w')
  then show ?case using complete_claim_effect(2) [OF complete.hyps(2)] by force
qed

definition dual_login :: "('s, 'k) admin_env \<Rightarrow> Config \<Rightarrow> admin_event list \<Rightarrow> bool" where
  "dual_login ae cfg es \<longleftrightarrow>
     (\<exists>req. LoginEv req \<in> set es \<and> dual_approved ae cfg (al_signatures req) (admin_login_message req))"

lemma dual_login_Cons: "dual_login ae cfg es \<Longrightarrow> dual_login ae cfg (e # es)"
  by (auto simp: dual_login_def)

section \<open>Properties\<close>

text \<open>Where credentials come from.  In every history of logins, registrations and claims, from any callers, a credential
  has either the two default scopes, or all scopes after a login with dual approval, or exactly the scopes that some
  registration asked for.  So a credential with admin.write exists only after a dual-approved login, or after a
  registration whose caller asked for admin.write.\<close>

theorem credential_scopes_origin:
  assumes "admin_run sv H ae cfg es st" and "map_of (credentials st) c = Some k"
  shows "cr_scopes k = [''api.read'', ''api.write'']
    \<or> (cr_scopes k = all_scopes \<and> dual_login ae cfg es) \<or> cr_scopes k \<in> asked_scopes es"
  using assms
proof (induction arbitrary: c k rule: admin_run.induct)
  case start
  then show ?case by (simp add: empty_admin_def)
next
  case (login es st req w r st' w')
  from login_effect(1) [OF login.hyps(2) login.prems] show ?case
  proof
    assume "map_of (credentials st) c = Some k"
    with login.IH show ?thesis by (auto intro: dual_login_Cons)
  next
    assume "dual_approved ae cfg (al_signatures req) (admin_login_message req) \<and> cr_scopes k = all_scopes"
    then show ?thesis by (auto simp: dual_login_def)
  qed
next
  case (register es st hs rq w r st' w')
  from register_effect(1) [OF register.hyps(2) register.prems] register.IH show ?case
    by (auto intro: dual_login_Cons)
next
  case (start_claim es st cq w r st' w')
  from start_claim.prems start_claim_effect(1) [OF start_claim.hyps(2)] start_claim.IH show ?case
    by (auto intro: dual_login_Cons)
next
  case (complete es st cc w r st' w')
  from complete_claim_effect(1) [OF complete.hyps(2) complete.prems] complete.IH registered_scopes_asked [OF complete.hyps(1)]
  show ?case by (auto intro: dual_login_Cons)
qed

definition sample_login :: AdminLoginRequest where
  "sample_login = \<lparr>al_session_name = ''ops'', al_signatures = Some [''ab'', ''AB''], al_second_approver = None\<rparr>"

lemma sample_login_approved:
  "validate_dual_signature sample_admin_env sample_admin_config (al_signatures sample_login) (admin_login_message sample_login)
     = Inr ()"
  by (simp add: validate_dual_signature_def sample_login_def sample_admin_config_def default_test_def sample_admin_env_def
      signature_verified_def hex_val_def)

theorem credential_scopes_origin_witness:
  "case login_handler offline sample_admin_env sample_admin_config sample_login (empty_admin, ()) of (r, (st, w)) \<Rightarrow>
     (\<exists>c k. map_of (credentials st) c = Some k \<and> cr_scopes k = all_scopes)
     \<and> dual_login sample_admin_env sample_admin_config [LoginEv sample_login]"
proof -
  obtain r st where run: "login_handler offline sample_admin_env sample_admin_config sample_login (empty_admin, ()) = (r, (st, ()))"
    by (metis surj_pair old.unit.exhaust)
  obtain k where k: "map_of (credentials st) (fst (issue offline ''nx_key_'' ())) = Some k" "cr_scopes k = all_scopes"
    using run by (auto simp: login_handler_def sample_login_approved empty_admin_def)
  from credential_scopes_origin [where H = sampleH, OF admin_run.login [OF admin_run.start run] k(1)] k
  have "dual_login sample_admin_env sample_admin_config [LoginEv sample_login]"
    by (auto simp: all_scopes_def)
  with run k show ?thesis by auto
qed

inductive claim_steps :: "'w services \<Rightarrow> hasher \<Rightarrow> ('s, 'k) admin_env \<Rightarrow> Config \<Rightarrow> string \<Rightarrow> admin_state \<Rightarrow> admin_state \<Rightarrow> bool"
  for sv H ae cfg h where
  refl: "claim_steps sv H ae cfg h st st"
| login: "claim_steps sv H ae cfg h st st1 \<Longrightarrow> login_handler sv ae cfg req (st1, w) = (r, (st2, w')) \<Longrightarrow>
     claim_steps sv H ae cfg h st st2"
| register: "claim_steps sv H ae cfg h st st1 \<Longrightarrow> start_registration sv H ae hs rq (st1, w) = (r, (st2, w')) \<Longrightarrow>
     map_of (registrations st2) h = map_of (registrations st1) h \<Longrightarrow> claim_steps sv H ae cfg h st st2"
| start_claim: "claim_steps sv H ae cfg h st st1 \<Longrightarrow> start_claim sv H cq (st1, w) = (r, (st2, w')) \<Longrightarrow>
     claim_steps sv H ae cfg h st st2"
| complete: "claim_steps sv H ae cfg h st st1 \<Longrightarrow> complete_claim sv H cc (st1, w) = (r, (st2, w')) \<Longrightarrow>
     claim_steps sv H ae cfg h st st2"

lemma claimed_stays:
  assumes "claim_steps sv H ae cfg h st st'" and "map_of (registrations st) h = Some rec" and "rr_claimed rec"
  shows "map_of (registrations st') h = Some rec"
  using assms
proof (induction rule: claim_steps.induct)
  case (login st st1 req w r st2 w')
  then show ?case using login_effect(2) by force
next
  case (start_claim st st1 cq w r st2 w')
  then show ?case using start_claim_effect(3) [OF start_claim.hyps(2)] by simp
next
  case (complete st st1 cc w r st2 w')
  then show ?case using complete_claim_effect(3) [OF complete.hyps(2)] by simp
qed simp_all

lemma complete_claim_marks:
  assumes "complete_claim sv H cc (st, w) = (r, (st', w'))" and "ar_status r = 200"
  shows "\<exists>rec. map_of (registrations st') (hash_value H (cc_claim_token cc)) = Some rec \<and> rr_claimed rec"
  using assms
  by (auto simp: complete_claim_def Let_def update_conv' split: option.splits if_splits prod.splits)

lemma claimed_refused:
  assumes "map_of (registrations st) (hash_value H token) = Some rec" and "rr_claimed rec"
  shows "cc_claim_token cc = token \<Longrightarrow> complete_claim sv H cc (st, w) = (error_reply 409 ''previously_claimed'', (st, w))"
    and "cq_claim_token cq = token \<Longrightarrow> start_claim sv H cq (st, w) = (error_reply 409 ''previously_claimed'', (st, w))"
  using assms by (simp_all add: complete_claim_def start_claim_def)

text \<open>C30: A claim succeeds at most once.  After a completed claim, whatever logins, claims and claim attempts follow, and
  registrations that were issued other claim tokens, every further attempt to start or complete the claim with that token
  is answered 409 and changes nothing.\<close>

theorem claim_at_most_once:
  assumes "complete_claim sv H cc (st, w) = (r, (st1, w1))" and "ar_status r = 200"
    and "claim_steps sv H ae cfg (hash_value H (cc_claim_token cc)) st1 st2"
    and "cc_claim_token cc' = cc_claim_token cc" and "cq_claim_token cq = cc_claim_token cc"
  shows "complete_claim sv H cc' (st2, w2) = (error_reply 409 ''previously_claimed'', (st2, w2))
    \<and> start_claim sv H cq (st2, w2) = (error_reply 409 ''previously_claimed'', (st2, w2))"
proof -
  from complete_claim_marks [OF assms(1,2)] obtain rec where
    "map_of (registrations st1) (hash_value H (cc_claim_token cc)) = Some rec" "rr_claimed rec" by blast
  with claimed_stays [OF assms(3)] have "map_of (registrations st2) (hash_value H (cc_claim_token cc)) = Some rec" by blast
  with \<open>rr_claimed rec\<close> show ?thesis using assms(4,5) by (intro conjI claimed_refused)
qed

text \<open>The state after one anonymous registration, and its claim.\<close>

definition sample_registration :: RegistrationRequest where
  "sample_registration = \<lparr>rq_registration_type = ''anonymous'', rq_credential_type = ''api_key'', rq_scopes = [],
     rq_post_claim_scopes = [''admin.write'']\<rparr>"

lemma claim_after_registration:
  assumes reg: "start_registration sv H ae hs req (st, w) = (r, (st1, w1))"
    and anon: "rq_registration_type req = ''anonymous''"
  shows "\<exists>reg_id token view otp cred.
    r = json_reply 200 [(''registration_id'', JStr reg_id), (''registration_type'', JStr ''email-verification''),
        (''claim_url'', JStr (service_base hs @ ''/agent/auth/claim'')), (''claim_token'', JStr token),
        (''claim_view_url'', JStr (service_base hs @ ''/agent/auth/claim/view?token='' @ view)),
        (''post_claim_scopes'', JArr (map JStr (claim_scopes req))), (''credential'', JStr cred)]
    \<and> (\<exists>rec. registrations st1 = AList.update (hash_value H token) rec (registrations st)
        \<and> rr_registration_id rec = reg_id \<and> rr_claim_view_token rec = view \<and> rr_otp_plaintext rec = otp
        \<and> rr_otp_hash rec = hash_value H otp \<and> rr_credential rec = Some cred \<and> \<not> rr_claimed rec
        \<and> rr_post_claim_scopes rec = claim_scopes req)
    \<and> (\<exists>k. map_of (credentials st1) cred = Some k \<and> \<not> cr_revoked k)"
proof -
  obtain reg_id u1 where u1: "issue sv ''reg_'' w = (reg_id, u1)" by fastforce
  obtain token u2 where u2: "issue sv ''nx_claim_'' u1 = (token, u2)" by fastforce
  obtain view u3 where u3: "issue sv ''nx_cv_'' u2 = (view, u3)" by fastforce
  obtain otp u4 where u4: "issue_otp sv u3 = (otp, u4)" by fastforce
  obtain cred u5 where u5: "issue sv ''nx_key_'' u4 = (cred, u5)" by fastforce
  obtain now u6 where u6: "current_timestamp sv ae u5 = (now, u6)" by fastforce
  define rec where "rec = \<lparr>rr_registration_id = reg_id, rr_registration_type = rq_registration_type req,
      rr_claim_token_hash = hash_value H token, rr_claim_view_token = view, rr_otp_hash = hash_value H otp,
      rr_otp_plaintext = otp, rr_requested_credential_type = rq_credential_type req, rr_credential = Some cred,
      rr_pre_claim_scopes = rq_scopes req, rr_post_claim_scopes = claim_scopes req, rr_email = None,
      rr_claimed = False, rr_claim_token_expires_at = now\<rparr>"
  have run: "r = json_reply 200 [(''registration_id'', JStr reg_id), (''registration_type'', JStr ''email-verification''),
        (''claim_url'', JStr (service_base hs @ ''/agent/auth/claim'')), (''claim_token'', JStr token),
        (''claim_view_url'', JStr (service_base hs @ ''/agent/auth/claim/view?token='' @ view)),
        (''post_claim_scopes'', JArr (map JStr (claim_scopes req))), (''credential'', JStr cred)]"
    "registrations st1 = AList.update (hash_value H token) rec (registrations st)"
    "credentials st1 = AList.update cred \<lparr>cr_registration_id = reg_id, cr_scopes = [''api.read'', ''api.write''],
        cr_revoked = False\<rparr> (credentials st)"
    using reg anon u1 u2 u3 u4 u5 u6
    by (auto simp: start_registration_def Let_def issue_credential_def opt_json_def rec_def)
  have "rr_registration_id rec = reg_id" "rr_claim_view_token rec = view" "rr_otp_plaintext rec = otp"
    "rr_otp_hash rec = hash_value H otp" "rr_credential rec = Some cred" "\<not> rr_claimed rec"
    "rr_post_claim_scopes rec = claim_scopes req" by (simp_all add: rec_def)
  moreover have "\<exists>k. map_of (credentials st1) cred = Some k \<and> \<not> cr_revoked k" by (simp add: run(3) update_conv')
  ultimately show ?thesis using run(1,2) by blast
qed

lemma claim_completes:
  assumes "map_of (registrations st) (hash_value H token) = Some rec" and "\<not> rr_claimed rec"
    and "rr_otp_hash rec = hash_value H otp" and "rr_credential rec = Some cred"
    and "map_of (credentials st) cred = Some k"
  shows "\<exists>r st'. complete_claim sv H \<lparr>cc_claim_token = token, cc_otp = otp\<rparr> (st, w) = (r, (st', w)) \<and> ar_status r = 200
    \<and> map_of (credentials st') cred = Some (k\<lparr>cr_scopes := rr_post_claim_scopes rec\<rparr>)"
  using assms by (simp add: complete_claim_def update_conv')

lemma view_shows_otp:
  assumes "registrations st = AList.update h rec regs" and "rr_claim_view_token rec = view"
    and "\<forall>(h', r) \<in> set regs. rr_claim_view_token r \<noteq> view"
  shows "ar_body (fst (view_claim_otp view (st, w))) = HtmlBody
    (''<html><body><h1>Conxian Nexus Claim Code</h1><p>Registration: '' @ rr_registration_id rec
      @ ''</p><p>OTP: <strong>'' @ rr_otp_plaintext rec @ ''</strong></p></body></html>'')"
proof -
  have "find (\<lambda>r. rr_claim_view_token r = view) (map snd (AList.update h rec regs)) = Some rec"
    using assms(2,3) by (induction regs) auto
  with assms(1) show ?thesis by (simp add: view_claim_otp_def)
qed

text \<open>Anyone can become administrator.  An anonymous registration that asks for the post-claim scope admin.write is
  answered with a claim token, a credential and a view token; the page behind the view token shows the one-time code to its
  reader; and the claim completed with token and code turns the credential into one that passes the administrator check.
  No signature, administrator token or e-mail takes part.\<close>

theorem self_service_administrator:
  assumes "start_registration sv H ae hs req (st, w) = (r, (st1, w1))"
    and "rq_registration_type req = ''anonymous''" and "rq_post_claim_scopes req = [''admin.write'']"
  shows "\<exists>fields token view cred otp. ar_body r = JsonBody (JObj fields)
    \<and> map_of fields ''claim_token'' = Some (JStr token) \<and> map_of fields ''credential'' = Some (JStr cred)
    \<and> map_of fields ''claim_view_url'' = Some (JStr (service_base hs @ ''/agent/auth/claim/view?token='' @ view))
    \<and> ((\<forall>(h, rec) \<in> set (registrations st). rr_claim_view_token rec \<noteq> view) \<longrightarrow>
        (\<exists>before after. ar_body (fst (view_claim_otp view (st1, w1))) = HtmlBody (before @ otp @ after)))
    \<and> (\<exists>r2 st2. complete_claim sv H \<lparr>cc_claim_token = token, cc_otp = otp\<rparr> (st1, w1) = (r2, (st2, w1)) \<and> ar_status r2 = 200
        \<and> (\<forall>hs'. hs' ''authorization'' = Some (''Bearer '' @ cred) \<longrightarrow> authorize_admin_write cfg (credentials st2) hs' = Inr ()))"
proof -
  from claim_after_registration [OF assms(1,2)] obtain reg_id token view otp cred rec k where
    r: "r = json_reply 200 [(''registration_id'', JStr reg_id), (''registration_type'', JStr ''email-verification''),
        (''claim_url'', JStr (service_base hs @ ''/agent/auth/claim'')), (''claim_token'', JStr token),
        (''claim_view_url'', JStr (service_base hs @ ''/agent/auth/claim/view?token='' @ view)),
        (''post_claim_scopes'', JArr (map JStr (claim_scopes req))), (''credential'', JStr cred)]"
    and rec: "registrations st1 = AList.update (hash_value H token) rec (registrations st)" "rr_claim_view_token rec = view"
      "rr_otp_plaintext rec = otp" "rr_otp_hash rec = hash_value H otp" "rr_credential rec = Some cred" "\<not> rr_claimed rec"
      "rr_post_claim_scopes rec = claim_scopes req"
    and k: "map_of (credentials st1) cred = Some k" "\<not> cr_revoked k"
    by blast
  have "map_of (registrations st1) (hash_value H token) = Some rec" by (simp add: rec(1) update_conv')
  from claim_completes [OF this rec(6,4,5) k(1), of sv w1] obtain r2 st2 where
    c: "complete_claim sv H \<lparr>cc_claim_token = token, cc_otp = otp\<rparr> (st1, w1) = (r2, (st2, w1))" "ar_status r2 = 200"
      "map_of (credentials st2) cred = Some (k\<lparr>cr_scopes := claim_scopes req\<rparr>)"
    unfolding rec(7) by blast
  have "''admin.write'' \<in> set (claim_scopes req)" using assms(3) by (simp add: claim_scopes_def)
  with c(3) k(2) have auth: "\<forall>hs'. hs' ''authorization'' = Some (''Bearer '' @ cred) \<longrightarrow>
      authorize_admin_write cfg (credentials st2) hs' = Inr ()"
    by (auto simp: authorize_admin_write_iff bearer_token_def strip_prefix_Some)
  have view: "(\<forall>(h, rec) \<in> set (registrations st). rr_claim_view_token rec \<noteq> view) \<longrightarrow>
      (\<exists>before after. ar_body (fst (view_claim_otp view (st1, w1))) = HtmlBody (before @ otp @ after))"
  proof
    assume "\<forall>(h, rec) \<in> set (registrations st). rr_claim_view_token rec \<noteq> view"
    note page = view_shows_otp [OF rec(1,2) this, of w1, unfolded rec(3)]
    show "\<exists>before after. ar_body (fst (view_claim_otp view (st1, w1))) = HtmlBody (before @ otp @ after)"
      by (rule exI [of _ "''<html><body><h1>Conxian Nexus Claim Code</h1><p>Registration: '' @ rr_registration_id rec
          @ ''</p><p>OTP: <strong>''"], rule exI [of _ "''</strong></p></body></html>''"]) (simp only: page append.assoc)
  qed
  have c': "\<exists>r2 st2. complete_claim sv H \<lparr>cc_claim_token = token, cc_otp = otp\<rparr> (st1, w1) = (r2, (st2, w1)) \<and> ar_status r2 = 200
        \<and> (\<forall>hs'. hs' ''authorization'' = Some (''Bearer '' @ cred) \<longrightarrow> authorize_admin_write cfg (credentials st2) hs' = Inr ())"
    using c(1,2) auth by blast
  obtain fields where f: "ar_body r = JsonBody (JObj fields)" "map_of fields ''claim_token'' = Some (JStr token)"
    "map_of fields ''credential'' = Some (JStr cred)"
    "map_of fields ''claim_view_url'' = Some (JStr (service_base hs @ ''/agent/auth/claim/view?token='' @ view))"
    by (simp add: r json_reply_def)
  show ?thesis
    by (rule exI [of _ fields], rule exI [of _ token], rule exI [of _ view], rule exI [of _ cred], rule exI [of _ otp])
      (intro conjI f view c')
qed

definition registered :: admin_state where
  "registered = fst (snd (start_registration offline sampleH sample_admin_env (\<lambda>_. None) sample_registration (empty_admin, ())))"

lemma registered_run:
  "\<exists>r. start_registration offline sampleH sample_admin_env (\<lambda>_. None) sample_registration (empty_admin, ()) = (r, (registered, ()))"
  unfolding registered_def by (metis old.unit.exhaust prod.collapse)

theorem self_service_administrator_witness:
  "\<exists>token otp cred r2 st2.
     complete_claim offline sampleH \<lparr>cc_claim_token = token, cc_otp = otp\<rparr> (registered, ()) = (r2, (st2, ()))
     \<and> ar_status r2 = 200
     \<and> authorize_admin_write default_test (credentials st2) [''authorization'' \<mapsto> ''Bearer '' @ cred] = Inr ()"
proof -
  obtain r where run: "start_registration offline sampleH sample_admin_env (\<lambda>_. None) sample_registration (empty_admin, ())
      = (r, (registered, ()))" using registered_run by blast
  have s: "rq_registration_type sample_registration = ''anonymous''" "rq_post_claim_scopes sample_registration = [''admin.write'']"
    by (simp_all add: sample_registration_def)
  from self_service_administrator [OF run s, where cfg = default_test] obtain token cred otp r2 st2 where
    c: "complete_claim offline sampleH \<lparr>cc_claim_token = token, cc_otp = otp\<rparr> (registered, ()) = (r2, (st2, ()))" "ar_status r2 = 200"
    and auth: "\<forall>hs'. hs' ''authorization'' = Some (''Bearer '' @ cred) \<longrightarrow> authorize_admin_write default_test (credentials st2) hs' = Inr ()"
    by (elim exE conjE) (rule that; assumption)
  have "authorize_admin_write default_test (credentials st2) [''authorization'' \<mapsto> ''Bearer '' @ cred] = Inr ()"
    by (rule auth [rule_format]) simp
  with c show ?thesis by blast
qed

theorem claim_at_most_once_witness:
  "\<exists>token otp r st2. complete_claim offline sampleH \<lparr>cc_claim_token = token, cc_otp = otp\<rparr> (registered, ()) = (r, (st2, ()))
     \<and> ar_status r = 200
     \<and> complete_claim offline sampleH \<lparr>cc_claim_token = token, cc_otp = ''000000''\<rparr> (st2, ())
         = (error_reply 409 ''previously_claimed'', (st2, ()))"
proof -
  obtain r where run: "start_registration offline sampleH sample_admin_env (\<lambda>_. None) sample_registration (empty_admin, ())
      = (r, (registered, ()))" using registered_run by blast
  have anon: "rq_registration_type sample_registration = ''anonymous''" by (simp add: sample_registration_def)
  from claim_after_registration [OF run anon] obtain token otp cred rec k where
    rec: "registrations registered = AList.update (hash_value sampleH token) rec (registrations empty_admin)"
      "rr_otp_hash rec = hash_value sampleH otp" "rr_credential rec = Some cred" "\<not> rr_claimed rec"
    and k: "map_of (credentials registered) cred = Some k"
    by (elim exE conjE) (rule that; assumption)
  have "map_of (registrations registered) (hash_value sampleH token) = Some rec" by (simp add: rec(1) update_conv')
  from claim_completes [OF this rec(4,2,3) k, of offline "()"] obtain r2 st2 where
    c: "complete_claim offline sampleH \<lparr>cc_claim_token = token, cc_otp = otp\<rparr> (registered, ()) = (r2, (st2, ()))" "ar_status r2 = 200"
    by blast
  from claim_at_most_once [OF c claim_steps.refl, where cc' = "\<lparr>cc_claim_token = token, cc_otp = ''000000''\<rparr>"
      and cq = "\<lparr>cq_claim_token = token, cq_email = []\<rparr>" and ?w2.0 = "()"]
  have "complete_claim offline sampleH \<lparr>cc_claim_token = token, cc_otp = ''000000''\<rparr> (st2, ())
      = (error_reply 409 ''previously_claimed'', (st2, ()))" by simp
  with c show ?thesis by blast
qed

end
