(* ===== verification/Nexus_Sync.thy ===== *)
theory Nexus_Sync
  imports Nexus_State_Correct Kwil Lightning Nostr
begin

text \<open>
  Block ingestion of \<^verbatim>\<open>src/sync/mod.rs\<close>, the Tableland adapter of \<^verbatim>\<open>src/storage/tableland.rs\<close> and the system audit of
  \<^verbatim>\<open>src/orchestrator.rs\<close>.  An ingested block goes through three components: the tracker records its
  transactions, the new root goes to Redis, and every new node of the range goes to Kwil.  The outer option of
  \<open>process_microblock\<close> is a panic of the tracker.
\<close>

section \<open>Ingestion\<close>

record MicroblockData =
  mb_hash :: string
  mb_height :: u64
  mb_parent_hash :: string
  mb_tx_ids :: "string list"

definition persist_root_to_redis :: "'w services \<Rightarrow> string \<Rightarrow> ('w, string, unit) io" where
  "persist_root_to_redis sv new_root =
     io_try (redis_connect sv) (\<lambda>_. redis_unit sv [''SET'', ''nexus:state_root'', new_root])"

definition node_commitment :: "u64 \<Rightarrow> node \<Rightarrow> KwilMmrNodeCommitment" where
  "node_commitment height = (\<lambda>(pos, hash). \<lparr>kn_pos = pos, kn_hash = hex_encode hash, kn_block_height = height\<rparr>)"

text \<open>The results of the writes to Kwil are dropped.\<close>

fun persist_nodes :: "'w services \<Rightarrow> kwil_env \<Rightarrow> KwilAdapter \<Rightarrow> KwilMmrNodeCommitment list \<Rightarrow> 'w \<Rightarrow> 'w" where
  "persist_nodes sv ke k [] w = w"
| "persist_nodes sv ke k (n # ns) w = persist_nodes sv ke k ns (snd (persist_mmr_node sv ke k n w))"

definition process_microblock ::
  "'w services \<Rightarrow> hasher \<Rightarrow> kwil_env \<Rightarrow> KwilAdapter option \<Rightarrow> MicroblockData \<Rightarrow> NexusState \<Rightarrow> 'w
     \<Rightarrow> ((string, unit) result \<times> NexusState \<times> 'w) option" where
  "process_microblock sv H ke kwil data s w =
     (case update_state_batch H (mb_tx_ids data) s of
        None \<Rightarrow> None
      | Some (added_nodes, s') \<Rightarrow>
          (case persist_root_to_redis sv (get_state_root s') w of
             (Inl e, w') \<Rightarrow> Some (Inl e, s', w')
           | (Inr _, w') \<Rightarrow>
               (case kwil of
                  None \<Rightarrow> Some (Inr (), s', w')
                | Some k \<Rightarrow> Some (Inr (), s', persist_nodes sv ke k (map (node_commitment (mb_height data)) added_nodes) w'))))"

section \<open>Tableland\<close>

record TablelandStateCommitment =
  tc_table_id :: string
  tc_query :: string
  tc_timestamp :: i64

text \<open>The reply as \<^verbatim>\<open>serde\<close> reads it: an object whose absent and null members are \<^verbatim>\<open>None\<close>, or the array of the two
  members; other types are an error.\<close>

fun opt_string :: "json option \<Rightarrow> (unit, string option) result" where
  "opt_string None = Inr None"
| "opt_string (Some JNull) = Inr None"
| "opt_string (Some (JStr s)) = Inr (Some s)"
| "opt_string _ = Inl ()"

definition two_members :: "json option \<Rightarrow> json option \<Rightarrow> (unit, string option \<times> string option) result" where
  "two_members h e = res_bind (opt_string h) (\<lambda>h'. res_bind (opt_string e) (\<lambda>e'. Inr (h', e')))"

definition write_response :: "json \<Rightarrow> (unit, string option \<times> string option) result" where
  "write_response j =
     (case j of
        JObj kvs \<Rightarrow> two_members (map_of kvs ''hash'') (map_of kvs ''error'')
      | JArr [h, e] \<Rightarrow> two_members (Some h) (Some e)
      | _ \<Rightarrow> Inl ())"

definition tableland_result :: "http_response \<Rightarrow> (string, string) result" where
  "tableland_result resp =
     (if \<not> is_success (hr_status resp) then Inl (''Tableland error: '' @ or_else (hr_text resp) [])
      else case (case hr_json resp of Inl _ \<Rightarrow> Inl () | Inr j \<Rightarrow> write_response j) of
        Inl _ \<Rightarrow> Inl ''Failed to parse Tableland response''
      | Inr (_, Some err) \<Rightarrow> Inl (''Tableland execution error: '' @ err)
      | Inr (Some h, None) \<Rightarrow> Inr h
      | Inr (None, None) \<Rightarrow> Inl ''No transaction hash returned from Tableland'')"

definition commit_state :: "'w services \<Rightarrow> string \<Rightarrow> TablelandStateCommitment \<Rightarrow> ('w, string, string) io" where
  "commit_state sv base_url c w =
     (case http_post sv (trim_end_char (CHR 0x2F) base_url @ ''/api/v1/query'') (JObj [(''statement'', JStr (tc_query c))]) w of
        (Inl _, w') \<Rightarrow> (Inl ''Failed to send request to Tableland'', w')
      | (Inr resp, w') \<Rightarrow> (tableland_result resp, w'))"

section \<open>The system audit\<close>

definition audit_system_state ::
  "'w services \<Rightarrow> 'w nostr_client option \<Rightarrow> NexusState \<Rightarrow> ('w, string, unit) io" where
  "audit_system_state sv nostr s =
     io_try (redis_connect sv) (\<lambda>_.
     io_then (audit_lightning_payments sv) (\<lambda>_.
     io_then (redis_u64 sv [''GET'', ''nexus:drift'']) (\<lambda>d.
     io_then (redis_bool sv [''GET'', ''nexus:safety_mode'']) (\<lambda>m.
     let drift = or_else d 0; safety_mode = or_else m False in
     (case nostr of
        Some nc \<Rightarrow>
          if safety_mode \<and> 10 < drift
          then io_then (report_health_nostr sv nc ''CRITICAL_DRIFT'' drift (get_state_root s)) (\<lambda>_. io_ok ())
          else io_ok ()
      | None \<Rightarrow> io_ok ())))))"

section \<open>Lemmas\<close>

text \<open>What ingestion relies on: Redis holds string values (\<open>val\<close>), requests to Kwil are recorded in order (\<open>posts\<close>), and
  neither disturbs the other.\<close>

definition sync_store :: "'w services \<Rightarrow> ('w \<Rightarrow> string \<rightharpoonup> string) \<Rightarrow> ('w \<Rightarrow> (string \<times> json) list) \<Rightarrow> bool" where
  "sync_store sv val posts \<longleftrightarrow>
     (\<forall>w. \<exists>w'. redis_connect sv w = (Inr (), w') \<and> val w' = val w \<and> posts w' = posts w)
     \<and> (\<forall>k v w. \<exists>w'. redis_unit sv [''SET'', k, v] w = (Inr (), w') \<and> val w' = (val w)(k \<mapsto> v) \<and> posts w' = posts w)
     \<and> (\<forall>w. val (snd (utc_now sv w)) = val w \<and> posts (snd (utc_now sv w)) = posts w)
     \<and> (\<forall>u b w. val (snd (http_post sv u b w)) = val w \<and> posts (snd (http_post sv u b w)) = posts w @ [(u, b)])"

text \<open>The request that commits a node at a given time.\<close>

definition node_request :: "kwil_env \<Rightarrow> KwilAdapter \<Rightarrow> KwilMmrNodeCommitment \<Rightarrow> string \<Rightarrow> string \<times> json" where
  "node_request ke k n created =
     (trim_end_char (CHR 0x2F) (provider_url k) @ ''/api/v1/execute'',
      JObj [(''db_id'', JStr (db_id k)), (''action'', JStr ''insert_mmr_node''),
        (''params'', JObj [(''pos'', JNum (PosInt (kn_pos n))), (''hash'', JStr (kn_hash n)),
              (''block_height'', JNum (PosInt (kn_block_height n))), (''created_at'', JStr created)]),
        (''payload'', JStr (kwil_node_payload n created)),
        (''signature'', JStr (wallet_sign ke (kwil_node_payload n created)))])"

lemma persist_mmr_node_posts:
  assumes "sync_store sv val posts"
  shows "val (snd (persist_mmr_node sv ke k n w)) = val w
    \<and> (\<exists>created. posts (snd (persist_mmr_node sv ke k n w)) = posts w @ [node_request ke k n created])"
proof -
  obtain t w1 where w1: "utc_now sv w = (t, w1)" by fastforce
  with assms have k: "val w1 = val w" "posts w1 = posts w" unfolding sync_store_def by (metis snd_conv)+
  have "snd (kwil_execute sv ke k a p q c v) = snd (http_post sv (trim_end_char (CHR 0x2F) (provider_url k) @ ''/api/v1/execute'')
      (JObj [(''db_id'', JStr (db_id k)), (''action'', JStr a), (''params'', p), (''payload'', JStr q),
        (''signature'', JStr (wallet_sign ke q))]) v)" for a p q c v
    by (simp add: kwil_execute_def Let_def split: prod.split sum.split)
  with assms w1 k show ?thesis
    by (auto simp: persist_mmr_node_def Let_def sync_store_def node_request_def)
qed

lemma persist_nodes_posts:
  assumes "sync_store sv val posts"
  shows "val (persist_nodes sv ke k ns w) = val w
    \<and> (\<exists>times. length times = length ns
        \<and> posts (persist_nodes sv ke k ns w) = posts w @ map2 (node_request ke k) ns times)"
proof (induction ns arbitrary: w)
  case Nil
  then show ?case by simp
next
  case (Cons n ns)
  obtain created where c: "posts (snd (persist_mmr_node sv ke k n w)) = posts w @ [node_request ke k n created]"
    "val (snd (persist_mmr_node sv ke k n w)) = val w"
    using persist_mmr_node_posts [OF assms] by blast
  obtain times where "length times = length ns"
    "posts (persist_nodes sv ke k (n # ns) w) = posts w @ [node_request ke k n created] @ map2 (node_request ke k) ns times"
    using Cons.IH [of "snd (persist_mmr_node sv ke k n w)"] c(1) by auto
  then have "length (created # times) = length (n # ns)
      \<and> posts (persist_nodes sv ke k (n # ns) w) = posts w @ map2 (node_request ke k) (n # ns) (created # times)" by simp
  with Cons.IH c(2) show ?case by (metis persist_nodes.simps(2))
qed

section \<open>Properties\<close>

text \<open>C12: Ingestion of a block on a reachable tracker, while Redis answers.  It succeeds; the tracker has the block's transactions after the old
  ones; Redis holds the new state root; and Kwil receives, in the order of their consecutive positions from the old node counter on,
  exactly one signed commitment for each node the range gained, with the hash that the range computed.\<close>

theorem microblock_ingested:
  assumes "nexus_reachable H s" and "sync_store sv val posts"
  shows "\<exists>nodes times s' w'.
    process_microblock sv H ke (Some k) data s w = Some (Inr (), s', w')
    \<and> update_state_batch H (mb_tx_ids data) s = Some (nodes, s') \<and> nexus_reachable H s'
    \<and> leaves s' = leaves s @ mb_tx_ids data \<and> map fst nodes = [node_count (mmr s)..<node_count (mmr s')]
    \<and> val w' = (val w)(''nexus:state_root'' \<mapsto> get_state_root s')
    \<and> length times = length nodes
    \<and> posts w' = posts w @ map2 (node_request ke k) (map (node_commitment (mb_height data)) nodes) times"
proof -
  obtain nodes s' where u: "update_state_batch H (mb_tx_ids data) s = Some (nodes, s')" "leaves s' = leaves s @ mb_tx_ids data"
    "map fst nodes = [node_count (mmr s)..<node_count (mmr s')]"
    using update_state_batch_inv [OF reachable_inv [OF assms(1)], of "mb_tx_ids data"] by blast
  obtain w1 where w1: "redis_connect sv w = (Inr (), w1)" "val w1 = val w" "posts w1 = posts w"
    using assms(2) unfolding sync_store_def by blast
  obtain w2 where w2: "redis_unit sv [''SET'', ''nexus:state_root'', get_state_root s'] w1 = (Inr (), w2)"
    "val w2 = (val w1)(''nexus:state_root'' \<mapsto> get_state_root s')" "posts w2 = posts w1"
    using assms(2) unfolding sync_store_def by blast
  let ?ns = "map (node_commitment (mb_height data)) nodes"
  have run: "process_microblock sv H ke (Some k) data s w = Some (Inr (), s', persist_nodes sv ke k ?ns w2)"
    by (simp add: process_microblock_def u(1) persist_root_to_redis_def w1(1) w2(1))
  from persist_nodes_posts [OF assms(2), of ke k ?ns w2] w1 w2 run u nexus_reachable.batch [OF assms(1) u(1)]
  show ?thesis by auto
qed

text \<open>A failure of Redis leaves the components apart: the call reports the error, but the tracker has already recorded the
  block, its nodes have not been sent to Kwil, and no later call sends them, because the next block's nodes
  start at the advanced counter.\<close>

theorem microblock_redis_failure:
  assumes "nexus_reachable H s" and "\<forall>r. persist_root_to_redis sv r w = (Inl e, w')"
  shows "\<exists>nodes s'. process_microblock sv H ke (Some k) data s w = Some (Inl e, s', w')
    \<and> update_state_batch H (mb_tx_ids data) s = Some (nodes, s') \<and> leaves s' = leaves s @ mb_tx_ids data
    \<and> (\<forall>txs nodes2 s2. update_state_batch H txs s' = Some (nodes2, s2) \<longrightarrow> fst ` set nodes2 \<inter> fst ` set nodes = {})"
proof -
  obtain nodes s' where u: "update_state_batch H (mb_tx_ids data) s = Some (nodes, s')" "leaves s' = leaves s @ mb_tx_ids data"
    "map fst nodes = [node_count (mmr s)..<node_count (mmr s')]"
    using update_state_batch_inv [OF reachable_inv [OF assms(1)], of "mb_tx_ids data"] by blast
  have later: "fst ` set nodes2 \<inter> fst ` set nodes = {}" if n2: "update_state_batch H txs s' = Some (nodes2, s2)" for txs nodes2 s2
  proof -
    have "map fst nodes2 = [node_count (mmr s')..<node_count (mmr s2)]"
      using update_state_batch_inv [OF reachable_inv [OF nexus_reachable.batch [OF assms(1) u(1)]], of txs] n2 by auto
    with u(3) have "fst ` set nodes2 = {node_count (mmr s')..<node_count (mmr s2)}"
      "fst ` set nodes = {node_count (mmr s)..<node_count (mmr s')}" by (metis list.set_map set_upt)+
    then show ?thesis by auto
  qed
  have "process_microblock sv H ke (Some k) data s w = Some (Inl e, s', w')"
    using assms(2) u(1) by (simp add: process_microblock_def)
  with u(1,2) later show ?thesis by blast
qed

definition sample_block :: MicroblockData where
  "sample_block = \<lparr>mb_hash = ''h'', mb_height = 7, mb_parent_hash = ''p'', mb_tx_ids = [''a'', ''b'']\<rparr>"

theorem microblock_redis_failure_witness:
  "\<exists>s'. process_microblock offline sampleH \<lparr>wallet_sign = (\<lambda>_. []), to_rfc3339 = (\<lambda>_. []), debug_f64 = (\<lambda>_. [])\<rparr>
     (Some \<lparr>provider_url = [], db_id = []\<rparr>) sample_block state_new () = Some (Inl ''offline'', s', ()) \<and> leaves s' = [''a'', ''b'']"
proof -
  have "\<forall>r. persist_root_to_redis offline r () = (Inl ''offline'', ())"
    by (simp add: persist_root_to_redis_def offline_def)
  from microblock_redis_failure [OF nexus_reachable.fresh this, where data = sample_block and H = sampleH
      and ke = "\<lparr>wallet_sign = (\<lambda>_. []), to_rfc3339 = (\<lambda>_. []), debug_f64 = (\<lambda>_. [])\<rparr>" and k = "\<lparr>provider_url = [], db_id = []\<rparr>"]
  show ?thesis by (auto simp: sample_block_def state_new_def)
qed

text \<open>Services that keep string values and record what is posted.\<close>

definition sync_memory :: "((string \<rightharpoonup> string) \<times> (string \<times> json) list) services" where
  "sync_memory = offline\<lparr>redis_connect := io_ok (),
     redis_unit := (\<lambda>c (m, p). (Inr (), (m(c ! 1 \<mapsto> c ! 2), p))),
     http_post := (\<lambda>u b (m, p). (Inl ''closed'', (m, p @ [(u, b)])))\<rparr>"

lemma sync_memory_store: "sync_store sync_memory fst snd"
  by (simp add: sync_store_def sync_memory_def offline_def split: prod.split)

theorem microblock_ingested_witness:
  "\<exists>s' m posts. process_microblock sync_memory sampleH \<lparr>wallet_sign = (\<lambda>_. []), to_rfc3339 = (\<lambda>_. []), debug_f64 = (\<lambda>_. [])\<rparr>
     (Some \<lparr>provider_url = [], db_id = []\<rparr>) sample_block state_new (Map.empty, []) = Some (Inr (), s', (m, posts))
     \<and> leaves s' = [''a'', ''b''] \<and> m ''nexus:state_root'' = Some (get_state_root s')"
proof -
  from microblock_ingested [OF nexus_reachable.fresh sync_memory_store, where data = sample_block and H = sampleH
      and ke = "\<lparr>wallet_sign = (\<lambda>_. []), to_rfc3339 = (\<lambda>_. []), debug_f64 = (\<lambda>_. [])\<rparr>"
      and k = "\<lparr>provider_url = [], db_id = []\<rparr>" and w = "(Map.empty, [])"]
  show ?thesis by (fastforce simp: sample_block_def state_new_def)
qed

end
