(* ===== verification/Rest.thy ===== *)
theory Rest
  imports State_Properties Executor
begin

text \<open>
  The REST handlers of \<^verbatim>\<open>src/api/rest.rs\<close> over the tracker, the executor and the adapters.  A typed answer stands
  for its JSON body; \<open>ErrJson\<close> is the body with the one member \<^verbatim>\<open>error\<close>.  The outer option of the proof
  endpoints is a panic of the tracker.
\<close>

section \<open>Data\<close>

datatype 'a api_reply = Json nat 'a | ErrJson nat string | ErrText nat string

fun api_status :: "'a api_reply \<Rightarrow> nat" where
  "api_status (Json s _) = s" | "api_status (ErrJson s _) = s" | "api_status (ErrText s _) = s"

record MMRProofParams =
  mq_index :: "u64 option"
  mq_tx_id :: "string option"

record ProofResponse =
  pr_root :: string
  pr_proof :: string

record HealthResponse =
  hs_status :: string
  hs_version :: string
  hs_safety_mode :: bool

record HealthStatus =
  he_status :: string
  he_version :: string
  he_safety_mode :: bool
  he_uptime_seconds :: "u64 option"

record ProofRoutes =
  proof_endpoint :: string
  mmr_proof_endpoint :: string
  health_endpoint :: string
  submit_endpoint :: string

record MmrInfo =
  mi_leaf_count :: "nat option"
  mi_peaks :: "string list"
  mi_initialized :: bool

record ServiceMetadata =
  sm_version :: string
  proof_surface_version :: string
  supported_chains :: "string list"

record ProofManifest =
  pm_health :: HealthStatus
  pm_proof_routes :: ProofRoutes
  pm_state_root :: "string option"
  pm_mmr_info :: MmrInfo
  pm_service :: ServiceMetadata

text \<open>\<^verbatim>\<open>env!("CARGO_PKG_VERSION")\<close>\<close>

definition pkg_version :: string where
  "pkg_version = ''0.4.22''"

section \<open>Adapters\<close>

definition get_rgb_contract :: "NexusExecutor \<Rightarrow> string \<Rightarrow> RGBContractMetadata api_reply" where
  "get_rgb_contract ex cid =
     (case lookup_contract (rgb_adapter ex) cid of
        Inr (Some metadata) \<Rightarrow> Json 200 metadata
      | Inr None \<Rightarrow> ErrText 404 ''Contract not found''
      | Inl e \<Rightarrow> ErrText 500 e)"

definition answer_verification :: "(string, 'a) result \<Rightarrow> 'a api_reply" where
  "answer_verification r = (case r of Inr res \<Rightarrow> Json 200 res | Inl e \<Rightarrow> ErrJson 500 e)"

definition verify_bitvm_transition ::
  "'w services \<Rightarrow> hasher \<Rightarrow> ('p, 'k, 'f) groth16 \<Rightarrow> BitVMTransition \<Rightarrow> 'w \<Rightarrow> BitVMVerificationResult api_reply \<times> 'w" where
  "verify_bitvm_transition sv H g t w = (case verify_transition sv H g t w of (r, w') \<Rightarrow> (answer_verification r, w'))"

definition verify_evm_receipt :: "'w services \<Rightarrow> EVMReceiptProof \<Rightarrow> 'w \<Rightarrow> EVMVerificationResult api_reply \<times> 'w" where
  "verify_evm_receipt sv p w = (case verify_receipt_proof sv p w of (r, w') \<Rightarrow> (answer_verification r, w'))"

definition verify_cosmos_ibc :: "'w services \<Rightarrow> IBCClientUpdate \<Rightarrow> 'w \<Rightarrow> IBCVerificationResult api_reply \<times> 'w" where
  "verify_cosmos_ibc sv u w = (case verify_client_update sv u w of (r, w') \<Rightarrow> (answer_verification r, w'))"

definition verify_stacks_tx :: "StacksTransaction \<Rightarrow> StacksVerificationResult api_reply" where
  "verify_stacks_tx t = answer_verification (verify_transaction t)"

section \<open>Proofs\<close>

definition get_proof :: "NexusState \<Rightarrow> string \<Rightarrow> ProofResponse api_reply option" where
  "get_proof s key = map_option (\<lambda>(r, p). Json 200 \<lparr>pr_root = r, pr_proof = p\<rparr>) (generate_proof key s)"

text \<open>The leaf index of a request: given, found by transaction id, or an error answer.\<close>

definition requested_leaf :: "NexusState \<Rightarrow> MMRProofParams \<Rightarrow> ('a api_reply, nat option) result" where
  "requested_leaf s q =
     (case mq_index q of
        Some idx \<Rightarrow> Inr (Some idx)
      | None \<Rightarrow>
          (case mq_tx_id q of
             Some txid \<Rightarrow>
               if \<not> starts_with txid ''0x'' \<or> length txid \<noteq> 66 then Inl (ErrJson 400 ''Invalid tx_id format'')
               else Inr (get_leaf_index txid s)
           | None \<Rightarrow> Inr None))"

definition get_mmr_proof :: "hasher \<Rightarrow> NexusState \<Rightarrow> MMRProofParams \<Rightarrow> MMRProof api_reply" where
  "get_mmr_proof H s q =
     (case requested_leaf s q of
        Inl e \<Rightarrow> e
      | Inr None \<Rightarrow> ErrJson 404 ''Leaf not found''
      | Inr (Some idx) \<Rightarrow>
          (case (get_leaf_by_index idx s, get_mmr_proof_metadata idx s) of
             (Some leaf, Some (pos, _)) \<Rightarrow> Json 200 (assemble_mmr_proof H leaf pos [] s)
           | _ \<Rightarrow> ErrJson 500 ''Failed to generate MMR proof''))"

section \<open>Submission and health\<close>

text \<open>The state of the endpoint is the executor, the gauge of transactions and the world.\<close>

definition submit_transaction ::
  "'w services \<Rightarrow> hasher \<Rightarrow> ExecutionRequest \<Rightarrow> NexusExecutor \<times> i64 \<times> 'w \<Rightarrow> string api_reply \<times> (NexusExecutor \<times> i64 \<times> 'w)" where
  "submit_transaction sv H req = (\<lambda>(ex, count, w).
     case submit sv H req (ex, w) of
       (Inr txid, (ex', w')) \<Rightarrow> (Json 202 txid, (ex', wrap_i64 (count + 1), w'))
     | (Inl e, (ex', w')) \<Rightarrow> (ErrJson 400 e, (ex', count, w')))"

definition health_handler :: "'w services \<Rightarrow> 'w \<Rightarrow> HealthResponse \<times> 'w" where
  "health_handler sv w =
     (case is_safety_mode_active sv w of (r, w') \<Rightarrow>
        (\<lparr>hs_status = ''ok'', hs_version = pkg_version, hs_safety_mode = or_else r False\<rparr>, w'))"

definition get_proof_manifest :: "'w services \<Rightarrow> NexusState \<Rightarrow> 'w \<Rightarrow> (ProofManifest \<times> 'w) option" where
  "get_proof_manifest sv s w =
     (case is_safety_mode_active sv w of (r, w') \<Rightarrow>
      let (mmr_peaks_raw, mmr_leaf_count) = get_mmr_state s in
      case generate_proof ''state_root'' s of
        None \<Rightarrow> None
      | Some (sroot, _) \<Rightarrow>
          Some (\<lparr>pm_health = \<lparr>he_status = ''ok'', he_version = pkg_version, he_safety_mode = or_else r False,
                   he_uptime_seconds = None\<rparr>,
                 pm_proof_routes = \<lparr>proof_endpoint = ''/v1/proof?key=<key>'', mmr_proof_endpoint = ''/v1/mmr-proof?index=<n>'',
                   health_endpoint = ''/health'', submit_endpoint = ''/v1/submit''\<rparr>,
                 pm_state_root = (if sroot = [] then None else Some sroot),
                 pm_mmr_info = \<lparr>mi_leaf_count = Some mmr_leaf_count, mi_peaks = map hex_encode mmr_peaks_raw,
                   mi_initialized = True\<rparr>,
                 pm_service = \<lparr>sm_version = pkg_version, proof_surface_version = ''1.0.0'',
                   supported_chains = [''stacks'', ''bitcoin'', ''evm'', ''cosmos'']\<rparr>\<rparr>, w'))"

section \<open>Lemmas\<close>

lemma position_le: "position P xs = Some i \<Longrightarrow> i < length xs"
  by (simp add: position_Some_iff)

lemma generate_proof_root:
  assumes "nexus_reachable H s"
  shows "\<exists>p. generate_proof key s = Some (state_root s, p)"
  using generate_merkle_proof_spec [OF reachable_inv [OF assms], of key]
  by (auto simp: generate_proof_def get_state_root_def split: if_splits)

lemma metadata_range:
  assumes "nexus_reachable H s" and "i < length (leaves s)" and "length (leaves s) \<le> 2 ^ 62"
  shows "\<exists>pos sibs. get_mmr_proof_metadata i s = Some (pos, sibs)
    \<and> map_of (range_log H s) pos = Some (H (as_bytes (leaves s ! i)))"
  using range_proof [OF reachable_inv [OF assms(1)] assms(2,3)] unfolding leaf_digest_def by blast

section \<open>Properties\<close>

text \<open>The proof endpoints on a reachable tracker.  The Merkle endpoint never fails and reports the current state root.
  The range endpoint rejects a transaction id that is no hash literal with 400, answers 404 for an id that was not recorded
  or an empty query, 500 for an index past the end, and otherwise 200 with the leaf, the position at which the range holds
  exactly its hash, the current peaks and the range root; the sibling list in the answer is always empty.\<close>

theorem proof_endpoints_answer:
  assumes "nexus_reachable H s" and "length (leaves s) \<le> 2 ^ 62"
  shows "(\<exists>p. get_proof s key = Some (Json 200 \<lparr>pr_root = get_state_root s, pr_proof = p\<rparr>))
    \<and> (case mq_index q of
         Some i \<Rightarrow>
           (if i < length (leaves s)
            then \<exists>proof. get_mmr_proof H s q = Json 200 proof \<and> mmrp_leaf proof = leaves s ! i
              \<and> map_of (range_log H s) (mmrp_pos proof) = Some (H (as_bytes (leaves s ! i)))
              \<and> mmrp_root proof = get_mmr_root H s \<and> mmrp_siblings proof = []
            else api_status (get_mmr_proof H s q) = 500)
       | None \<Rightarrow>
           (case mq_tx_id q of
              None \<Rightarrow> api_status (get_mmr_proof H s q) = 404
            | Some t \<Rightarrow>
                if \<not> starts_with t ''0x'' \<or> length t \<noteq> 66 then api_status (get_mmr_proof H s q) = 400
                else if t \<notin> set (leaves s) then api_status (get_mmr_proof H s q) = 404
                else \<exists>proof. get_mmr_proof H s q = Json 200 proof \<and> mmrp_leaf proof = t
                  \<and> map_of (range_log H s) (mmrp_pos proof) = Some (H (as_bytes t)) \<and> mmrp_siblings proof = []))"
    (is "_ \<and> (case _ of Some i \<Rightarrow> _ i | None \<Rightarrow> ?byid)")
proof -
  have found: "\<exists>proof. get_mmr_proof H s q = Json 200 proof \<and> mmrp_leaf proof = leaves s ! i
      \<and> map_of (range_log H s) (mmrp_pos proof) = Some (H (as_bytes (leaves s ! i)))
      \<and> mmrp_root proof = get_mmr_root H s \<and> mmrp_siblings proof = []"
    if "requested_leaf s q = (Inr (Some i) :: (MMRProof api_reply, nat option) result)" "i < length (leaves s)" for i
    using that metadata_range [OF assms(1) that(2) assms(2)]
    by (auto simp: get_mmr_proof_def get_leaf_by_index_def assemble_mmr_proof_def get_mmr_root_def)
  have tx: "t \<in> set (leaves s) \<Longrightarrow> \<exists>i. get_leaf_index t s = Some i \<and> i < length (leaves s) \<and> leaves s ! i = t"
    "t \<notin> set (leaves s) \<Longrightarrow> get_leaf_index t s = None" for t
    by (cases "get_leaf_index t s"; auto simp: get_leaf_index_def position_Some_iff position_None_iff)+
  have "\<exists>p. get_proof s key = Some (Json 200 \<lparr>pr_root = get_state_root s, pr_proof = p\<rparr>)"
    using generate_proof_root [OF assms(1), of key] by (auto simp: get_proof_def get_state_root_def)
  moreover have "case mq_index q of
         Some i \<Rightarrow>
           (if i < length (leaves s)
            then \<exists>proof. get_mmr_proof H s q = Json 200 proof \<and> mmrp_leaf proof = leaves s ! i
              \<and> map_of (range_log H s) (mmrp_pos proof) = Some (H (as_bytes (leaves s ! i)))
              \<and> mmrp_root proof = get_mmr_root H s \<and> mmrp_siblings proof = []
            else api_status (get_mmr_proof H s q) = 500)
       | None \<Rightarrow> ?byid"
  proof (cases "mq_index q")
    case (Some i)
    then show ?thesis using found [of i] by (simp add: requested_leaf_def get_mmr_proof_def get_leaf_by_index_def)
  next
    case None
    have ?byid
    proof (cases "mq_tx_id q")
      case (Some t)
      then show ?thesis
        using None tx [of t] found by (auto simp: requested_leaf_def get_mmr_proof_def)
    qed (simp add: None requested_leaf_def get_mmr_proof_def)
    with None show ?thesis by simp
  qed
  ultimately show ?thesis ..
qed

theorem proof_endpoints_answer_witness:
  "\<exists>proof. get_mmr_proof sampleH (loaded sampleH [''tx1'', ''tx2'', ''tx3'']) \<lparr>mq_index = Some 1, mq_tx_id = None\<rparr> = Json 200 proof
     \<and> mmrp_leaf proof = ''tx2'' \<and> mmrp_siblings proof = []"
  using proof_endpoints_answer [OF loaded_reachable [of sampleH "[''tx1'', ''tx2'', ''tx3'']"],
      where q = "\<lparr>mq_index = Some 1, mq_tx_id = None\<rparr>"]
  by (auto simp: leaves_loaded)

text \<open>The submission endpoint.  Its answer is 202 with the transaction id exactly when the executor accepts, and then the
  gauge has grown by one; every refusal, the safety mode included, is a 400 that carries the executor's error and leaves the
  gauge alone.  While the safety mode reads as active the refusal is certain and nothing but the flag is read; when
  the flag cannot be read because Redis is unreachable, the submission is refused as well, whereas the health endpoint
  then reports that the safety mode is off.\<close>

theorem submission_endpoint:
  assumes run: "submit sv H req (ex, w) = (r, (ex', w'))" and count: "0 \<le> count" "count < 2 ^ 63 - 1"
  shows "submit_transaction sv H req (ex, count, w) =
      (case r of Inr txid \<Rightarrow> (Json 202 txid, (ex', count + 1, w')) | Inl e \<Rightarrow> (ErrJson 400 e, (ex', count, w')))
    \<and> (\<forall>w1. is_safety_mode_active sv w = (Inr True, w1) \<longrightarrow>
         api_status (fst (submit_transaction sv H req (ex, count, w))) = 400
         \<and> snd (submit_transaction sv H req (ex, count, w)) = (ex, count, w1))
    \<and> (\<forall>e w1. redis_connect sv w = (Inl e, w1) \<longrightarrow>
         submit_transaction sv H req (ex, count, w) = (ErrJson 400 e, (ex, count, w1))
         \<and> \<not> hs_safety_mode (fst (health_handler sv w)))"
proof -
  have "wrap_i64 (count + 1) = count + 1" using count by (simp add: wrap_i64_id is_i64_def)
  then have "submit_transaction sv H req (ex, count, w) =
      (case r of Inr txid \<Rightarrow> (Json 202 txid, (ex', count + 1, w')) | Inl e \<Rightarrow> (ErrJson 400 e, (ex', count, w')))"
    by (simp add: submit_transaction_def run split: sum.splits)
  moreover have "api_status (fst (submit_transaction sv H req (ex, count, w))) = 400
      \<and> snd (submit_transaction sv H req (ex, count, w)) = (ex, count, w1)"
    if "is_safety_mode_active sv w = (Inr True, w1)" for w1
    using that by (simp add: submit_transaction_def submit_def check_safety_mode_def)
  moreover have "submit_transaction sv H req (ex, count, w) = (ErrJson 400 e, (ex, count, w1))
      \<and> \<not> hs_safety_mode (fst (health_handler sv w))" if "redis_connect sv w = (Inl e, w1)" for e w1
    using that by (simp add: submit_transaction_def submit_def check_safety_mode_def is_safety_mode_active_def health_handler_def)
  ultimately show ?thesis by blast
qed

theorem submission_endpoint_witness:
  "fst (submit_transaction accepting sampleH sample_request (executor_new Active [], 4, [])) = Json 202 ''tx1''"
proof -
  obtain ex' w' where run: "submit accepting sampleH sample_request (executor_new Active [], []) = (Inr ''tx1'', (ex', w'))"
    by (simp add: accepting_submit sample_request_def executor_new_def)
  from submission_endpoint [OF run, of 4] show ?thesis by simp
qed

end
