(* ===== verification/Grpc.thy ===== *)
theory Grpc
  imports Nexus_Config Nexus_State_Correct Executor
begin

text \<open>
  The gRPC service of \<^verbatim>\<open>src/api/grpc.rs\<close>: the authentication interceptor, the cache of the metrics counts with its refresh
  lock, the reading of the safety flags with one retry, and the six remote calls.  The queries that only this service
  uses, the monotonic clock, the reader of RFC 3339 times and the statuses that \<^verbatim>\<open>lib_conxian_core\<close> reports are the
  record \<open>grpc_env\<close>.
\<close>

section \<open>Data\<close>

datatype grpc_error = Unauthenticated string | Internal string

record ServiceStatus =
  service_name :: string
  service_state :: string
  service_version :: string

text \<open>Instants are nanoseconds of the monotonic clock.\<close>

record 'w grpc_env =
  redis_opt_pair :: "string list list \<Rightarrow> ('w, string, string option \<times> string option) io"
  pg_counts :: "('w, string, i64 \<times> i64) io"
  pg_max_live_height :: "('w, string, i64 option) io"
  instant_now :: "'w \<Rightarrow> nat \<times> 'w"
  parse_datetime :: "string \<Rightarrow> time option"
  bisq_status :: ServiceStatus
  rgb_core_status :: ServiceStatus
  bitvm_status :: ServiceStatus

text \<open>The mutable part of \<^verbatim>\<open>NexusGrpcService\<close>: the cached counts with the instant of their query, and whether a
  connection to Redis is kept.\<close>

record NexusGrpcService =
  metrics_counts_cache :: "(nat \<times> u64 \<times> u64) option"
  redis_conn :: bool

definition grpc_new :: NexusGrpcService where
  "grpc_new = \<lparr>metrics_counts_cache = None, redis_conn = False\<rparr>"

definition METRICS_COUNTS_CACHE_TTL :: nat where
  "METRICS_COUNTS_CACHE_TTL = 10 * 1000000000"

record StatusResponse =
  st_state_root :: string
  st_mmr_root :: string
  st_processed_height :: u64
  st_safety_mode :: bool
  st_drift :: u64

record MetricsResponse =
  mr_total_transactions :: u64
  mr_total_blocks :: u64
  mr_safety_mode :: bool
  mr_drift :: u64
  mr_uptime_seconds :: u64

record ExecuteRequest =
  er_tx_id :: string
  er_payload :: string
  er_sender :: string
  er_timestamp :: string

record ExecuteResponse =
  ex_tx_id :: string
  ex_status :: string
  ex_message :: string

section \<open>Authentication\<close>

text \<open>The argument is the value of the metadata entry \<^verbatim>\<open>x-api-key\<close> where it is present and visible ASCII.\<close>

definition grpc_auth_interceptor :: "string option \<Rightarrow> (grpc_error, unit) result" where
  "grpc_auth_interceptor entry =
     res_bind (ok_or entry (Unauthenticated ''Missing API key'')) (\<lambda>api_key.
     if length api_key < 16 then Inl (Unauthenticated ''Invalid API key format'')
     else if api_key = ''dev-mode'' then Inr ()
     else Inr ())"

section \<open>The cache of the counts\<close>

definition fresh_counts :: "nat \<Rightarrow> (nat \<times> u64 \<times> u64) option \<Rightarrow> (u64 \<times> u64) option" where
  "fresh_counts now v =
     (case v of
        Some (cached_at, tx_count, block_count) \<Rightarrow>
          if now - cached_at < METRICS_COUNTS_CACHE_TTL then Some (tx_count, block_count) else None
      | None \<Rightarrow> None)"

definition read_fresh_cached_metrics_counts ::
  "'w grpc_env \<Rightarrow> NexusGrpcService \<times> 'w \<Rightarrow> (u64 \<times> u64) option \<times> (NexusGrpcService \<times> 'w)" where
  "read_fresh_cached_metrics_counts ge = (\<lambda>(svc, w).
     case metrics_counts_cache svc of
       None \<Rightarrow> (None, (svc, w))
     | Some _ \<Rightarrow> (case instant_now ge w of (now, w') \<Rightarrow> (fresh_counts now (metrics_counts_cache svc), (svc, w'))))"

definition fetch_metrics_counts :: "'w grpc_env \<Rightarrow> ('w, grpc_error, u64 \<times> u64) io" where
  "fetch_metrics_counts ge w =
     (case pg_counts ge w of
        (Inl _, w') \<Rightarrow> (Inl (Internal ''Database error in GetMetrics''), w')
      | (Inr (tx_count, block_count), w') \<Rightarrow> (Inr (as_u64 tx_count, as_u64 block_count), w'))"

definition read_cached_metrics_counts ::
  "'w grpc_env \<Rightarrow> (NexusGrpcService \<times> 'w, grpc_error, u64 \<times> u64) io" where
  "read_cached_metrics_counts ge s =
     (case read_fresh_cached_metrics_counts ge s of
        (Some counts, s') \<Rightarrow> (Inr counts, s')
      | (None, s') \<Rightarrow>
          (case read_fresh_cached_metrics_counts ge s' of
             (Some counts, s'') \<Rightarrow> (Inr counts, s'')
           | (None, (svc, w)) \<Rightarrow>
               (case fetch_metrics_counts ge w of
                  (Inl e, w') \<Rightarrow> (Inl e, (svc, w'))
                | (Inr (tx_count, block_count), w') \<Rightarrow>
                    (case instant_now ge w' of (now, w'') \<Rightarrow>
                       (Inr (tx_count, block_count),
                        (svc\<lparr>metrics_counts_cache := Some (now, tx_count, block_count)\<rparr>, w''))))))"

section \<open>The safety flags\<close>

definition safety_flag :: "string option \<Rightarrow> bool" where
  "safety_flag raw =
     (case raw of
        None \<Rightarrow> False
      | Some r \<Rightarrow>
          (let normalized = to_ascii_lowercase (trim r) in
           if parse_flag normalized then True
           else if normalized \<in> {'''', ''0'', ''false'', ''no'', ''off''} then False
           else False))"

definition drift_value :: "string option \<Rightarrow> u64" where
  "drift_value raw =
     (case raw of
        None \<Rightarrow> 0
      | Some r \<Rightarrow>
          (let trimmed = trim r in
           if trimmed = [] then 0
           else case parse_unsigned (2 ^ 64) trimmed of Some v \<Rightarrow> v | None \<Rightarrow> 0))"

definition get_flags :: "'w grpc_env \<Rightarrow> ('w, string, string option \<times> string option) io" where
  "get_flags ge = redis_opt_pair ge [[''GET'', ''nexus:safety_mode''], [''GET'', ''nexus:drift'']]"

definition read_safety_flags ::
  "'w services \<Rightarrow> 'w grpc_env \<Rightarrow> NexusGrpcService \<times> 'w \<Rightarrow> (bool \<times> u64) \<times> (NexusGrpcService \<times> 'w)" where
  "read_safety_flags sv ge = (\<lambda>(svc, w).
     case (if redis_conn svc then (Inr (), w) else redis_connect sv w) of
       (Inl _, w1) \<Rightarrow> ((True, 0), (svc, w1))
     | (Inr _, w1) \<Rightarrow>
         (case get_flags ge w1 of
            (Inr (safety_raw, drift_raw), w2) \<Rightarrow>
              ((safety_flag safety_raw, drift_value drift_raw), (svc\<lparr>redis_conn := True\<rparr>, w2))
          | (Inl _, w2) \<Rightarrow>
              (case redis_connect sv w2 of
                 (Inl _, w3) \<Rightarrow> ((True, 0), (svc\<lparr>redis_conn := False\<rparr>, w3))
               | (Inr _, w3) \<Rightarrow>
                   (case get_flags ge w3 of
                      (Inr (safety_raw, drift_raw), w4) \<Rightarrow>
                        ((safety_flag safety_raw, drift_value drift_raw), (svc\<lparr>redis_conn := True\<rparr>, w4))
                    | (Inl _, w4) \<Rightarrow> ((True, 0), (svc\<lparr>redis_conn := False\<rparr>, w4))))))"

section \<open>The remote calls\<close>

definition grpc_get_proof :: "NexusState \<Rightarrow> string \<Rightarrow> (string \<times> string) option" where
  "grpc_get_proof s key =
     (case generate_merkle_proof key s of
        None \<Rightarrow> None
      | Some (Some p) \<Rightarrow> Some (mp_root p, merkle_proof_json p)
      | Some None \<Rightarrow> Some (get_state_root s, ''{}''))"

definition verify_state :: "hasher \<Rightarrow> NexusState \<Rightarrow> string \<Rightarrow> bool \<times> string" where
  "verify_state H s r = (get_state_root s = r, get_mmr_root H s)"

definition get_status ::
  "'w services \<Rightarrow> 'w grpc_env \<Rightarrow> hasher \<Rightarrow> NexusState \<Rightarrow> (NexusGrpcService \<times> 'w, grpc_error, StatusResponse) io" where
  "get_status sv ge H s = (\<lambda>(svc, w).
     case pg_max_live_height ge w of
       (Inl _, w1) \<Rightarrow> (Inl (Internal ''Database error in GetStatus (max_height)''), (svc, w1))
     | (Inr max_height, w1) \<Rightarrow>
         (case read_safety_flags sv ge (svc, w1) of ((safety_mode, drift), s2) \<Rightarrow>
            (Inr \<lparr>st_state_root = get_state_root s, st_mmr_root = get_mmr_root H s,
                  st_processed_height = nat (max (case max_height of None \<Rightarrow> 0 | Some h \<Rightarrow> h) 0),
                  st_safety_mode = safety_mode, st_drift = drift\<rparr>, s2)))"

definition get_uptime :: "nat option \<Rightarrow> nat \<Rightarrow> u64" where
  "get_uptime start_time now = (case start_time of Some t \<Rightarrow> (now - t) div 1000000000 | None \<Rightarrow> 0)"

definition get_metrics ::
  "'w services \<Rightarrow> 'w grpc_env \<Rightarrow> nat option \<Rightarrow> (NexusGrpcService \<times> 'w, grpc_error, MetricsResponse) io" where
  "get_metrics sv ge start_time =
     io_try (read_cached_metrics_counts ge) (\<lambda>(tx_count, block_count) s.
     case read_safety_flags sv ge s of ((safety_mode, drift), (svc, w)) \<Rightarrow>
     case (if start_time = None then (0, w) else instant_now ge w) of (now, w') \<Rightarrow>
       (Inr \<lparr>mr_total_transactions = tx_count, mr_total_blocks = block_count, mr_safety_mode = safety_mode,
             mr_drift = drift, mr_uptime_seconds = get_uptime start_time now\<rparr>, (svc, w')))"

definition request_time :: "'w services \<Rightarrow> 'w grpc_env \<Rightarrow> string \<Rightarrow> 'w \<Rightarrow> time \<times> 'w" where
  "request_time sv ge ts w =
     (if ts = [] then utc_now sv w else case parse_datetime ge ts of Some t \<Rightarrow> (t, w) | None \<Rightarrow> utc_now sv w)"

definition execution_request :: "ExecuteRequest \<Rightarrow> time \<Rightarrow> ExecutionRequest" where
  "execution_request req t =
     \<lparr>tx_id = er_tx_id req, payload = er_payload req, req_timestamp = t, sender = er_sender req, priority = 0\<rparr>"

definition execute ::
  "'w services \<Rightarrow> 'w grpc_env \<Rightarrow> ExecuteRequest \<Rightarrow> NexusExecutor \<times> 'w \<Rightarrow> ExecuteResponse \<times> (NexusExecutor \<times> 'w)" where
  "execute sv ge req = (\<lambda>(ex, w).
     case request_time sv ge (er_timestamp req) w of (t, w1) \<Rightarrow>
     case validate_transaction sv (execution_request req t) (ex, w1) of
       (Inr True, s) \<Rightarrow> (\<lparr>ex_tx_id = er_tx_id req, ex_status = ''Success'', ex_message = ''Validated''\<rparr>, s)
     | (_, s) \<Rightarrow> (\<lparr>ex_tx_id = er_tx_id req, ex_status = ''Rejected'', ex_message = ''Rejected''\<rparr>, s))"

definition get_all_services_status :: "'w grpc_env \<Rightarrow> ServiceStatus list" where
  "get_all_services_status ge = [bisq_status ge, rgb_core_status ge, bitvm_status ge]"

definition get_services :: "'w grpc_env \<Rightarrow> ServiceStatus list" where
  "get_services ge =
     map (\<lambda>s. \<lparr>service_name = service_name s, service_state = service_state s, service_version = service_version s\<rparr>)
       (get_all_services_status ge)"

end
