(* ===== verification/Grpc_Cache.thy ===== *)
theory Grpc_Cache
  imports Grpc
begin

text \<open>
  Concurrent calls of \<^verbatim>\<open>read_cached_metrics_counts\<close> (\<^verbatim>\<open>src/api/grpc.rs\<close>).  A call looks at the cache, waits for the refresh
  lock on a miss, looks again, queries the database and stores the counts with the instant of the store; the lock is
  released when the call returns.  What a call answers, and when, is recorded.  The cache itself is behind its own mutex, held for one look or one store, so looks
  and stores are atomic.  The step relation interleaves any number of calls with the passing of time.
\<close>

section \<open>Interleaved calls\<close>

datatype call_state = Idle | Waiting | Holding | Fetching

record flights =
  fl_now :: nat
  fl_cache :: "(nat \<times> u64 \<times> u64) option"
  fl_holder :: "nat option"  \<comment> \<open>who has \<^verbatim>\<open>refresh_lock\<close>\<close>
  fl_call :: "nat \<Rightarrow> call_state"
  fl_stores :: "nat list"  \<comment> \<open>the instants of the stores, latest first\<close>
  fl_counts :: "(nat \<times> u64 \<times> u64) list"  \<comment> \<open>the counts that were queried, with the instants of their stores\<close>
  fl_answers :: "(nat \<times> u64 \<times> u64) list"  \<comment> \<open>the answers of the calls, with their instants\<close>

definition flight_start :: flights where
  "flight_start = \<lparr>fl_now = 0, fl_cache = None, fl_holder = None, fl_call = (\<lambda>_. Idle), fl_stores = [],
     fl_counts = [], fl_answers = []\<rparr>"

abbreviation set_call :: "nat \<Rightarrow> call_state \<Rightarrow> flights \<Rightarrow> flights" where
  "set_call i p c \<equiv> c\<lparr>fl_call := (fl_call c)(i := p)\<rparr>"

abbreviation leave :: "nat \<Rightarrow> flights \<Rightarrow> flights" where
  "leave i c \<equiv> (set_call i Idle c)\<lparr>fl_holder := None\<rparr>"

abbreviation answer :: "u64 \<times> u64 \<Rightarrow> flights \<Rightarrow> flights" where
  "answer v c \<equiv> c\<lparr>fl_answers := (fl_now c, v) # fl_answers c\<rparr>"

abbreviation store_counts :: "u64 \<times> u64 \<Rightarrow> flights \<Rightarrow> flights" where
  "store_counts v c \<equiv> c\<lparr>fl_cache := Some (fl_now c, v), fl_stores := fl_now c # fl_stores c, fl_counts := (fl_now c, v) # fl_counts c\<rparr>"

inductive flight_step :: "flights \<Rightarrow> flights \<Rightarrow> bool" where
  tick: "fl_now c \<le> t \<Longrightarrow> flight_step c (c\<lparr>fl_now := t\<rparr>)"
| hit: "fl_call c i = Idle \<Longrightarrow> fresh_counts (fl_now c) (fl_cache c) = Some v \<Longrightarrow> flight_step c (answer v c)"
| miss: "fl_call c i = Idle \<Longrightarrow> fresh_counts (fl_now c) (fl_cache c) = None \<Longrightarrow> flight_step c (set_call i Waiting c)"
| acquire: "fl_call c i = Waiting \<Longrightarrow> fl_holder c = None \<Longrightarrow> flight_step c ((set_call i Holding c)\<lparr>fl_holder := Some i\<rparr>)"
| late_hit: "fl_call c i = Holding \<Longrightarrow> fresh_counts (fl_now c) (fl_cache c) = Some v \<Longrightarrow> flight_step c (answer v (leave i c))"
| fetch: "fl_call c i = Holding \<Longrightarrow> fresh_counts (fl_now c) (fl_cache c) = None \<Longrightarrow> flight_step c (set_call i Fetching c)"
| failed: "fl_call c i = Fetching \<Longrightarrow> flight_step c (leave i c)"
| stored: "fl_call c i = Fetching \<Longrightarrow> flight_step c (answer (t, b) (store_counts (t, b) (leave i c)))"

section \<open>Invariant\<close>

text \<open>Consecutive stores, latest first, lie at least \<open>d\<close> apart.\<close>

fun spaced :: "nat \<Rightarrow> nat list \<Rightarrow> bool" where
  "spaced d (x # y # zs) \<longleftrightarrow> y + d \<le> x \<and> spaced d (y # zs)"
| "spaced d _ \<longleftrightarrow> True"

text \<open>The lock belongs to the call that is past it, a query is under way only while the cache is stale, and the cache shows
  the latest store.\<close>

definition owner_ok :: "(nat \<Rightarrow> call_state) \<Rightarrow> nat option \<Rightarrow> bool" where
  "owner_ok call h \<longleftrightarrow> (\<forall>i. call i = Holding \<or> call i = Fetching \<longleftrightarrow> h = Some i)"

definition query_ok :: "flights \<Rightarrow> bool" where
  "query_ok c \<longleftrightarrow> (\<forall>i. fl_call c i = Fetching \<longrightarrow> fresh_counts (fl_now c) (fl_cache c) = None)"

definition cache_ok :: "nat \<Rightarrow> (nat \<times> u64 \<times> u64) option \<Rightarrow> nat list \<Rightarrow> bool" where
  "cache_ok now v stores \<longleftrightarrow> spaced METRICS_COUNTS_CACHE_TTL stores
     \<and> (case v of None \<Rightarrow> stores = [] | Some (t0, _) \<Rightarrow> t0 \<le> now \<and> (\<exists>rest. stores = t0 # rest))"

definition flight_inv :: "flights \<Rightarrow> bool" where
  "flight_inv c \<longleftrightarrow> owner_ok (fl_call c) (fl_holder c) \<and> query_ok c \<and> cache_ok (fl_now c) (fl_cache c) (fl_stores c)"

lemma owner_okD: "owner_ok call h \<Longrightarrow> call i = Holding \<or> call i = Fetching \<longleftrightarrow> h = Some i"
  unfolding owner_ok_def by blast

lemma owner_ok_changes:
  "owner_ok call h \<Longrightarrow> call i = Idle \<Longrightarrow> owner_ok (call(i := Waiting)) h"
  "owner_ok call None \<Longrightarrow> owner_ok (call(i := Holding)) (Some i)"
  "owner_ok call h \<Longrightarrow> call i = Holding \<Longrightarrow> owner_ok (call(i := Fetching)) h"
  "owner_ok call h \<Longrightarrow> call i = Holding \<or> call i = Fetching \<Longrightarrow> owner_ok (call(i := Idle)) None"
  subgoal by (simp add: owner_ok_def) (metis call_state.distinct(1,3,5))
  subgoal by (simp add: owner_ok_def)
  subgoal by (simp add: owner_ok_def) metis
  subgoal by (simp add: owner_ok_def) (metis option.inject)
  done

lemma query_ok_leave:
  "owner_ok (fl_call c) (fl_holder c) \<Longrightarrow> fl_call c i = Holding \<or> fl_call c i = Fetching \<Longrightarrow> fl_call c j = Fetching \<Longrightarrow> j = i"
  by (metis option.inject owner_okD)

lemma fresh_counts_None:
  "fresh_counts now v = None \<longleftrightarrow> (case v of None \<Rightarrow> True | Some (t0, _) \<Rightarrow> t0 + METRICS_COUNTS_CACHE_TTL \<le> now)"
  by (auto simp: fresh_counts_def METRICS_COUNTS_CACHE_TTL_def split: option.splits)

lemma flight_inv_start: "flight_inv flight_start"
  by (simp add: flight_inv_def flight_start_def owner_ok_def query_ok_def cache_ok_def)

lemma cache_ok_stored:
  "cache_ok now v stores \<Longrightarrow> fresh_counts now v = None \<Longrightarrow> cache_ok now (Some (now, tb)) (now # stores)"
  by (auto simp: cache_ok_def fresh_counts_None split: option.splits)

lemma cache_ok_later: "cache_ok now v stores \<Longrightarrow> now \<le> t \<Longrightarrow> cache_ok t v stores"
  by (auto simp: cache_ok_def split: option.splits)

lemma stale_later: "fresh_counts now v = None \<Longrightarrow> now \<le> t \<Longrightarrow> fresh_counts t v = None"
  by (auto simp: fresh_counts_None split: option.splits)

lemma flight_inv_step: "flight_step c c' \<Longrightarrow> flight_inv c \<Longrightarrow> flight_inv c'"
proof (induction rule: flight_step.induct)
  case (tick c t)
  then show ?case by (auto simp: flight_inv_def query_ok_def intro: cache_ok_later stale_later)
next
  case (stored c i t b)
  then have "fresh_counts (fl_now c) (fl_cache c) = None" by (auto simp: flight_inv_def query_ok_def)
  with stored show ?case
    by (auto simp: flight_inv_def query_ok_def owner_ok_changes cache_ok_stored dest: query_ok_leave)
qed (auto simp: flight_inv_def query_ok_def owner_ok_changes dest: query_ok_leave)

lemma flight_inv_run: "flight_step\<^sup>*\<^sup>* c c' \<Longrightarrow> flight_inv c \<Longrightarrow> flight_inv c'"
  by (induction rule: rtranclp_induct) (blast intro: flight_inv_step)+

section \<open>Every call can return\<close>

lemma holder_returns:
  assumes "fl_call c i \<in> {Holding, Fetching}"
  shows "\<exists>c'. flight_step\<^sup>*\<^sup>* c c' \<and> fl_call c' = (fl_call c)(i := Idle) \<and> fl_holder c' = None"
proof (cases "fl_call c i = Fetching")
  case True
  then have "flight_step c (leave i c)" by (rule flight_step.failed)
  then show ?thesis by (intro exI [of _ "leave i c"]) simp
next
  case False
  with assms have h: "fl_call c i = Holding" by simp
  show ?thesis
  proof (cases "fresh_counts (fl_now c) (fl_cache c)")
    case None
    have "flight_step (set_call i Fetching c) (leave i (set_call i Fetching c))" by (rule flight_step.failed) simp
    with flight_step.fetch [OF h None] show ?thesis
      by (intro exI [of _ "leave i (set_call i Fetching c)"]) (simp add: converse_rtranclp_into_rtranclp)
  next
    case (Some v)
    then have "flight_step c (answer v (leave i c))" using h by (rule flight_step.late_hit [rotated])
    then show ?thesis by (intro exI [of _ "answer v (leave i c)"]) simp
  qed
qed

lemma waiter_returns:
  assumes "fl_call c i = Waiting" and "fl_holder c = None"
  shows "\<exists>c'. flight_step\<^sup>*\<^sup>* c c' \<and> fl_call c' i = Idle"
proof -
  let ?c = "(set_call i Holding c)\<lparr>fl_holder := Some i\<rparr>"
  obtain c' where "flight_step\<^sup>*\<^sup>* ?c c'" "fl_call c' i = Idle" using holder_returns [of ?c i] by auto
  with flight_step.acquire [OF assms] show ?thesis by (blast intro: converse_rtranclp_into_rtranclp)
qed

lemma call_returns:
  assumes "flight_inv c"
  shows "\<exists>c'. flight_step\<^sup>*\<^sup>* c c' \<and> fl_call c' i = Idle"
proof (cases "fl_call c i")
  case Waiting
  show ?thesis
  proof (cases "fl_holder c")
    case None
    with Waiting show ?thesis by (rule waiter_returns)
  next
    case (Some j)
    then have "fl_call c j \<in> {Holding, Fetching}" using owner_okD [of "fl_call c" "fl_holder c" j] assms by (simp add: flight_inv_def)
    moreover from this have "i \<noteq> j" using Waiting by auto
    moreover obtain c1 where go: "flight_step\<^sup>*\<^sup>* c c1" "fl_call c1 = (fl_call c)(j := Idle)" "fl_holder c1 = None"
      using holder_returns calculation(1) by blast
    ultimately have "\<exists>c'. flight_step\<^sup>*\<^sup>* c1 c' \<and> fl_call c' i = Idle"
      using Waiting by (intro waiter_returns) simp_all
    with go show ?thesis by (meson rtranclp_trans)
  qed
qed (use holder_returns [of c i] in \<open>force\<close>)+

section \<open>Answers\<close>

text \<open>The cache holds queried counts, and every answer is a count queried less than the time to live before it.\<close>

definition answers_ok :: "flights \<Rightarrow> bool" where
  "answers_ok c \<longleftrightarrow> (\<forall>x. fl_cache c = Some x \<longrightarrow> x \<in> set (fl_counts c))
     \<and> (\<forall>(t, v) \<in> set (fl_answers c). \<exists>t0. (t0, v) \<in> set (fl_counts c) \<and> t0 \<le> t \<and> t < t0 + METRICS_COUNTS_CACHE_TTL)"

lemma fresh_counts_Some:
  "fresh_counts now x = Some v \<Longrightarrow> \<exists>t0. x = Some (t0, v) \<and> now < t0 + METRICS_COUNTS_CACHE_TTL"
  by (auto simp: fresh_counts_def METRICS_COUNTS_CACHE_TTL_def split: option.splits if_splits)

lemma answers_ok_hit:
  assumes "flight_inv c" and "answers_ok c" and "fresh_counts (fl_now c) (fl_cache c) = Some v"
  shows "answers_ok (answer v c)"
proof -
  obtain t0 where t0: "fl_cache c = Some (t0, v)" "fl_now c < t0 + METRICS_COUNTS_CACHE_TTL"
    using fresh_counts_Some [OF assms(3)] by blast
  then have "t0 \<le> fl_now c" using assms(1) by (auto simp: flight_inv_def cache_ok_def)
  with t0 assms(2) show ?thesis by (auto simp: answers_ok_def)
qed

lemma answers_ok_step: "flight_step c c' \<Longrightarrow> flight_inv c \<Longrightarrow> answers_ok c \<Longrightarrow> answers_ok c'"
proof (induction rule: flight_step.induct)
  case (hit c i v)
  then show ?case by (intro answers_ok_hit)
next
  case (late_hit c i v)
  then have "answers_ok (answer v c)" by (intro answers_ok_hit)
  then show ?case by (simp add: answers_ok_def)
next
  case (stored c i t b)
  then show ?case by (fastforce simp: answers_ok_def METRICS_COUNTS_CACHE_TTL_def)
qed (auto simp: answers_ok_def)

section \<open>A single call\<close>

lemma refresh_run:
  assumes "fl_call c i = Idle" and "fl_holder c = None" and "fresh_counts (fl_now c) (fl_cache c) = None" and "fl_now c \<le> n"
  shows "flight_step\<^sup>*\<^sup>* c (answer (t, b) (store_counts (t, b) (c\<lparr>fl_now := n\<rparr>)))"
    and "flight_step\<^sup>*\<^sup>* c (c\<lparr>fl_now := n\<rparr>)"
proof -
  let ?h = "(set_call i Holding (set_call i Waiting c))\<lparr>fl_holder := Some i\<rparr>"
  let ?f = "(set_call i Fetching ?h)\<lparr>fl_now := n\<rparr>"
  have "flight_step c (set_call i Waiting c)" using assms by (intro flight_step.miss)
  moreover have "flight_step (set_call i Waiting c) ?h" using assms by (intro flight_step.acquire) simp_all
  moreover have "flight_step ?h (set_call i Fetching ?h)" using assms by (intro flight_step.fetch) simp_all
  moreover have "flight_step (set_call i Fetching ?h) ?f" using assms by (intro flight_step.tick) simp
  ultimately have run: "flight_step\<^sup>*\<^sup>* c ?f" by (meson r_into_rtranclp rtranclp_trans)
  have l: "leave i ?f = c\<lparr>fl_now := n\<rparr>" using assms(1,2) by (simp add: fun_upd_idem_iff)
  have "flight_step ?f (answer (t, b) (store_counts (t, b) (leave i ?f)))" by (rule flight_step.stored) simp
  then show "flight_step\<^sup>*\<^sup>* c (answer (t, b) (store_counts (t, b) (c\<lparr>fl_now := n\<rparr>)))"
    unfolding l by (rule rtranclp.rtrancl_into_rtrancl [OF run])
  have "flight_step ?f (leave i ?f)" by (rule flight_step.failed) simp
  then show "flight_step\<^sup>*\<^sup>* c (c\<lparr>fl_now := n\<rparr>)" unfolding l by (rule rtranclp.rtrancl_into_rtrancl [OF run])
qed

section \<open>Properties\<close>

text \<open>C13: Refreshes are single-flight.  However many calls interleave, at most one of them queries the database at a time, two
  consecutive stores into the cache lie at least the time to live (ten seconds) apart, and no call can be blocked for
  good: from every reachable state each pending call can still return.\<close>

theorem metrics_single_flight:
  assumes "flight_step\<^sup>*\<^sup>* flight_start c"
  shows "(\<forall>i j. fl_call c i = Fetching \<and> fl_call c j = Fetching \<longrightarrow> i = j)
    \<and> spaced METRICS_COUNTS_CACHE_TTL (fl_stores c)
    \<and> (\<forall>i. \<exists>c'. flight_step\<^sup>*\<^sup>* c c' \<and> fl_call c' i = Idle)"
proof -
  have inv: "flight_inv c" by (rule flight_inv_run [OF assms flight_inv_start])
  have "i = j" if "fl_call c i = Fetching \<and> fl_call c j = Fetching" for i j
    using inv that query_ok_leave [of c i j] by (auto simp: flight_inv_def)
  moreover have "spaced METRICS_COUNTS_CACHE_TTL (fl_stores c)" using inv by (simp add: flight_inv_def cache_ok_def)
  ultimately show ?thesis using call_returns [OF inv] by blast
qed

theorem metrics_single_flight_witness:
  "\<exists>c. flight_step\<^sup>*\<^sup>* flight_start c \<and> fl_stores c = [20000000000, 5] \<and> spaced METRICS_COUNTS_CACHE_TTL (fl_stores c)"
proof -
  let ?c1 = "answer (3, 2) (store_counts (3, 2) (flight_start\<lparr>fl_now := 5\<rparr>))"
  let ?c2 = "?c1\<lparr>fl_now := 20000000000\<rparr>"
  let ?c3 = "answer (4, 3) (store_counts (4, 3) (?c2\<lparr>fl_now := 20000000000\<rparr>))"
  have "flight_step\<^sup>*\<^sup>* flight_start ?c1"
    by (rule refresh_run(1) [of flight_start 0]) (simp_all add: flight_start_def fresh_counts_def)
  moreover have "flight_step ?c1 ?c2" by (rule flight_step.tick) simp
  moreover have "flight_step\<^sup>*\<^sup>* ?c2 ?c3"
    by (rule refresh_run(1) [of ?c2 0]) (simp_all add: flight_start_def fresh_counts_def METRICS_COUNTS_CACHE_TTL_def)
  ultimately have run: "flight_step\<^sup>*\<^sup>* flight_start ?c3" by (meson r_into_rtranclp rtranclp_trans)
  have "fl_stores ?c3 = [20000000000, 5]" by (simp add: flight_start_def)
  with metrics_single_flight [OF run] run show ?thesis by (intro exI [of _ ?c3] conjI) simp_all
qed

text \<open>C14: Bounded staleness.  However calls interleave and however long queries take, every answer, a hit, a late hit or a
  refresh, is a pair of counts that some call queried and stored less than the time to live (ten seconds) before the answer.\<close>

theorem metrics_answers_fresh:
  assumes "flight_step\<^sup>*\<^sup>* flight_start c" and "(t, v) \<in> set (fl_answers c)"
  shows "\<exists>t0. (t0, v) \<in> set (fl_counts c) \<and> t0 \<le> t \<and> t < t0 + METRICS_COUNTS_CACHE_TTL"
proof -
  have "flight_inv c \<and> answers_ok c"
    using assms(1)
  proof (induction rule: rtranclp_induct)
    case base
    show ?case using flight_inv_start by (simp add: answers_ok_def flight_start_def)
  qed (blast intro: flight_inv_step answers_ok_step)
  with assms(2) show ?thesis unfolding answers_ok_def by blast
qed

theorem metrics_answers_fresh_witness:
  "\<exists>c t0. flight_step\<^sup>*\<^sup>* flight_start c \<and> (9, (3, 2)) \<in> set (fl_answers c)
     \<and> (t0, (3, 2)) \<in> set (fl_counts c) \<and> t0 \<le> 9 \<and> 9 < t0 + METRICS_COUNTS_CACHE_TTL"
proof -
  let ?c1 = "answer (3, 2) (store_counts (3, 2) (flight_start\<lparr>fl_now := 5\<rparr>))"
  let ?c2 = "?c1\<lparr>fl_now := 9\<rparr>"
  let ?c3 = "answer (3, 2) ?c2"
  have "flight_step\<^sup>*\<^sup>* flight_start ?c1"
    by (rule refresh_run(1) [of flight_start 0]) (simp_all add: flight_start_def fresh_counts_def)
  moreover have "flight_step ?c1 ?c2" by (rule flight_step.tick) simp
  moreover have "flight_step ?c2 ?c3"
    by (rule flight_step.hit [of _ 0]) (simp_all add: flight_start_def fresh_counts_def METRICS_COUNTS_CACHE_TTL_def)
  ultimately have run: "flight_step\<^sup>*\<^sup>* flight_start ?c3" by (meson r_into_rtranclp rtranclp_trans)
  have a: "(9, (3, 2)) \<in> set (fl_answers ?c3)" by simp
  from metrics_answers_fresh [OF run a] run a show ?thesis by blast
qed

section \<open>The sequential operation\<close>

text \<open>The clock never runs backwards, and \<open>clock\<close> shows its last reading.\<close>

definition clocked :: "'w grpc_env \<Rightarrow> ('w \<Rightarrow> nat) \<Rightarrow> bool" where
  "clocked ge clock \<longleftrightarrow>
     (\<forall>w n w'. instant_now ge w = (n, w') \<longrightarrow> clock w \<le> n \<and> clock w' = n)
     \<and> (\<forall>w r w'. pg_counts ge w = (r, w') \<longrightarrow> clock w \<le> clock w')"

lemma clockedD:
  assumes "clocked ge clock"
  shows "instant_now ge w = (n, w') \<Longrightarrow> clock w \<le> n \<and> clock w' = n"
    and "pg_counts ge w = (q, w') \<Longrightarrow> clock w \<le> clock w'"
  using assms unfolding clocked_def by blast+

lemma look_result:
  assumes "clocked ge clock" and "read_fresh_cached_metrics_counts ge (svc, w) = (q, (svc', w'))"
  shows "svc' = svc" and "clock w \<le> clock w'" and "q = fresh_counts (clock w') (metrics_counts_cache svc)"
  using assms(2) clockedD(1) [OF assms(1), of w]
  by (auto simp: read_fresh_cached_metrics_counts_def fresh_counts_def split: option.splits prod.splits)

lemma fetch_result_clock:
  assumes "clocked ge clock" and "fetch_metrics_counts ge w = (q, w')"
  shows "clock w \<le> clock w'"
  using assms(2) clockedD(2) [OF assms(1), of w]
  by (auto simp: fetch_metrics_counts_def split: prod.splits sum.splits)

lemma counts_call_cases:
  assumes "clocked ge clock" and "read_cached_metrics_counts ge (svc, w) = (r, (svc', w'))"
  obtains (hit) v where "r = Inr v" "svc' = svc" "clock w \<le> clock w'"
      "fresh_counts (clock w') (metrics_counts_cache svc) = Some v"
    | (failed) w1 e where "r = Inl e" "svc' = svc" "clock w \<le> clock w1" "clock w1 \<le> clock w'"
      "fresh_counts (clock w1) (metrics_counts_cache svc) = None"
    | (stored) w1 t b where "r = Inr (t, b)" "svc' = svc\<lparr>metrics_counts_cache := Some (clock w', t, b)\<rparr>"
      "clock w \<le> clock w1" "clock w1 \<le> clock w'" "fresh_counts (clock w1) (metrics_counts_cache svc) = None"
      "fst (fetch_metrics_counts ge w1) = Inr (t, b)"
proof -
  obtain q1 s1 w1 where 1: "read_fresh_cached_metrics_counts ge (svc, w) = (q1, (s1, w1))" by (metis prod.exhaust)
  note l1 = look_result [OF assms(1) 1]
  obtain q2 s2 w2 where 2: "read_fresh_cached_metrics_counts ge (svc, w1) = (q2, (s2, w2))" by (metis prod.exhaust)
  note l2 = look_result [OF assms(1) 2]
  obtain q3 w3 where 3: "fetch_metrics_counts ge w2 = (q3, w3)" by fastforce
  note l3 = fetch_result_clock [OF assms(1) 3]
  obtain n w4 where 4: "instant_now ge w3 = (n, w4)" by fastforce
  note l4 = clockedD(1) [OF assms(1) 4]
  show ?thesis
  proof (cases q1)
    case (Some v)
    then show ?thesis using assms(2) 1 l1 hit [of v] by (simp add: read_cached_metrics_counts_def)
  next
    case None
    show ?thesis
    proof (cases q2)
      case (Some v)
      then show ?thesis using assms(2) None 1 l1 2 l2 hit [of v] by (simp add: read_cached_metrics_counts_def)
    next
      case N2: None
      show ?thesis
      proof (cases q3)
        case (Inl e)
        then show ?thesis
          using assms(2) None N2 1 l1 2 l2 3 l3 failed [of e w2] by (simp add: read_cached_metrics_counts_def)
      next
        case (Inr tb)
        then show ?thesis
          using assms(2) None N2 1 l1 2 l2 3 l3 4 l4 stored [of "fst tb" "snd tb" w2]
          by (cases tb) (simp add: read_cached_metrics_counts_def)
      qed
    qed
  qed
qed

text \<open>C15: A call of \<^const>\<open>read_cached_metrics_counts\<close>, on a clock that never runs backwards, answers exactly the counts that the cache
  holds when it returns, and they are younger than the time to live: either the cache was still fresh and nothing was stored, or
  it was stale and the answer is what the database was asked for during this call, stored with the instant of the store.  An
  error leaves the cache as it was and is only answered when the cache was stale.\<close>

theorem counts_call_answers:
  assumes "clocked ge clock" and "read_cached_metrics_counts ge (svc, w) = (r, (svc', w'))"
  shows "case r of
      Inr v \<Rightarrow> \<exists>t0. metrics_counts_cache svc' = Some (t0, v) \<and> clock w' < t0 + METRICS_COUNTS_CACHE_TTL
        \<and> (svc' = svc \<or> (\<exists>w1. clock w \<le> clock w1 \<and> fresh_counts (clock w1) (metrics_counts_cache svc) = None
             \<and> fst (fetch_metrics_counts ge w1) = Inr v \<and> svc' = svc\<lparr>metrics_counts_cache := Some (clock w', v)\<rparr>))
    | Inl e \<Rightarrow> svc' = svc \<and> (\<exists>n. clock w \<le> n \<and> n \<le> clock w' \<and> fresh_counts n (metrics_counts_cache svc) = None)"
  using assms
proof (cases rule: counts_call_cases)
  case (hit v)
  then show ?thesis using fresh_counts_Some [OF hit(4)] by auto
next
  case (failed w1 e)
  then show ?thesis by auto
next
  case (stored w1 t b)
  then show ?thesis by (auto simp: METRICS_COUNTS_CACHE_TTL_def intro!: exI [of _ w1])
qed

text \<open>A world that is its own clock: a reading takes one nanosecond, a query one second.\<close>

definition ticking :: "nat grpc_env" where
  "ticking = \<lparr>redis_opt_pair = (\<lambda>_. io_err ''offline''), pg_counts = (\<lambda>w. (Inr (7, 3), w + 1000000000)),
     pg_max_live_height = io_err ''offline'', instant_now = (\<lambda>w. (w + 1, w + 1)), parse_datetime = (\<lambda>_. None),
     bisq_status = \<lparr>service_name = ''bisq'', service_state = ''ok'', service_version = ''1''\<rparr>,
     rgb_core_status = \<lparr>service_name = ''rgb'', service_state = ''ok'', service_version = ''1''\<rparr>,
     bitvm_status = \<lparr>service_name = ''bitvm'', service_state = ''ok'', service_version = ''1''\<rparr>\<rparr>"

lemma ticking_clock: "clocked ticking (\<lambda>w. w)"
  by (simp add: clocked_def ticking_def)

theorem counts_call_answers_witness:
  "\<exists>t0 s w. read_cached_metrics_counts ticking (grpc_new, 0) = (Inr (7, 3), (s, w)) \<and> metrics_counts_cache s = Some (t0, 7, 3)
     \<and> w < t0 + METRICS_COUNTS_CACHE_TTL"
proof -
  obtain s w where run: "read_cached_metrics_counts ticking (grpc_new, 0) = (Inr (7, 3), (s, w))"
    by (simp add: read_cached_metrics_counts_def read_fresh_cached_metrics_counts_def fetch_metrics_counts_def grpc_new_def
        ticking_def as_u64_nonneg is_i64_def)
  with counts_call_answers [OF ticking_clock run] show ?thesis by auto
qed

text \<open>The operation implements the step relation.  A call of \<^const>\<open>read_cached_metrics_counts\<close> that no other call
  disturbs is a run of interleaved steps between the states that the service and the clock show before and after it; the run
  records exactly its answer, with the instant at which the call returned, and a call that fails answers and stores nothing.\<close>

theorem counts_call_refines:
  assumes "clocked ge clock" and "read_cached_metrics_counts ge (svc, w) = (r, (svc', w'))"
    and "fl_now c = clock w" and "fl_cache c = metrics_counts_cache svc" and "fl_call c i = Idle" and "fl_holder c = None"
  shows "\<exists>c'. flight_step\<^sup>*\<^sup>* c c' \<and> fl_now c' = clock w' \<and> fl_cache c' = metrics_counts_cache svc'
    \<and> fl_call c' = fl_call c \<and> fl_holder c' = None
    \<and> (case r of Inr v \<Rightarrow> fl_answers c' = (clock w', v) # fl_answers c
       | Inl _ \<Rightarrow> fl_answers c' = fl_answers c \<and> fl_stores c' = fl_stores c)"
  using assms(1,2)
proof (cases rule: counts_call_cases)
  case (hit v)
  let ?c1 = "c\<lparr>fl_now := clock w'\<rparr>"
  have "flight_step c ?c1" using hit(3) assms(3) by (auto intro!: flight_step.tick)
  moreover have "flight_step ?c1 (answer v ?c1)" using hit(4) assms by (intro flight_step.hit [of _ i]) simp_all
  ultimately have "flight_step\<^sup>*\<^sup>* c (answer v ?c1)" by (meson r_into_rtranclp rtranclp_trans)
  then show ?thesis using hit assms by (intro exI [of _ "answer v ?c1"]) simp
next
  case (failed w1 e)
  let ?c1 = "c\<lparr>fl_now := clock w1\<rparr>"
  have "flight_step c ?c1" using failed(3) assms(3) by (auto intro!: flight_step.tick)
  moreover have "flight_step\<^sup>*\<^sup>* ?c1 (?c1\<lparr>fl_now := clock w'\<rparr>)"
    using failed(4,5) assms by (intro refresh_run(2) [of ?c1 i]) simp_all
  ultimately have "flight_step\<^sup>*\<^sup>* c (?c1\<lparr>fl_now := clock w'\<rparr>)" by (rule converse_rtranclp_into_rtranclp)
  then show ?thesis using failed assms by (intro exI [of _ "c\<lparr>fl_now := clock w'\<rparr>"]) simp
next
  case (stored w1 t b)
  let ?c1 = "c\<lparr>fl_now := clock w1\<rparr>"
  let ?c2 = "answer (t, b) (store_counts (t, b) (?c1\<lparr>fl_now := clock w'\<rparr>))"
  have "flight_step c ?c1" using stored(3) assms(3) by (auto intro!: flight_step.tick)
  moreover have "flight_step\<^sup>*\<^sup>* ?c1 ?c2"
    using stored(4,5) assms by (intro refresh_run(1) [of ?c1 i]) simp_all
  ultimately have "flight_step\<^sup>*\<^sup>* c ?c2" by (rule converse_rtranclp_into_rtranclp)
  then show ?thesis using stored assms by (intro exI [of _ ?c2]) simp
qed

theorem counts_call_refines_witness:
  "\<exists>c'. flight_step\<^sup>*\<^sup>* flight_start c' \<and> fl_now c' = 1000000001 \<and> fl_cache c' = Some (1000000001, 7, 3)"
proof -
  have "read_cached_metrics_counts ticking (grpc_new, 0)
      = (Inr (7, 3), (grpc_new\<lparr>metrics_counts_cache := Some (1000000001, 7, 3)\<rparr>, 1000000001))"
    by (simp add: read_cached_metrics_counts_def read_fresh_cached_metrics_counts_def fetch_metrics_counts_def grpc_new_def
        ticking_def as_u64_nonneg is_i64_def)
  from counts_call_refines [OF ticking_clock this, of flight_start 0] show ?thesis
    by (auto simp: flight_start_def grpc_new_def)
qed

end
