(* ===== verification/Surfaces.thy ===== *)
theory Surfaces
  imports Rest Grpc_Cache
begin

text \<open>
  The safety mode across components: the heartbeat of \<^verbatim>\<open>src/safety/mod.rs\<close> writes two keys of Redis, and the executor, the
  REST handlers and the gRPC service read them.
\<close>

section \<open>The two keys\<close>

abbreviation drift_key :: string where "drift_key \<equiv> ''nexus:drift''"

text \<open>The keys are written and deleted together, with the number in decimal.\<close>

definition mode_keys :: "(string \<Rightarrow> string option) \<Rightarrow> bool" where
  "mode_keys m \<longleftrightarrow> (m mode_key = None \<and> m drift_key = None)
     \<or> (\<exists>d < 2 ^ 64. m mode_key = Some ''1'' \<and> m drift_key = Some (show_nat d))"

text \<open>A pipeline of two reads that succeeds answers what the keys hold; reading changes nothing.\<close>

definition redis_pairs :: "'w grpc_env \<Rightarrow> ('w \<Rightarrow> string \<Rightarrow> string option) \<Rightarrow> bool" where
  "redis_pairs ge val \<longleftrightarrow>
     (\<forall>k l w r w'. redis_opt_pair ge [[''GET'', k], [''GET'', l]] w = (r, w') \<longrightarrow>
        val w' = val w \<and> (\<forall>x. r = Inr x \<longrightarrow> x = (val w k, val w l)))"

lemma get_flags_reads:
  "redis_pairs ge val \<Longrightarrow> get_flags ge w = (r, w') \<Longrightarrow>
     val w' = val w \<and> (\<forall>x. r = Inr x \<longrightarrow> x = (val w mode_key, val w drift_key))"
  unfolding redis_pairs_def get_flags_def by blast

lemma safety_flag_simps [simp]: "safety_flag None = False" "safety_flag (Some ''1'') = True"
  by (simp_all add: safety_flag_def trim_digits is_digit_def parse_flag_def to_ascii_lowercase_def ascii_lower_def)

lemma drift_value_None [simp]: "drift_value None = 0"
  and drift_value_show: "d < 2 ^ 64 \<Longrightarrow> drift_value (Some (show_nat d)) = d"
  by (simp_all add: drift_value_def trim_digits show_nat_digits parse_show_nat)

lemma clear_deletes_keys:
  assumes "redis_store sv val" and "clear_safety_mode_if_needed sv w = (Inr (), w')" and "mode_keys (val w)"
    and "\<not> flag_read_fails sv w"
  shows "val w' mode_key = None \<and> val w' drift_key = None"
proof -
  from assms(2) obtain u w1 where c: "redis_connect sv w = (Inr u, w1)"
    and k: "io_then (redis_bool sv [''GET'', mode_key]) (\<lambda>r. if or_else r False then redis_pipe sv
         [[''DEL'', mode_key], [''DEL'', drift_key], [''PUBLISH'', ''nexus:events'', ''safety_mode_cleared'']]
       else io_ok ()) w1 = (Inr (), w')"
    unfolding clear_safety_mode_if_needed_def by (blast elim: io_try_Inr_D)
  obtain r w2 where g: "redis_bool sv [''GET'', mode_key] w1 = (r, w2)" by fastforce
  have v: "val w1 = val w" "val w2 = val w"
    using redis_store_connect [OF assms(1) c] redis_store_get(1) [OF assms(1) g] by simp_all
  show ?thesis
  proof (cases "or_else r False")
    case True
    then show ?thesis using k g by (simp add: redis_store_pipe [OF assms(1)])
  next
    case False
    then have "r = Inr False" using assms(4) c g by (cases r) (simp_all add: flag_read_fails_def)
    then have "val w mode_key \<noteq> Some ''1''" using redis_store_get(3) [OF assms(1) g] v by auto
    then show ?thesis using assms(3) k g v False by (auto simp: mode_keys_def)
  qed
qed

lemma check_health_keys:
  assumes "redis_store sv val" and "get_external_burn_height sv ns w = (Inr current, w1)"
    and "get_processed_height sv w1 = (Inr processed, w2)" and "mode_keys (val w2)"
    and "check_health sv ns w = (Inr (), w3)"
  shows "if processed + max_drift ns < current
    then val w3 mode_key = Some ''1'' \<and> val w3 drift_key = Some (show_nat (current - processed))
    else \<not> flag_read_fails sv w2 \<longrightarrow> val w3 mode_key = None \<and> val w3 drift_key = None"
proof -
  let ?d = "calculate_drift current processed"
  have run: "(if max_drift ns < ?d then trigger_safety_mode sv ?d else clear_safety_mode_if_needed sv) w2 = (Inr (), w3)"
    using assms(2,3,5) by (simp add: check_health_def Let_def split: if_splits)
  have d: "?d = current - processed" "max_drift ns < ?d \<longleftrightarrow> processed + max_drift ns < current"
    by (auto simp: calculate_drift_def saturating_sub64_eq)
  show ?thesis
  proof (cases "max_drift ns < ?d")
    case True
    then show ?thesis using run trigger_sets_flag [OF assms(1), of ?d w2 w3] d by simp
  next
    case False
    then show ?thesis using run clear_deletes_keys [OF assms(1) _ assms(4), of w3] d by auto
  qed
qed

lemma flags_shown:
  assumes "redis_store sv val" and "redis_pairs ge val" and "read_safety_flags sv ge (svc, w) = (f, s')"
  shows "f = (safety_flag (val w mode_key), drift_value (val w drift_key)) \<or> f = (True, 0)"
proof -
  obtain q1 w1 where 1: "(if redis_conn svc then (Inr (), w) else redis_connect sv w) = (q1, w1)" by fastforce
  have v1: "val w1 = val w" using 1 redis_store_connect [OF assms(1), of w] by (auto split: if_splits)
  obtain q2 w2 where 2: "get_flags ge w1 = (q2, w2)" by fastforce
  note v2 = get_flags_reads [OF assms(2) 2]
  obtain q3 w3 where 3: "redis_connect sv w2 = (q3, w3)" by fastforce
  note v3 = redis_store_connect [OF assms(1) 3]
  obtain q4 w4 where 4: "get_flags ge w3 = (q4, w4)" by fastforce
  note v4 = get_flags_reads [OF assms(2) 4]
  show ?thesis
    using assms(3) 1 2 3 4 v1 v2 v3 v4 by (auto simp: read_safety_flags_def split: sum.splits)
qed

lemma active_is_refused:
  assumes "redis_store sv val" and "val w mode_key = Some ''1''" and "\<not> flag_read_fails sv w"
  shows "\<exists>code e w'. 400 \<le> code \<and> submit_transaction sv H req (ex, count, w) = (ErrJson code e, (ex, count, w'))
    \<and> (\<forall>wlog. pg_logs sv wlog \<longrightarrow> wlog w' = wlog w)"
proof -
  obtain c w' where c: "check_safety_mode sv w = (c, w')" by fastforce
  have "c \<noteq> Inr ()"
    using c raised_read [of sv val w w', OF assms(1,2)] assms(3) by (auto simp: check_safety_mode_ok)
  then obtain e where "c = Inl e" by (cases c) simp_all
  moreover have "\<forall>wlog. pg_logs sv wlog \<longrightarrow> wlog w' = wlog w" by (intro allI impI) (rule check_keeps [OF c])
  ultimately show ?thesis
    using c by (simp add: submit_transaction_def submit_def io_try_def on_world_def)
qed

section \<open>Properties\<close>


text \<open>The in-memory store of the safety monitor, with pairs of reads.\<close>

definition memory_grpc :: "(string \<Rightarrow> string option) grpc_env" where
  "memory_grpc = \<lparr>redis_opt_pair = (\<lambda>cs w. case cs of [[_, k], [_, l]] \<Rightarrow> (Inr (w k, w l), w) | _ \<Rightarrow> (Inl ''unsupported'', w)),
     pg_counts = io_err ''offline'', pg_max_live_height = io_ok (Some 100), instant_now = (\<lambda>w. (0, w)),
     parse_datetime = (\<lambda>_. None), bisq_status = bisq_status ticking, rgb_core_status = rgb_core_status ticking,
     bitvm_status = bitvm_status ticking\<rparr>"

lemma memory_grpc_pairs: "redis_pairs memory_grpc (\<lambda>w. w)"
  by (simp add: redis_pairs_def memory_grpc_def)

lemma safety_new_drift [simp]: "max_drift (safety_new r g) = 2"
  by (simp add: safety_new_def)

lemma memory_heights:
  "get_external_burn_height memory_services (safety_new ''http://node'' None) w = (Inr 110, w)"
  "get_processed_height memory_services w = (Inr 100, w)"
  by (simp_all add: get_external_burn_height_def json_member_def get_processed_height_def as_u64_nonneg is_i64_def)


text \<open>The gRPC call \<^verbatim>\<open>Execute\<close> validates and does no more.  It answers Success exactly when the request is newer than the
  latest known event; nothing is written to the database, whatever it answers; and the answer does not depend on
  Redis, so a request is reported as executed also while the safety mode refuses it everywhere else.\<close>

theorem grpc_execute_validates_only:
  assumes "pg_logs sv wlog" and "request_time sv ge (er_timestamp req) w = (t, w1)"
    and "execute sv ge req (ex, w) = (resp, (ex', w'))"
  shows "(ex_status resp = ''Success'' \<longleftrightarrow> fst (validate_transaction sv (execution_request req t) (ex, w1)) = Inr True)
    \<and> wlog w' = wlog w
    \<and> execute (sv\<lparr>redis_connect := rc, redis_bool := rb\<rparr>) ge req (ex, w) = (resp, (ex', w'))"
proof -
  obtain q s2 where v: "validate_transaction sv (execution_request req t) (ex, w1) = (q, s2)" by (metis prod.exhaust)
  have s2: "s2 = (ex', w')" and st: "ex_status resp = ''Success'' \<longleftrightarrow> q = Inr True"
    using assms(2,3) v by (auto simp: execute_def split: sum.splits bool.splits)
  have t: "wlog w1 = wlog w"
    using assms(2) log_keptD [OF pg_logs_kept(8) [OF assms(1)]]
    by (auto simp: request_time_def split: if_splits option.splits)
  have "wlog (snd (snd (validate_transaction sv (execution_request req t) (ex, w1)))) = wlog w1"
    using log_keptD [OF pg_logs_kept(4) [OF assms(1)], of w1]
    by (auto simp: validate_transaction_def get_cached_or_fetch_latest_event_time_def io_try_def on_world_def
        split: option.splits sum.splits prod.splits)
  then have w: "wlog w' = wlog w" using v s2 t by simp
  have "get_cached_or_fetch_latest_event_time (sv\<lparr>redis_connect := rc, redis_bool := rb\<rparr>)
      = get_cached_or_fetch_latest_event_time sv"
    by (simp add: get_cached_or_fetch_latest_event_time_def fun_eq_iff split: option.split)
  then have "validate_transaction (sv\<lparr>redis_connect := rc, redis_bool := rb\<rparr>) = validate_transaction sv"
    by (intro ext) (simp add: validate_transaction_def)
  moreover have "request_time (sv\<lparr>redis_connect := rc, redis_bool := rb\<rparr>) = request_time sv"
    by (simp add: request_time_def fun_eq_iff split: option.split)
  ultimately have "execute (sv\<lparr>redis_connect := rc, redis_bool := rb\<rparr>) ge req (ex, w) = (resp, (ex', w'))"
    using assms(3) by (simp add: execute_def)
  with st v w show ?thesis by simp
qed

definition sample_execute :: ExecuteRequest where
  "sample_execute = \<lparr>er_tx_id = ''tx1'', er_payload = ''data'', er_sender = ''alice'', er_timestamp = ''now''\<rparr>"

text \<open>A database that records, a chain event at time 10 and a safety flag that is set.\<close>

definition blocked :: "sql_write list services" where
  "blocked = accepting\<lparr>redis_bool := (\<lambda>_. io_ok True)\<rparr>"

definition sample_grpc :: "sql_write list grpc_env" where
  "sample_grpc = \<lparr>redis_opt_pair = (\<lambda>_. io_ok (Some ''1'', Some ''10'')), pg_counts = io_ok (7, 3),
     pg_max_live_height = io_ok (Some 100), instant_now = (\<lambda>w. (0, w)), parse_datetime = (\<lambda>_. Some 20),
     bisq_status = bisq_status ticking, rgb_core_status = rgb_core_status ticking, bitvm_status = bitvm_status ticking\<rparr>"

theorem grpc_execute_validates_only_witness:
  "ex_status (fst (execute blocked sample_grpc sample_execute (executor_new Active [], []))) = ''Success''
   \<and> snd (snd (execute blocked sample_grpc sample_execute (executor_new Active [], []))) = []
   \<and> fst (submit_transaction blocked sampleH sample_request (executor_new Active [], 0, []))
     = ErrJson 400 ''System is in Safety Mode (Sovereign Handoff Active). Execution blocked.''"
proof -
  obtain resp ex' w' where run: "execute blocked sample_grpc sample_execute (executor_new Active [], []) = (resp, (ex', w'))"
    by (metis prod.exhaust)
  have logs: "pg_logs blocked (\<lambda>w. w)"
    by (simp add: pg_logs_def log_kept_def blocked_def accepting_def recording_def offline_def)
  have time: "request_time blocked sample_grpc (er_timestamp sample_execute) [] = (20, [])"
    by (simp add: request_time_def sample_grpc_def sample_execute_def)
  have "fst (validate_transaction blocked (execution_request sample_execute 20) (executor_new Active [], [])) = Inr True"
    by (simp add: validate_transaction_def get_cached_or_fetch_latest_event_time_def execution_request_def executor_new_def
        blocked_def accepting_def recording_def offline_def io_try_def on_world_def)
  moreover have "fst (submit_transaction blocked sampleH sample_request (executor_new Active [], 0, []))
      = ErrJson 400 ''System is in Safety Mode (Sovereign Handoff Active). Execution blocked.''"
    by (simp add: submit_transaction_def submit_def check_safety_mode_def is_safety_mode_active_def io_try_def io_then_def
        on_world_def blocked_def accepting_def recording_def offline_def)
  ultimately show ?thesis using grpc_execute_validates_only [OF logs time run] run by simp
qed

end
