(* ===== verification/Product_Apis.thy ===== *)
theory Product_Apis
  imports Nexus_Sync Nexus_Config Redis_Hashes
begin

text \<open>
  The product endpoints: identity resolution (\<^verbatim>\<open>src/api/identity.rs\<close>), bonds as discreet log contracts
  (\<^verbatim>\<open>src/api/dlc.rs\<close>), verification of machine-learning proofs (\<^verbatim>\<open>src/api/zkml.rs\<close>) and analytics
  (\<^verbatim>\<open>src/api/analytics.rs\<close>).  The signature of \<^verbatim>\<open>lib_conxian_core\<close>, its Groth16 verifier, the Unicode upper-case
  mapping and the analytics queries are parameters.
\<close>

section \<open>Identity\<close>

record IdentityResolveRequest =
  id_name :: string
  id_protocol :: string

record IdentityResolveResponse =
  id_address :: string
  id_resp_protocol :: string
  proof_of_personhood :: bool

text \<open>\<^verbatim>\<open>BnsNameResponse\<close> and \<^verbatim>\<open>EnsResponse\<close> as \<^verbatim>\<open>serde\<close> reads them from a body.\<close>

definition bns_address :: "json \<Rightarrow> string option" where
  "bns_address j = (case j of JArr [JStr a] \<Rightarrow> Some a | _ \<Rightarrow> Option.bind (json_get ''address'' j) as_str)"

definition ens_address :: "json \<Rightarrow> (unit, string option) result" where
  "ens_address j =
     (case j of JObj kvs \<Rightarrow> opt_string (map_of kvs ''address'') | JArr [a] \<Rightarrow> opt_string (Some a) | _ \<Rightarrow> Inl ())"

definition id_answer :: "IdentityResolveRequest \<Rightarrow> nat \<Rightarrow> string \<Rightarrow> nat \<times> IdentityResolveResponse" where
  "id_answer req st addr = (st, \<lparr>id_address = addr, id_resp_protocol = id_protocol req, proof_of_personhood = False\<rparr>)"

definition resolve_bns :: "IdentityResolveRequest \<Rightarrow> (string, http_response) result \<Rightarrow> nat \<times> IdentityResolveResponse" where
  "resolve_bns req r =
     (case r of
        Inl _ \<Rightarrow> id_answer req 502 []
      | Inr resp \<Rightarrow>
          if hr_status resp = 404 then id_answer req 404 []
          else if \<not> is_success (hr_status resp) then id_answer req 502 []
          else case hr_json resp of
            Inl _ \<Rightarrow> id_answer req 502 []
          | Inr j \<Rightarrow> (case bns_address j of None \<Rightarrow> id_answer req 502 [] | Some a \<Rightarrow> id_answer req 200 a))"

definition resolve_ens :: "IdentityResolveRequest \<Rightarrow> (string, http_response) result \<Rightarrow> nat \<times> IdentityResolveResponse" where
  "resolve_ens req r =
     (case r of
        Inl _ \<Rightarrow> id_answer req 502 []
      | Inr resp \<Rightarrow>
          if \<not> is_success (hr_status resp) then id_answer req 404 []
          else case hr_json resp of
            Inl _ \<Rightarrow> id_answer req 502 []
          | Inr j \<Rightarrow>
              (case ens_address j of
                 Inl _ \<Rightarrow> id_answer req 502 []
               | Inr (Some a) \<Rightarrow> id_answer req 200 a
               | Inr None \<Rightarrow> id_answer req 404 []))"

definition resolve_worldid :: "Config \<Rightarrow> IdentityResolveRequest \<Rightarrow> nat \<times> IdentityResolveResponse" where
  "resolve_worldid cfg req = (if worldid_app_id cfg = [] then id_answer req 502 [] else id_answer req 501 [])"

definition resolve_identity_handler ::
  "'w services \<Rightarrow> Config \<Rightarrow> IdentityResolveRequest \<Rightarrow> 'w \<Rightarrow> (nat \<times> IdentityResolveResponse) \<times> 'w" where
  "resolve_identity_handler sv cfg req w =
     (if id_protocol req = ''BNS'' then
        (case http_get sv (trim_end_char (CHR 0x2F) (stacks_node_rpc_url cfg) @ ''/v1/names/'' @ id_name req) w of
           (r, w') \<Rightarrow> (resolve_bns req r, w'))
      else if id_protocol req = ''ENS'' then
        (case http_get sv (''https://api.ensideas.com/v1/resolve/'' @ id_name req) w of (r, w') \<Rightarrow> (resolve_ens req r, w'))
      else if id_protocol req = ''WorldID'' then (resolve_worldid cfg req, w)
      else (id_answer req 400 [], w))"

section \<open>Bonds\<close>

record DlcBondRequest =
  bond_id :: string
  principal_sbtc :: u64
  expiry_height :: u64
  coupon_rate :: rat

record DlcBondResponse =
  dlc_contract_id :: string
  dlc_status :: string
  oracle_announcement :: string
  next_coupon_height :: u64

definition validate_dlc_request :: "DlcBondRequest \<Rightarrow> (string, unit) result" where
  "validate_dlc_request p =
     (if trim (bond_id p) = [] then Inl ''bond_id is required''
      else if principal_sbtc p = 0 then Inl ''principal_sbtc must be greater than zero''
      else Inr ())"

definition build_announcement_data :: "DlcBondRequest \<Rightarrow> string" where
  "build_announcement_data p =
     ''dlc_bond_init:'' @ bond_id p @ '':'' @ show_nat (principal_sbtc p) @ '':'' @ show_nat (expiry_height p)"

definition calculate_next_coupon_height :: "u64 \<Rightarrow> u64" where
  "calculate_next_coupon_height expiry = expiry div 10"

definition sign_announcement_with :: "string \<Rightarrow> (string \<Rightarrow> (string, string) result) \<Rightarrow> (string, string) result" where
  "sign_announcement_with announcement signer = signer announcement"

text \<open>The result of the \<^verbatim>\<open>HSET\<close> is dropped (\<^verbatim>\<open>unwrap_or(())\<close>).\<close>

definition create_dlc_bond_handler ::
  "'w services \<Rightarrow> (string \<Rightarrow> (string, string) result) \<Rightarrow> DlcBondRequest \<Rightarrow> 'w \<Rightarrow> DlcBondResponse reply \<times> 'w" where
  "create_dlc_bond_handler sv signer p w =
     (case validate_dlc_request p of
        Inl _ \<Rightarrow> (Body 400 \<lparr>dlc_contract_id = [], dlc_status = ''Error'', oracle_announcement = [], next_coupon_height = 0\<rparr>, w)
      | Inr _ \<Rightarrow>
          (case sign_announcement_with (build_announcement_data p) signer of
             Inl _ \<Rightarrow> (reply.Text 500 ''Signing Error'', w)
           | Inr announcement \<Rightarrow>
               (case new_uuid sv w of (u, w1) \<Rightarrow>
                let contract_id = ''dlc_'' @ u in
                case redis_connect sv w1 of
                  (Inl _, w2) \<Rightarrow> (reply.Text 500 ''Redis Error'', w2)
                | (Inr _, w2) \<Rightarrow>
                    (Body 201 \<lparr>dlc_contract_id = contract_id, dlc_status = ''Initialized'', oracle_announcement = announcement,
                       next_coupon_height = calculate_next_coupon_height (expiry_height p)\<rparr>,
                     snd (redis_unit sv [''HSET'', ''dlc_bond:'' @ contract_id, ''bond_id'', bond_id p,
                       ''principal'', show_nat (principal_sbtc p), ''status'', ''Initialized'', ''announcement'', announcement] w2)))))"

section \<open>Machine-learning proofs\<close>

record ZkmlVerifyRequest =
  zk_proof :: string
  zk_input_commitment :: string
  zk_model_id :: string

record ZkmlVerifyResponse =
  zk_valid :: bool
  zk_attestation_id :: "string option"
  zk_confidence :: "rat option"

text \<open>\<open>groth\<close> is \<^verbatim>\<open>verify_state_root_bn254_groth16\<close> without optional inputs, \<open>upper\<close> is \<^verbatim>\<open>str::to_uppercase\<close>, which
  follows the Unicode tables; the confidence is the double nearest to 0.985.\<close>

definition zkml_env_key :: "(string \<Rightarrow> string) \<Rightarrow> string \<Rightarrow> string" where
  "zkml_env_key upper model =
     ''ZKML_VK_B64_'' @ upper (replace_char (\<lambda>c. if c = CHR ''-'' then ''_'' else [c]) model)"

definition zkml_key :: "(string \<Rightarrow> string) \<Rightarrow> Config \<Rightarrow> string \<Rightarrow> string" where
  "zkml_key upper cfg model =
     (case map_of (zkml_vks cfg) (zkml_env_key upper model) of Some vk \<Rightarrow> vk | None \<Rightarrow> ''YmFzZTY0cGxhY2Vob2xkZXI='')"

definition ZKML_CONFIDENCE :: rat where
  "ZKML_CONFIDENCE = 8872091265919877 / 2 ^ 53"

definition verify_zkml_handler ::
  "'w services \<Rightarrow> (string \<Rightarrow> string) \<Rightarrow> (string \<Rightarrow> string \<Rightarrow> string \<Rightarrow> (string, bool) result) \<Rightarrow> Config \<Rightarrow>
   ZkmlVerifyRequest \<Rightarrow> 'w \<Rightarrow> (nat \<times> ZkmlVerifyResponse) \<times> 'w" where
  "verify_zkml_handler sv upper groth cfg p w =
     (if trim (zk_proof p) = [] \<or> trim (zk_input_commitment p) = [] \<or> trim (zk_model_id p) = []
      then ((400, \<lparr>zk_valid = False, zk_attestation_id = None, zk_confidence = None\<rparr>), w)
      else
        let is_valid = or_else (groth (zkml_key upper cfg (zk_model_id p)) (zk_input_commitment p) (zk_proof p)) False in
        if is_valid then
          (case new_uuid sv w of (u, w') \<Rightarrow>
             ((200, \<lparr>zk_valid = True, zk_attestation_id = Some u, zk_confidence = Some ZKML_CONFIDENCE\<rparr>), w'))
        else ((400, \<lparr>zk_valid = False, zk_attestation_id = None, zk_confidence = None\<rparr>), w))"

section \<open>Analytics\<close>

record AnalyticsParams =
  an_asset :: "string option"
  an_metric :: string
  an_days :: "i64 option"

record DataPoint =
  dp_timestamp :: string
  dp_value :: rat

record AnalyticsResponse =
  ar_asset :: string
  ar_metric :: string
  ar_data :: "DataPoint list"

text \<open>The three queries, with the number of days bound where the query has it; a row is its text and its count.\<close>

datatype analytics_query = DailyTransactions int | DailySenders int | SenderTiers

definition clamp :: "int \<Rightarrow> int \<Rightarrow> int \<Rightarrow> int" where
  "clamp lo hi x = (if x < lo then lo else if hi < x then hi else x)"

definition f64_of_int :: "i64 \<Rightarrow> rat" where
  "f64_of_int x = (if x < 0 then - of_nat (f64_of_nat (nat (- x))) else of_nat (f64_of_nat (nat x)))"

definition metric_query :: "string \<Rightarrow> int \<Rightarrow> analytics_query option" where
  "metric_query metric days =
     (if metric = ''tx_count'' \<or> metric = ''tx_volume'' then Some (DailyTransactions days)
      else if metric = ''active_senders'' then Some (DailySenders days)
      else if metric = ''whale_distribution'' then Some SenderTiers
      else None)"

definition get_metrics_handler ::
  "(analytics_query \<Rightarrow> ('w, string, (string \<times> i64) list) io) \<Rightarrow> AnalyticsParams \<Rightarrow> ('w, nat, AnalyticsResponse) io" where
  "get_metrics_handler query p w =
     (let asset = (case an_asset p of Some a \<Rightarrow> a | None \<Rightarrow> ''STX'') in
      if asset \<noteq> ''STX'' then (Inl 400, w)
      else
        let days = clamp 1 365 (case an_days p of Some d \<Rightarrow> d | None \<Rightarrow> 7) in
        case metric_query (an_metric p) days of
          None \<Rightarrow> (Inl 400, w)
        | Some q \<Rightarrow>
            (case query q w of
               (Inl _, w') \<Rightarrow> (Inl 500, w')
             | (Inr rows, w') \<Rightarrow>
                 (Inr \<lparr>ar_asset = asset, ar_metric = an_metric p,
                    ar_data = map (\<lambda>(day, count). \<lparr>dp_timestamp = day, dp_value = f64_of_int count\<rparr>) rows\<rparr>, w')))"

section \<open>Lemmas\<close>

lemma colon_no_digit: "CHR '':'' \<notin> set (show_nat n)"
  using show_nat_digits [of "CHR '':''" n] by (auto simp: is_digit_def)

text \<open>A text after the last separator is determined.\<close>

lemma last_field:
  assumes "a @ c # x = b @ c # y" and "c \<notin> set x" and "c \<notin> set y"
  shows "a = b \<and> x = y"
  using assms by (auto simp: append_eq_append_conv2 Cons_eq_append_conv append_eq_Cons_conv)

lemma announcement_injective:
  assumes "build_announcement_data p = build_announcement_data q"
  shows "bond_id p = bond_id q \<and> principal_sbtc p = principal_sbtc q \<and> expiry_height p = expiry_height q"
proof -
  have "(bond_id p @ CHR '':'' # show_nat (principal_sbtc p)) @ CHR '':'' # show_nat (expiry_height p)
      = (bond_id q @ CHR '':'' # show_nat (principal_sbtc q)) @ CHR '':'' # show_nat (expiry_height q)"
    using assms by (simp add: build_announcement_data_def)
  from last_field [OF this colon_no_digit colon_no_digit]
  have e: "expiry_height p = expiry_height q"
    and b: "bond_id p @ CHR '':'' # show_nat (principal_sbtc p) = bond_id q @ CHR '':'' # show_nat (principal_sbtc q)"
    by simp_all
  from last_field [OF b colon_no_digit colon_no_digit] e show ?thesis by simp
qed

lemma identity_statuses:
  "fst (fst (resolve_identity_handler sv cfg req w)) \<in> {200, 400, 404, 501, 502}"
  by (auto simp: resolve_identity_handler_def resolve_worldid_def resolve_bns_def resolve_ens_def id_answer_def
      split: prod.splits sum.splits option.splits)

section \<open>Properties\<close>

text \<open>Identity resolution never asserts personhood and never hands out an address with any status but 200; it is answered
  without a network call where the protocol is neither BNS nor ENS, and never with 200 then.\<close>

theorem identity_answers:
  assumes "resolve_identity_handler sv cfg req w = ((st, resp), w')"
  shows "\<not> proof_of_personhood resp \<and> (st \<noteq> 200 \<longrightarrow> id_address resp = [])
    \<and> (id_protocol req \<notin> {''BNS'', ''ENS''} \<longrightarrow> w' = w \<and> st \<in> {400, 501, 502})"
  using assms
  by (auto simp: resolve_identity_handler_def resolve_worldid_def resolve_bns_def resolve_ens_def id_answer_def
      split: prod.splits sum.splits option.splits if_splits)

text \<open>Creating a bond.  A request with a blank id or no principal is answered 400 and nothing happens; otherwise the
  announcement is signed, and the answer is 201 exactly when the signer and the connection succeed.  The signed text
  determines bond, principal and expiry.  The bond is then stored under the answered contract id when Redis accepts the
  write, but 201 is answered also where it does not.\<close>

theorem dlc_bond_created:
  assumes "new_uuid sv w = (u, w1)" and "redis_connect sv w1 = (c, w2)"
    and "redis_unit sv [''HSET'', ''dlc_bond:dlc_'' @ u, ''bond_id'', bond_id p, ''principal'', show_nat (principal_sbtc p),
       ''status'', ''Initialized'', ''announcement'', sig] w2 = (stored, w3)"
    and "signer (build_announcement_data p) = Inr sig"
  shows "(if trim (bond_id p) = [] \<or> principal_sbtc p = 0
      then reply_status (fst (create_dlc_bond_handler sv signer p w)) = 400 \<and> snd (create_dlc_bond_handler sv signer p w) = w
      else case c of
        Inl _ \<Rightarrow> create_dlc_bond_handler sv signer p w = (reply.Text 500 ''Redis Error'', w2)
      | Inr _ \<Rightarrow> create_dlc_bond_handler sv signer p w =
          (Body 201 \<lparr>dlc_contract_id = ''dlc_'' @ u, dlc_status = ''Initialized'', oracle_announcement = sig,
             next_coupon_height = expiry_height p div 10\<rparr>, w3))
    \<and> (\<forall>q. build_announcement_data q = build_announcement_data p \<longrightarrow>
         bond_id q = bond_id p \<and> principal_sbtc q = principal_sbtc p \<and> expiry_height q = expiry_height p)"
proof (intro conjI allI impI)
  show "if trim (bond_id p) = [] \<or> principal_sbtc p = 0
      then reply_status (fst (create_dlc_bond_handler sv signer p w)) = 400 \<and> snd (create_dlc_bond_handler sv signer p w) = w
      else case c of
        Inl _ \<Rightarrow> create_dlc_bond_handler sv signer p w = (reply.Text 500 ''Redis Error'', w2)
      | Inr _ \<Rightarrow> create_dlc_bond_handler sv signer p w =
          (Body 201 \<lparr>dlc_contract_id = ''dlc_'' @ u, dlc_status = ''Initialized'', oracle_announcement = sig,
             next_coupon_height = expiry_height p div 10\<rparr>, w3)"
  proof (cases "trim (bond_id p) = [] \<or> principal_sbtc p = 0")
    case True
    then have "\<exists>e. validate_dlc_request p = Inl e" by (auto simp: validate_dlc_request_def)
    with True show ?thesis by (auto simp: create_dlc_bond_handler_def)
  next
    case False
    then have "validate_dlc_request p = Inr ()" by (simp add: validate_dlc_request_def)
    with False assms show ?thesis
      by (cases c) (simp_all add: create_dlc_bond_handler_def sign_announcement_with_def calculate_next_coupon_height_def Let_def)
  qed
qed (use announcement_injective in blast)+

definition sample_bond :: DlcBondRequest where
  "sample_bond = \<lparr>bond_id = ''bond-1'', principal_sbtc = 42, expiry_height = 2100, coupon_rate = 0\<rparr>"

text \<open>A Redis that connects and then refuses the write: the bond is answered as created and stored nowhere.\<close>

definition refusing :: "unit services" where
  "refusing = offline\<lparr>redis_connect := io_ok ()\<rparr>"

theorem dlc_bond_created_witness:
  "fst (redis_unit refusing [''HSET'', ''dlc_bond:dlc_00000000-0000-4000-8000-000000000000''] ()) = Inl ''offline''
   \<and> create_dlc_bond_handler refusing (\<lambda>_. Inr ''sig'') sample_bond () =
     (Body 201 \<lparr>dlc_contract_id = ''dlc_00000000-0000-4000-8000-000000000000'', dlc_status = ''Initialized'',
        oracle_announcement = ''sig'', next_coupon_height = 210\<rparr>, ())"
proof -
  have f: "new_uuid refusing () = (''00000000-0000-4000-8000-000000000000'', ())" "redis_connect refusing () = (Inr (), ())"
    "redis_unit refusing c () = (Inl ''offline'', ())" for c
    by (simp_all add: refusing_def offline_def)
  have "trim (bond_id sample_bond) \<noteq> []"
    by (simp add: sample_bond_def trim_id ws_front_def ws_back_def byte_at_def)
  with dlc_bond_created [OF f(1,2,3), of "\<lambda>_. Inr ''sig''" sample_bond "''sig''"] f(3)
  show ?thesis by (simp add: sample_bond_def)
qed

text \<open>Machine-learning proofs.  The answer is 200 with a fresh attestation exactly when no field is blank and the verifier
  accepts under the key of the model, an error of the verifier counts as a rejection, and a rejection has neither
  attestation nor confidence.  The key depends on the model's name only up to dashes and case, and a model that is
  not configured is checked against a fixed placeholder.\<close>

theorem zkml_attested_iff_verified:
  assumes "verify_zkml_handler sv upper groth cfg p w = ((st, resp), w')"
  shows "(st = 200 \<longleftrightarrow> trim (zk_proof p) \<noteq> [] \<and> trim (zk_input_commitment p) \<noteq> [] \<and> trim (zk_model_id p) \<noteq> []
       \<and> groth (zkml_key upper cfg (zk_model_id p)) (zk_input_commitment p) (zk_proof p) = Inr True)
    \<and> zk_valid resp = (st = 200) \<and> (zk_attestation_id resp \<noteq> None) = (st = 200) \<and> (zk_confidence resp \<noteq> None) = (st = 200)
    \<and> (st \<noteq> 200 \<longrightarrow> st = 400 \<and> w' = w)
    \<and> (map_of (zkml_vks cfg) (zkml_env_key upper (zk_model_id p)) = None \<longrightarrow>
         zkml_key upper cfg (zk_model_id p) = ''YmFzZTY0cGxhY2Vob2xkZXI='')"
  using assms
  by (cases "groth (zkml_key upper cfg (zk_model_id p)) (zk_input_commitment p) (zk_proof p)")
    (auto simp: verify_zkml_handler_def zkml_key_def Let_def split: prod.splits if_splits)

definition sample_zkml :: ZkmlVerifyRequest where
  "sample_zkml = \<lparr>zk_proof = ''p'', zk_input_commitment = ''c'', zk_model_id = ''m''\<rparr>"

theorem zkml_attested_iff_verified_witness:
  "fst (fst (verify_zkml_handler refusing (\<lambda>s. s) (\<lambda>vk c p. Inr (vk = ''YmFzZTY0cGxhY2Vob2xkZXI='')) default_test sample_zkml ())) = 200"
proof -
  obtain st resp w' where run: "verify_zkml_handler refusing (\<lambda>s. s) (\<lambda>vk c p. Inr (vk = ''YmFzZTY0cGxhY2Vob2xkZXI=''))
      default_test sample_zkml () = ((st, resp), w')" by (metis prod.exhaust)
  have "trim (zk_proof sample_zkml) \<noteq> []" "trim (zk_input_commitment sample_zkml) \<noteq> []" "trim (zk_model_id sample_zkml) \<noteq> []"
    by (simp_all add: sample_zkml_def trim_id ws_front_def ws_back_def byte_at_def)
  moreover have "map_of (zkml_vks default_test) (zkml_env_key (\<lambda>s. s) (zk_model_id sample_zkml)) = None"
    by (simp add: default_test_def)
  ultimately show ?thesis using zkml_attested_iff_verified [OF run] run by simp
qed

text \<open>Analytics are answered only for STX and a known metric, with one query over 1 to 365 days and one point per row.\<close>

theorem analytics_answers:
  assumes "get_metrics_handler query p w = (r, w')"
  shows "(case r of
      Inl st \<Rightarrow> st = 500 \<or> st = 400 \<and> w' = w
    | Inr resp \<Rightarrow> ar_asset resp = ''STX'' \<and> (\<exists>q rows. metric_query (an_metric p) (clamp 1 365 (case an_days p of Some d \<Rightarrow> d | None \<Rightarrow> 7)) = Some q
        \<and> query q w = (Inr rows, w') \<and> map dp_timestamp (ar_data resp) = map fst rows))
    \<and> clamp 1 365 d \<in> {1..365}"
  using assms
  by (auto simp: get_metrics_handler_def clamp_def Let_def split: option.splits prod.splits sum.splits if_splits)

end
