(* ===== verification/Routes.thy ===== *)
theory Routes
  imports Admin_Runs
begin

text \<open>
  The route tables of the HTTP service: \<^verbatim>\<open>app_router\<close> of \<^verbatim>\<open>src/api/rest.rs\<close>, the tables it nests and the table of
  \<^verbatim>\<open>public_auth_md_routes\<close>, and the administration service as requests reach it.  How \<^verbatim>\<open>axum\<close> selects a route is not
  part of the sources: it is the parameter of the locale \<open>router\<close>, whose laws are the documented ones, and \<open>first_match\<close> is an
  instance.  The rejection of a body that does not decode is a parameter too.
\<close>

section \<open>Tables\<close>

datatype meth = GET | HEAD | POST | Other_Method string

datatype admin_endpoint =
    Login | Protected_Status | Request_Release_Approval | Submit_Release_Decision | Submit_Governance_Decision
  | Runtime_Health | Runtime_Readiness | Audit_Events | Environment | Chains | Chain_Status | Attestations | Attestation
  | Drift | Safety_Mode | Ack_Safety_Mode | Promotion_Evidence | Environments

datatype public_endpoint =
    Auth_Md | Protected_Resource | Authorization_Server | Start_Registration | Start_Claim | Complete_Claim | View_Claim

datatype endpoint =
    Health | Proof | Proof_Manifest | Submit | Mmr_Proof | Metrics | Generate_Key | Track_Signature | Verify_Zkml
  | Settlement_Trigger | Resolve_Identity | Dlc_Bond | Erp_Sync | Services_Status | Verify_Bitvm | Verify_Evm | Verify_Cosmos
  | Verify_Stacks | Rgb_Contract | Admin admin_endpoint | Public public_endpoint

type_synonym route = "string \<times> meth \<times> endpoint"

definition analytics_routes :: "route list" where
  "analytics_routes = [(''/metrics'', GET, Metrics)]"

definition billing_routes :: "route list" where
  "billing_routes = [(''/generate-key'', POST, Generate_Key), (''/telemetry/track-signature'', POST, Track_Signature)]"

definition zkml_routes :: "route list" where "zkml_routes = [(''/verify'', POST, Verify_Zkml)]"
definition settlement_routes :: "route list" where "settlement_routes = [(''/trigger'', POST, Settlement_Trigger)]"
definition identity_routes :: "route list" where "identity_routes = [(''/resolve'', GET, Resolve_Identity)]"
definition dlc_routes :: "route list" where "dlc_routes = [(''/bond'', POST, Dlc_Bond)]"
definition erp_routes :: "route list" where "erp_routes = [(''/sync'', POST, Erp_Sync)]"
definition services_routes :: "route list" where "services_routes = [(''/status'', GET, Services_Status)]"
definition bitvm_routes :: "route list" where "bitvm_routes = [(''/verify-state-root'', POST, Verify_Bitvm)]"
definition evm_routes :: "route list" where "evm_routes = [(''/verify-receipt'', POST, Verify_Evm)]"
definition cosmos_routes :: "route list" where "cosmos_routes = [(''/verify-ibc'', POST, Verify_Cosmos)]"
definition stacks_routes :: "route list" where "stacks_routes = [(''/verify-tx'', POST, Verify_Stacks)]"
definition rgb_routes :: "route list" where "rgb_routes = [(''/contract'', GET, Rgb_Contract)]"

definition admin_routes :: "route list" where
  "admin_routes =
     [(''/login'', POST, Admin Login), (''/status'', GET, Admin Protected_Status),
      (''/releases/request-approval'', POST, Admin Request_Release_Approval),
      (''/releases/decision'', POST, Admin Submit_Release_Decision),
      (''/governance/decision'', POST, Admin Submit_Governance_Decision),
      (''/runtime/health'', GET, Admin Runtime_Health), (''/runtime/readiness'', GET, Admin Runtime_Readiness),
      (''/audit-events'', GET, Admin Audit_Events), (''/environments/{env}'', GET, Admin Environment),
      (''/chains'', GET, Admin Chains), (''/chains/{chain}/status'', GET, Admin Chain_Status),
      (''/attestations'', GET, Admin Attestations), (''/attestations/{id}'', GET, Admin Attestation),
      (''/drift'', GET, Admin Drift), (''/safety-mode'', GET, Admin Safety_Mode),
      (''/safety-mode/ack'', POST, Admin Ack_Safety_Mode),
      (''/promotion-evidence/{release}'', GET, Admin Promotion_Evidence), (''/environments'', GET, Admin Environments)]"

definition public_auth_md_routes :: "route list" where
  "public_auth_md_routes =
     [(''/auth.md'', GET, Public Auth_Md), (''/.well-known/oauth-protected-resource'', GET, Public Protected_Resource),
      (''/.well-known/oauth-authorization-server'', GET, Public Authorization_Server),
      (''/agent/auth'', POST, Public Start_Registration), (''/agent/auth/claim'', POST, Public Start_Claim),
      (''/agent/auth/claim/complete'', POST, Public Complete_Claim), (''/agent/auth/claim/view'', GET, Public View_Claim)]"

definition nest :: "string \<Rightarrow> route list \<Rightarrow> route list" where
  "nest prefix rs = map (\<lambda>(p, m, e). (prefix @ p, m, e)) rs"

definition app_routes :: "route list" where
  "app_routes =
     [(''/health'', GET, Health), (''/v1/proof'', GET, Proof), (''/v1/proof/manifest'', GET, Proof_Manifest),
      (''/v1/submit'', POST, Submit), (''/v1/status'', GET, Health), (''/v1/mmr-proof'', GET, Mmr_Proof)]
     @ nest ''/v1/analytics'' analytics_routes @ nest ''/v1/billing'' billing_routes @ nest ''/v1/zkml'' zkml_routes
     @ nest ''/admin/v1'' admin_routes @ nest ''/v1/settlement'' settlement_routes @ nest ''/v1/identity'' identity_routes
     @ nest ''/v1/dlc'' dlc_routes @ nest ''/v1/erp'' erp_routes @ nest ''/v1/services'' services_routes
     @ nest ''/v1/bitvm2'' bitvm_routes @ nest ''/v1/evm'' evm_routes @ nest ''/v1/cosmos'' cosmos_routes
     @ nest ''/v1/stacks'' stacks_routes @ nest ''/v1/rgb'' rgb_routes"

section \<open>Security headers\<close>

text \<open>\<^verbatim>\<open>src/api/security.rs\<close>: the values it offers; no table and no layer of the router uses them.\<close>

record SecurityHeadersConfig =
  x_frame_options :: string
  x_content_type_options :: string
  x_xss_protection :: string
  referrer_policy :: string
  strict_transport_security :: string
  content_security_policy :: "string option"

definition default_headers :: SecurityHeadersConfig where
  "default_headers = \<lparr>x_frame_options = ''DENY'', x_content_type_options = ''nosniff'', x_xss_protection = ''0'',
     referrer_policy = ''strict-origin-when-cross-origin'',
     strict_transport_security = ''max-age=31536000; includeSubDomains'', content_security_policy = None\<rparr>"

definition strict_headers :: SecurityHeadersConfig where
  "strict_headers = default_headers\<lparr>strict_transport_security := ''max-age=31536000; includeSubDomains; preload''\<rparr>"

definition with_csp :: "string \<Rightarrow> SecurityHeadersConfig" where
  "with_csp csp = default_headers\<lparr>content_security_policy := Some csp\<rparr>"

section \<open>Selection\<close>

fun segments :: "string \<Rightarrow> string list" where
  "segments [] = [[]]"
| "segments (c # cs) =
     (case segments cs of s # ss \<Rightarrow> if c = CHR ''/'' then [] # s # ss else (c # s) # ss | [] \<Rightarrow> [])"

definition is_param :: "string \<Rightarrow> bool" where
  "is_param p \<longleftrightarrow> p \<noteq> [] \<and> hd p = CHR ''{''"

text \<open>The captured segments of a path that fits a pattern; a capture is never empty.\<close>

fun fit :: "string list \<Rightarrow> string list \<Rightarrow> string list option" where
  "fit [] [] = Some []"
| "fit (p # ps) (s # ss) =
     (if is_param p then if s = [] then None else map_option (Cons s) (fit ps ss)
      else if p = s then fit ps ss else None)"
| "fit _ _ = None"

definition fits :: "route \<Rightarrow> string \<Rightarrow> bool" where
  "fits r path \<longleftrightarrow> fit (segments (fst r)) (segments path) \<noteq> None"

text \<open>A route for GET answers HEAD as well.\<close>

definition answers :: "route \<Rightarrow> meth \<Rightarrow> bool" where
  "answers r m \<longleftrightarrow> fst (snd r) = m \<or> fst (snd r) = GET \<and> m = HEAD"

datatype routed = Handler endpoint "string list" | Method_Not_Allowed | Not_Found

fun overlap :: "string list \<Rightarrow> string list \<Rightarrow> bool" where
  "overlap [] [] = True"
| "overlap (p # ps) (q # qs) = ((is_param p \<or> is_param q \<or> p = q) \<and> overlap ps qs)"
| "overlap _ _ = False"

definition shared :: "meth \<Rightarrow> meth \<Rightarrow> bool" where
  "shared m m' \<longleftrightarrow> m = m' \<or> {m, m'} = {GET, HEAD}"

fun pairwise_apart :: "(meth \<times> string list) list \<Rightarrow> bool" where
  "pairwise_apart [] = True"
| "pairwise_apart (r # rs) = (list_all (\<lambda>q. \<not> (overlap (snd r) (snd q) \<and> shared (fst r) (fst q))) rs \<and> pairwise_apart rs)"

definition unambiguous :: "route list \<Rightarrow> bool" where
  "unambiguous rs = pairwise_apart (map (\<lambda>(p, m, _). (m, segments p)) rs)"

locale router =
  fixes dispatch :: "route list \<Rightarrow> meth \<Rightarrow> string \<Rightarrow> routed"
  assumes served: "unambiguous rs \<Longrightarrow> r \<in> set rs \<Longrightarrow> fits r path \<Longrightarrow> answers r m \<Longrightarrow>
      \<exists>params. dispatch rs m path = Handler (snd (snd r)) params"
    and refused: "r \<in> set rs \<Longrightarrow> fits r path \<Longrightarrow> \<forall>q \<in> set rs. fits q path \<longrightarrow> \<not> answers q m \<Longrightarrow>
      dispatch rs m path = Method_Not_Allowed"
    and not_found: "\<forall>q \<in> set rs. \<not> fits q path \<Longrightarrow> dispatch rs m path = Not_Found"
begin

text \<open>A handler that was reached has a route that fits the path and the method.\<close>

lemma handler_origin:
  assumes "unambiguous rs" and "dispatch rs m path = Handler e params"
  shows "\<exists>r \<in> set rs. fits r path \<and> answers r m \<and> snd (snd r) = e"
proof (rule ccontr)
  assume none: "\<not> ?thesis"
  have "\<not> answers r m" if "r \<in> set rs" "fits r path" for r
    using served [OF assms(1) that] assms(2) none that by (metis routed.inject(1))
  then show False using refused [of _ rs path m] not_found [of rs path m] assms(2) by fastforce
qed

lemma reached_iff:
  assumes "unambiguous rs"
  shows "(\<exists>params. dispatch rs m path = Handler e params) \<longleftrightarrow> (\<exists>r \<in> set rs. fits r path \<and> answers r m \<and> snd (snd r) = e)"
  using served [OF assms] handler_origin [OF assms] by metis

end

definition first_match :: "route list \<Rightarrow> meth \<Rightarrow> string \<Rightarrow> routed" where
  "first_match rs m path =
     (case filter (\<lambda>r. fits r path) rs of
        [] \<Rightarrow> Not_Found
      | fs \<Rightarrow> (case find (\<lambda>r. answers r m) fs of
          Some (p, _, e) \<Rightarrow> Handler e (the (fit (segments p) (segments path)))
        | None \<Rightarrow> Method_Not_Allowed))"

lemma fit_overlap: "fit p s \<noteq> None \<Longrightarrow> fit q s \<noteq> None \<Longrightarrow> overlap p q"
proof (induction p s arbitrary: q rule: fit.induct)
  case (2 p ps s ss)
  then show ?case by (cases q) (auto split: if_splits)
qed (auto elim: fit.elims)

lemma unambiguous_unique:
  assumes "unambiguous rs" and "r \<in> set rs" "fits r path" "answers r m" and "q \<in> set rs" "fits q path" "answers q m"
  shows "r = q"
  using assms
proof (induction rs)
  case (Cons x rs)
  have "overlap (segments (fst r)) (segments (fst q))" "overlap (segments (fst q)) (segments (fst r))"
    using Cons.prems(3,6) fit_overlap unfolding fits_def by blast+
  moreover have "shared (fst (snd r)) (fst (snd q))" "shared (fst (snd q)) (fst (snd r))"
    using Cons.prems(4,7) by (auto simp: shared_def answers_def)
  ultimately show ?case using Cons by (auto simp: unambiguous_def list_all_iff case_prod_unfold)
qed simp

interpretation axum: router first_match
proof
  fix rs r path m
  assume u: "unambiguous rs" and r: "r \<in> set rs" "fits r path" "answers r m"
  have "find (\<lambda>r. answers r m) (filter (\<lambda>r. fits r path) rs) \<noteq> None"
    using r unfolding find_None_iff by (metis (mono_tags, lifting) set_filter mem_Collect_eq)
  then obtain q where q: "find (\<lambda>r. answers r m) (filter (\<lambda>r. fits r path) rs) = Some q" by blast
  then have "q \<in> set rs" "fits q path" "answers q m" by (auto simp: find_Some_iff) (metis set_filter mem_Collect_eq nth_mem)+
  then have "q = r" using unambiguous_unique u r by blast
  with q r show "\<exists>params. first_match rs m path = Handler (snd (snd r)) params"
    by (cases r) (auto simp: first_match_def split: list.split)
next
  fix r rs path m
  assume "r \<in> set rs" "fits r path" "\<forall>q \<in> set rs. fits q path \<longrightarrow> \<not> answers q m"
  moreover from this have "find (\<lambda>r. answers r m) (filter (\<lambda>r. fits r path) rs) = None" by (auto simp: find_None_iff)
  ultimately show "first_match rs m path = Method_Not_Allowed"
    by (auto simp: first_match_def filter_empty_conv split: list.split)
next
  fix rs path m
  assume "\<forall>q \<in> set rs. \<not> fits q path"
  then show "first_match rs m path = Not_Found" by (simp add: first_match_def filter_False)
qed

section \<open>The tables of the program\<close>

lemmas route_tables = analytics_routes_def billing_routes_def zkml_routes_def admin_routes_def settlement_routes_def
  identity_routes_def dlc_routes_def erp_routes_def services_routes_def bitvm_routes_def evm_routes_def cosmos_routes_def
  stacks_routes_def rgb_routes_def public_auth_md_routes_def

lemma app_routes_unambiguous: "unambiguous app_routes"
  by (simp add: app_routes_def nest_def route_tables unambiguous_def is_param_def shared_def)

lemma with_public_unambiguous: "unambiguous (app_routes @ public_auth_md_routes)"
  by (simp add: app_routes_def nest_def route_tables unambiguous_def is_param_def shared_def)

section \<open>The administration service as requests reach it\<close>

text \<open>A body as the extractor of the route decodes it; any other body is rejected before the handler runs.\<close>

datatype body =
    No_Body | Login_Body AdminLoginRequest | Approval_Body ReleaseApprovalRequest | Decision_Body ReleaseDecisionRequest
  | Governance_Body GovernanceDecisionRequest | Registration_Body RegistrationRequest | Claim_Body ClaimRequest
  | Complete_Body ClaimCompleteRequest

record http_request =
  hq_method :: meth
  hq_path :: string
  hq_headers :: headers
  hq_token :: string  \<comment> \<open>the query parameter of the claim view\<close>
  hq_body :: body

definition param :: "string list \<Rightarrow> string" where
  "param ps = (case ps of p # _ \<Rightarrow> p | [] \<Rightarrow> [])"

fun serve_admin ::
  "'w services \<Rightarrow> ('s, 'k) admin_env \<Rightarrow> Config \<Rightarrow> admin_response \<Rightarrow> admin_endpoint \<Rightarrow> string list \<Rightarrow> headers \<Rightarrow> body \<Rightarrow> 'w admin_handler" where
  "serve_admin sv ae cfg rejected Login ps hs b =
     (case b of Login_Body req \<Rightarrow> login_handler sv ae cfg req | _ \<Rightarrow> Pair rejected)"
| "serve_admin sv ae cfg rejected Protected_Status ps hs b = get_protected_status cfg hs"
| "serve_admin sv ae cfg rejected Request_Release_Approval ps hs b =
     (case b of Approval_Body req \<Rightarrow> request_release_approval sv ae cfg hs req | _ \<Rightarrow> Pair rejected)"
| "serve_admin sv ae cfg rejected Submit_Release_Decision ps hs b =
     (case b of Decision_Body req \<Rightarrow> submit_release_decision sv ae cfg hs req | _ \<Rightarrow> Pair rejected)"
| "serve_admin sv ae cfg rejected Submit_Governance_Decision ps hs b =
     (case b of Governance_Body req \<Rightarrow> submit_governance_decision sv ae cfg hs req | _ \<Rightarrow> Pair rejected)"
| "serve_admin sv ae cfg rejected Runtime_Health ps hs b = get_runtime_health sv ae cfg hs"
| "serve_admin sv ae cfg rejected Runtime_Readiness ps hs b = get_runtime_readiness sv ae cfg hs"
| "serve_admin sv ae cfg rejected Audit_Events ps hs b = list_audit_events cfg hs"
| "serve_admin sv ae cfg rejected Environment ps hs b = get_environment cfg hs (param ps)"
| "serve_admin sv ae cfg rejected Chains ps hs b = list_chains cfg hs"
| "serve_admin sv ae cfg rejected Chain_Status ps hs b = get_chain_status cfg hs (param ps)"
| "serve_admin sv ae cfg rejected Attestations ps hs b = list_attestations cfg hs"
| "serve_admin sv ae cfg rejected Attestation ps hs b = get_attestation cfg hs (param ps)"
| "serve_admin sv ae cfg rejected Drift ps hs b = get_drift cfg hs"
| "serve_admin sv ae cfg rejected Safety_Mode ps hs b = get_safety_mode sv cfg hs"
| "serve_admin sv ae cfg rejected Ack_Safety_Mode ps hs b = ack_safety_mode sv ae cfg hs"
| "serve_admin sv ae cfg rejected Promotion_Evidence ps hs b = get_promotion_evidence cfg hs (param ps)"
| "serve_admin sv ae cfg rejected Environments ps hs b = list_environments cfg hs"

fun serve_public ::
  "'w services \<Rightarrow> hasher \<Rightarrow> ('s, 'k) admin_env \<Rightarrow> admin_response \<Rightarrow> public_endpoint \<Rightarrow> headers \<Rightarrow> string \<Rightarrow> body \<Rightarrow> 'w admin_handler" where
  "serve_public sv H ae rejected Auth_Md hs token b = Pair get_auth_md"
| "serve_public sv H ae rejected Protected_Resource hs token b = Pair (get_oauth_protected_resource_metadata hs)"
| "serve_public sv H ae rejected Authorization_Server hs token b = Pair (get_oauth_authorization_server_metadata hs)"
| "serve_public sv H ae rejected Start_Registration hs token b =
     (case b of Registration_Body req \<Rightarrow> start_registration sv H ae hs req | _ \<Rightarrow> Pair rejected)"
| "serve_public sv H ae rejected Start_Claim hs token b = (case b of Claim_Body req \<Rightarrow> start_claim sv H req | _ \<Rightarrow> Pair rejected)"
| "serve_public sv H ae rejected Complete_Claim hs token b =
     (case b of Complete_Body req \<Rightarrow> complete_claim sv H req | _ \<Rightarrow> Pair rejected)"
| "serve_public sv H ae rejected View_Claim hs token b = view_claim_otp token"

text \<open>An answer of the administration service, a bare status of the router, or a handler of another component, which does not
  hold the state of the administration.\<close>

datatype answer = Answered admin_response | Bare nat | Elsewhere

definition serve ::
  "(route list \<Rightarrow> meth \<Rightarrow> string \<Rightarrow> routed) \<Rightarrow> route list \<Rightarrow> 'w services \<Rightarrow> hasher \<Rightarrow> ('s, 'k) admin_env \<Rightarrow> Config \<Rightarrow> admin_response
     \<Rightarrow> http_request \<Rightarrow> admin_state \<times> 'w \<Rightarrow> answer \<times> (admin_state \<times> 'w)" where
  "serve dispatch rs sv H ae cfg rejected rq z =
     (case dispatch rs (hq_method rq) (hq_path rq) of
        Handler (Admin e) ps \<Rightarrow> apfst Answered (serve_admin sv ae cfg rejected e ps (hq_headers rq) (hq_body rq) z)
      | Handler (Public e) _ \<Rightarrow>
          apfst Answered (serve_public sv H ae rejected e (hq_headers rq) (hq_token rq) (hq_body rq) z)
      | Handler _ _ \<Rightarrow> (Elsewhere, z)
      | Method_Not_Allowed \<Rightarrow> (Bare 405, z)
      | Not_Found \<Rightarrow> (Bare 404, z))"

inductive served_run ::
  "(route list \<Rightarrow> meth \<Rightarrow> string \<Rightarrow> routed) \<Rightarrow> route list \<Rightarrow> 'w services \<Rightarrow> hasher \<Rightarrow> ('s, 'k) admin_env \<Rightarrow> Config \<Rightarrow> admin_response
     \<Rightarrow> http_request list \<Rightarrow> admin_state \<Rightarrow> bool"
  for dispatch rs sv H ae cfg rejected where
  start: "served_run dispatch rs sv H ae cfg rejected [] empty_admin"
| request: "served_run dispatch rs sv H ae cfg rejected es st \<Longrightarrow>
     serve dispatch rs sv H ae cfg rejected rq (st, w) = (a, (st', w')) \<Longrightarrow>
     served_run dispatch rs sv H ae cfg rejected (rq # es) st'"

section \<open>Lemmas\<close>

lemma decisions_keep:
  "fst (snd (request_release_approval sv ae cfg hs req z)) = fst z"
  "fst (snd (submit_release_decision sv ae cfg hs req' z)) = fst z"
  "fst (snd (submit_governance_decision sv ae cfg hs req'' z)) = fst z"
  using decision_runs [OF request_release_approval_def] decision_runs [OF submit_release_decision_def]
    decision_runs [OF submit_governance_decision_def] by blast+

lemma serve_admin_keeps:
  "e \<noteq> Login \<Longrightarrow> fst (snd (serve_admin sv ae cfg rejected e ps hs b z)) = fst z"
  by (cases e) (simp_all add: read_only_handlers ack_and_view_keep decisions_keep split: body.split)

lemma app_endpoints:
  "list_all (\<lambda>(p, m, e). case e of Public _ \<Rightarrow> False | Admin Login \<Rightarrow> p = ''/admin/v1/login'' \<and> m = POST | _ \<Rightarrow> True) app_routes"
  by (simp add: app_routes_def nest_def route_tables)

lemma app_routes_no_public: "r \<in> set app_routes \<Longrightarrow> snd (snd r) \<noteq> Public e"
  and login_route: "r \<in> set app_routes \<Longrightarrow> snd (snd r) = Admin Login \<Longrightarrow> r = (''/admin/v1/login'', POST, Admin Login)"
  using app_endpoints unfolding list_all_iff by (cases r; fastforce)+

lemma fit_static: "list_all (\<lambda>p. \<not> is_param p) ps \<Longrightarrow> fit ps ss \<noteq> None \<longleftrightarrow> ss = ps"
  by (induction ps ss rule: fit.induct) auto

lemma segments_ne [simp]: "segments s \<noteq> []"
  by (induction s) (auto split: list.split)

lemma segments_inj: "segments a = segments b \<Longrightarrow> a = b"
proof (induction a arbitrary: b)
  case Nil
  then show ?case by (cases b) (auto split: list.splits if_splits)
next
  case (Cons c a)
  obtain s ss where a: "segments a = s # ss" using segments_ne by (metis neq_Nil_conv)
  show ?case
  proof (cases b)
    case Nil
    then show ?thesis using Cons.prems a by (auto split: if_splits)
  next
    case (Cons d b')
    obtain t ts where b': "segments b' = t # ts" using segments_ne by (metis neq_Nil_conv)
    have "c = d \<and> segments a = segments b'" using Cons.prems a b' local.Cons by (auto split: if_splits)
    then show ?thesis using Cons.IH local.Cons by blast
  qed
qed

lemma login_path: "fits (''/admin/v1/login'', POST, Admin Login) path \<longleftrightarrow> path = ''/admin/v1/login''"
proof -
  have "list_all (\<lambda>p. \<not> is_param p) (segments ''/admin/v1/login'')" by (simp add: is_param_def)
  from fit_static [OF this, of "segments path"] show ?thesis unfolding fits_def fst_conv using segments_inj by metis
qed

lemma stranger_refused:
  assumes "\<forall>token. bearer_token hs = Some token \<longrightarrow> map_of creds token = None \<and> admin_api_token cfg \<noteq> Some token"
  shows "\<exists>r. authorize_for_scope cfg creds hs scope = Inl r \<and> 400 \<le> ar_status r"
    and "\<exists>r. authorize_admin_write cfg creds hs = Inl r \<and> 400 \<le> ar_status r"
  using assms
  by (auto simp: authorize_for_scope_def authorize_admin_write_def pool_grants_def unauthorized_response_def
      bearer_unauthorized_response_def admin_token_not_configured_response_def json_reply_def split: option.split)

lemma stranger_reading:
  assumes "\<forall>token. bearer_token hs = Some token \<longrightarrow> map_of (credentials st) token = None \<and> admin_api_token cfg \<noteq> Some token"
  shows "400 \<le> ar_status (fst (reading cfg hs k (st, w))) \<and> snd (reading cfg hs k (st, w)) = (st, w)"
  using stranger_refused(1) [OF assms, of "''api.read''"] by (auto simp: reading_def)

lemma stranger_answer:
  assumes "\<forall>token. bearer_token hs = Some token \<longrightarrow> map_of (credentials st) token = None \<and> admin_api_token cfg \<noteq> Some token"
    and "400 \<le> ar_status rejected" and "e \<noteq> Login"
  shows "400 \<le> ar_status (fst (serve_admin sv ae cfg rejected e ps hs b (st, w)))
    \<and> snd (serve_admin sv ae cfg rejected e ps hs b (st, w)) = (st, w)"
proof -
  obtain r where r: "authorize_admin_write cfg (credentials st) hs = Inl r" "400 \<le> ar_status r"
    using stranger_refused(2) [OF assms(1)] by blast
  note reads = get_protected_status_def get_runtime_health_def get_runtime_readiness_def list_audit_events_def get_environment_def
    list_chains_def get_chain_status_def list_attestations_def get_attestation_def get_drift_def get_safety_mode_def
    get_promotion_evidence_def list_environments_def
  note decisions = request_release_approval_def submit_release_decision_def submit_governance_decision_def ack_safety_mode_def
  show ?thesis
    using assms(2,3) r by (cases e) (simp_all add: stranger_reading [OF assms(1)] reads decisions split: body.split)
qed

text \<open>A request to the mounted routes leaves the state alone or is a login.\<close>

lemma served_effect:
  assumes "router dispatch" and "serve dispatch app_routes sv H ae cfg rejected rq (st, w) = (a, (st', w'))"
  obtains (Same) "st' = st"
    | (Logged_In) req r where "hq_method rq = POST" "hq_path rq = ''/admin/v1/login''" "hq_body rq = Login_Body req"
        "login_handler sv ae cfg req (st, w) = (r, (st', w'))"
proof (cases "dispatch app_routes (hq_method rq) (hq_path rq)")
  case (Handler x ps)
  obtain r where r: "r \<in> set app_routes" "fits r (hq_path rq)" "answers r (hq_method rq)" "snd (snd r) = x"
    using router.handler_origin [OF assms(1) app_routes_unambiguous Handler] by blast
  show ?thesis
  proof (cases "x = Admin Login")
    case True
    then have "r = (''/admin/v1/login'', POST, Admin Login)" using login_route [OF r(1)] r(4) by simp
    then have at: "hq_method rq = POST" "hq_path rq = ''/admin/v1/login''" using r(2,3) login_path by (simp_all add: answers_def)
    show ?thesis
      using assms(2) Handler True Same Logged_In [OF at]
      by (cases "hq_body rq") (auto simp: serve_def apfst_def map_prod_def split: prod.splits)
  next
    case False
    have "st' = st"
      using assms(2) Handler False app_routes_no_public [OF r(1)] r(4)
        serve_admin_keeps [of _ sv ae cfg rejected ps "hq_headers rq" "hq_body rq" "(st, w)"]
      by (cases x) (fastforce simp: serve_def apfst_def map_prod_def split: prod.splits)+
    then show ?thesis by (rule Same)
  qed
qed (use assms(2) Same in \<open>simp_all add: serve_def\<close>)

section \<open>Properties\<close>

text \<open>C21: The administration surface as it is mounted.  A caller whose bearer token is neither a stored credential nor the configured
  administrator token, on any method and path but the login, gets an error status from every administration handler it
  reaches, and nothing changes.\<close>

theorem admin_surface_guarded:
  assumes "router dispatch" and "400 \<le> ar_status rejected" and "hq_path rq \<noteq> ''/admin/v1/login''"
    and "\<forall>token. bearer_token (hq_headers rq) = Some token \<longrightarrow>
      map_of (credentials st) token = None \<and> admin_api_token cfg \<noteq> Some token"
    and "serve dispatch app_routes sv H ae cfg rejected rq (st, w) = (Answered resp, z)"
  shows "400 \<le> ar_status resp \<and> z = (st, w)"
proof -
  obtain x ps where d: "dispatch app_routes (hq_method rq) (hq_path rq) = Handler x ps"
    using assms(5) by (cases "dispatch app_routes (hq_method rq) (hq_path rq)") (auto simp: serve_def)
  obtain r where r: "r \<in> set app_routes" "fits r (hq_path rq)" "snd (snd r) = x"
    using router.handler_origin [OF assms(1) app_routes_unambiguous d] by blast
  obtain e where e: "x = Admin e" using assms(5) d app_routes_no_public [OF r(1)] r(3) by (cases x) (auto simp: serve_def)
  have "e \<noteq> Login" using login_route [OF r(1)] r(2,3) e login_path assms(3) by auto
  with assms(5) d e stranger_answer [OF assms(4,2), of e sv ae ps "hq_body rq" w] show ?thesis
    by (cases "serve_admin sv ae cfg rejected e ps (hq_headers rq) (hq_body rq) (st, w)") (auto simp: serve_def)
qed

definition sample_get :: "string \<Rightarrow> http_request" where
  "sample_get path = \<lparr>hq_method = GET, hq_path = path, hq_headers = (\<lambda>_. None), hq_token = [], hq_body = No_Body\<rparr>"

theorem admin_surface_guarded_witness:
  "case serve first_match app_routes offline sampleH sample_admin_env sample_admin_config (json_reply 422 [])
      (sample_get ''/admin/v1/chains/bitcoin/status'') (empty_admin, ()) of
     (a, z) \<Rightarrow> (\<exists>resp. a = Answered resp \<and> 400 \<le> ar_status resp) \<and> z = (empty_admin, ())"
proof -
  have fit: "fits (''/admin/v1/chains/{chain}/status'', GET, Admin Chain_Status) ''/admin/v1/chains/bitcoin/status''"
    by (simp add: fits_def is_param_def)
  have "(''/admin/v1/chains/{chain}/status'', GET, Admin Chain_Status) \<in> set app_routes"
    by (simp add: app_routes_def nest_def route_tables)
  from axum.served [OF app_routes_unambiguous this fit, of GET] obtain ps
    where "first_match app_routes GET ''/admin/v1/chains/bitcoin/status'' = Handler (Admin Chain_Status) ps"
    by (auto simp: answers_def)
  then obtain resp z where s: "serve first_match app_routes offline sampleH sample_admin_env sample_admin_config
      (json_reply 422 []) (sample_get ''/admin/v1/chains/bitcoin/status'') (empty_admin, ()) = (Answered resp, z)"
    by (cases "get_chain_status sample_admin_config (\<lambda>_. None) (param ps) (empty_admin, ())") (simp add: serve_def sample_get_def)
  have "400 \<le> ar_status resp \<and> z = (empty_admin, ())"
    by (rule admin_surface_guarded [OF axum.router_axioms _ _ _ s]) (simp_all add: sample_get_def bearer_token_def)
  with s show ?thesis by simp
qed

text \<open>What the mounted routes allow.  In every history of requests to the router that \<^verbatim>\<open>main\<close> starts, with any methods, paths,
  headers and bodies, no registration ever exists, and every credential carries all scopes and exists only if some request
  was a dual-approved login: the self-service registration and claim cannot be reached.\<close>

theorem mounted_credentials_by_dual_login:
  assumes "router dispatch" and "served_run dispatch app_routes sv H ae cfg rejected es st"
  shows "registrations st = [] \<and> (\<forall>c k. map_of (credentials st) c = Some k \<longrightarrow> cr_scopes k = all_scopes
     \<and> (\<exists>rq \<in> set es. \<exists>req. hq_method rq = POST \<and> hq_path rq = ''/admin/v1/login'' \<and> hq_body rq = Login_Body req
          \<and> dual_approved ae cfg (al_signatures req) (admin_login_message req)))"
  using assms(2)
proof (induction rule: served_run.induct)
  case start
  show ?case by (simp add: empty_admin_def)
next
  case (request es st rq w a st' w')
  show ?case
  proof (rule served_effect [OF assms(1) request.hyps(2)])
    assume "st' = st"
    then show ?thesis using request.IH by auto
  next
    fix req r
    assume at: "hq_method rq = POST" "hq_path rq = ''/admin/v1/login''" "hq_body rq = Login_Body req"
      and l: "login_handler sv ae cfg req (st, w) = (r, (st', w'))"
    show ?thesis using login_effect [OF l] request.IH at by fastforce
  qed
qed

theorem mounted_credentials_by_dual_login_witness:
  "\<exists>st c k. served_run first_match app_routes (offline :: unit services) sampleH sample_admin_env sample_admin_config (json_reply 422 [])
      [\<lparr>hq_method = POST, hq_path = ''/admin/v1/login'', hq_headers = (\<lambda>_. None), hq_token = [], hq_body = Login_Body sample_login\<rparr>] st
     \<and> registrations st = [] \<and> map_of (credentials st) c = Some k \<and> cr_scopes k = all_scopes"
proof -
  let ?rq = "\<lparr>hq_method = POST, hq_path = ''/admin/v1/login'', hq_headers = (\<lambda>_. None), hq_token = [], hq_body = Login_Body sample_login\<rparr>"
  have "(''/admin/v1/login'', POST, Admin Login) \<in> set app_routes" by (simp add: app_routes_def nest_def route_tables)
  from axum.served [OF app_routes_unambiguous this, of "''/admin/v1/login''" POST] obtain ps
    where d: "first_match app_routes POST ''/admin/v1/login'' = Handler (Admin Login) ps"
    by (auto simp: answers_def login_path)
  obtain r st where l: "login_handler offline sample_admin_env sample_admin_config sample_login (empty_admin, ()) = (r, (st, ()))"
    by (metis surj_pair old.unit.exhaust)
  then have "serve first_match app_routes offline sampleH sample_admin_env sample_admin_config (json_reply 422 []) ?rq
      (empty_admin, ()) = (Answered r, (st, ()))" using d by (simp add: serve_def)
  from served_run.request [OF served_run.start this]
  have run: "served_run first_match app_routes (offline :: unit services) sampleH sample_admin_env sample_admin_config (json_reply 422 []) [?rq] st" .
  obtain k where "map_of (credentials st) (fst (issue offline ''nx_key_'' ())) = Some k"
    using l by (auto simp: login_handler_def sample_login_approved empty_admin_def)
  with mounted_credentials_by_dual_login [OF axum.router_axioms run] run show ?thesis by blast
qed

section \<open>The documented interface\<close>

text \<open>Paths of \<^verbatim>\<open>docs/openapi.yaml\<close> that no route of the program has.\<close>

definition documented_only :: "(meth \<times> string) list" where
  "documented_only = [(GET, ''/v1/events''), (GET, ''/v1/metrics''), (GET, ''/metrics''), (POST, ''/v1/verify-state''),
     (POST, ''/v1/execute''), (GET, ''/v1/services'')]"

lemma missing_paths:
  "list_all (\<lambda>path. list_all (\<lambda>r. \<not> fits r path) app_routes) (map snd documented_only @ map fst public_auth_md_routes)"
  by (simp add: app_routes_def nest_def route_tables documented_only_def fits_def is_param_def)

lemma public_fits: "list_all (\<lambda>r. fits r (fst r) \<and> answers r (fst (snd r))) public_auth_md_routes"
  by (simp add: route_tables fits_def is_param_def answers_def)

text \<open>The documents and the routes differ.  The seven routes of agent registration, which the administration guide
  lists and the tests mount, are answered with 404 by the router of the program although their own table serves them; so
  are six paths of the OpenAPI document; and \<^verbatim>\<open>POST /v1/identity/resolve\<close>, which the document describes, is refused with 405
  because the route is registered for GET.\<close>

theorem documented_routes_missing:
  assumes "router dispatch"
  shows "(\<forall>(path, m, e) \<in> set public_auth_md_routes. dispatch app_routes m path = Not_Found
       \<and> (\<exists>ps. dispatch (app_routes @ public_auth_md_routes) m path = Handler e ps))
     \<and> (\<forall>(m, path) \<in> set documented_only. dispatch app_routes m path = Not_Found)
     \<and> dispatch app_routes POST ''/v1/identity/resolve'' = Method_Not_Allowed
     \<and> (\<exists>ps. dispatch app_routes GET ''/v1/identity/resolve'' = Handler Resolve_Identity ps)"
proof (intro conjI)
  have miss: "dispatch app_routes m path = Not_Found" if "path \<in> set (map snd documented_only @ map fst public_auth_md_routes)" for m path
    using router.not_found [OF assms] missing_paths that unfolding list_all_iff by blast
  have "\<exists>ps. dispatch (app_routes @ public_auth_md_routes) (fst (snd r)) (fst r) = Handler (snd (snd r)) ps"
    if "r \<in> set public_auth_md_routes" for r
    using router.served [OF assms with_public_unambiguous, of r] public_fits that unfolding list_all_iff by simp
  with miss show "\<forall>(path, m, e) \<in> set public_auth_md_routes. dispatch app_routes m path = Not_Found
      \<and> (\<exists>ps. dispatch (app_routes @ public_auth_md_routes) m path = Handler e ps)" by force
  show "\<forall>(m, path) \<in> set documented_only. dispatch app_routes m path = Not_Found" using miss by force
  let ?r = "(''/v1/identity/resolve'', GET, Resolve_Identity)"
  have r: "?r \<in> set app_routes" "fits ?r ''/v1/identity/resolve''"
    by (simp_all add: app_routes_def nest_def route_tables fits_def is_param_def)
  then show "\<exists>ps. dispatch app_routes GET ''/v1/identity/resolve'' = Handler Resolve_Identity ps"
    using router.served [OF assms app_routes_unambiguous, of ?r _ GET] by (simp add: answers_def)
  have "list_all (\<lambda>q. fits q ''/v1/identity/resolve'' \<longrightarrow> fst (snd q) = GET) app_routes"
    by (simp add: app_routes_def nest_def route_tables fits_def is_param_def)
  then have "\<forall>q \<in> set app_routes. fits q ''/v1/identity/resolve'' \<longrightarrow> \<not> answers q POST"
    by (auto simp: list_all_iff answers_def)
  then show "dispatch app_routes POST ''/v1/identity/resolve'' = Method_Not_Allowed"
    using router.refused [OF assms r] by blast
qed

theorem documented_routes_missing_witness: "first_match app_routes POST ''/agent/auth'' = Not_Found"
  using documented_routes_missing [OF axum.router_axioms] by (simp add: public_auth_md_routes_def)

end

