(* ===== verification/Tasks.thy ===== *)
theory Tasks
  imports Nexus_Prelude
begin

text \<open>
  Tasks of an asynchronous program.  A handler runs as a sequence of stretches, each up to the next await; between two stretches of one
  task any other task, or the rest of the node, may run.  \<open>task_step\<close> is the step relation of all such programs; the locale says
  when stretches are those of a handler, and what that gives whatever the other tasks do.
\<close>

type_synonym ('st, 's) tasks = "(nat \<Rightarrow> 'st option) \<times> 's"

text \<open>A task arrives in a stage that \<open>start\<close> allows, a task runs one stretch, or something else (\<open>env\<close>) changes the state.\<close>

inductive task_step ::
  "('st \<times> 's \<Rightarrow> 'st \<times> 's) \<Rightarrow> (nat \<Rightarrow> 'st \<Rightarrow> bool) \<Rightarrow> ('s \<Rightarrow> 's \<Rightarrow> bool) \<Rightarrow> ('st, 's) tasks \<Rightarrow> ('st, 's) tasks \<Rightarrow> bool"
  for f start env where
  arrive: "th i = None \<Longrightarrow> start i st \<Longrightarrow> task_step f start env (th, s) (th(i \<mapsto> st), s)"
| run: "th i = Some st \<Longrightarrow> f (st, s) = (st', s') \<Longrightarrow> task_step f start env (th, s) (th(i \<mapsto> st'), s')"
| other: "env s s' \<Longrightarrow> task_step f start env (th, s) (th, s')"

abbreviation task_steps ::
  "('st \<times> 's \<Rightarrow> 'st \<times> 's) \<Rightarrow> (nat \<Rightarrow> 'st \<Rightarrow> bool) \<Rightarrow> ('s \<Rightarrow> 's \<Rightarrow> bool) \<Rightarrow> ('st, 's) tasks \<Rightarrow> ('st, 's) tasks \<Rightarrow> bool" where
  "task_steps f start env \<equiv> (task_step f start env)\<^sup>*\<^sup>*"

text \<open>Invariants of single steps hold along runs.\<close>

lemma task_steps_inv:
  assumes "task_steps f start env (th, s) (th', s')" and "P th s"
    and "\<And>th s th' s'. task_step f start env (th, s) (th', s') \<Longrightarrow> P th s \<Longrightarrow> P th' s'"
  shows "P th' s'"
  using assms(1)
proof (induction "(th', s')" arbitrary: th' s' rule: rtranclp_induct)
  case base
  then show ?case using assms(2) by simp
next
  case (step y)
  obtain th1 s1 where "y = (th1, s1)" by fastforce
  then show ?case using step.hyps assms(3) by blast
qed

text \<open>A task that runs undisturbed.\<close>

lemma task_alone:
  assumes "(f ^^ n) (st, s) = (st', s')" and "th i = Some st"
  shows "task_steps f start env (th, s) (th(i \<mapsto> st'), s')"
  using assms
proof (induction n arbitrary: st s th)
  case 0
  then have "th(i \<mapsto> st') = th" by auto
  then show ?case using 0 by simp
next
  case (Suc n)
  obtain st1 s1 where 1: "f (st, s) = (st1, s1)" by fastforce
  then have "(f ^^ n) (st1, s1) = (st', s')" using Suc.prems(1) by (simp add: funpow_swap1)
  then have "task_steps f start env (th(i \<mapsto> st1), s1) (th(i \<mapsto> st'), s')" using Suc.IH [of st1 s1 "th(i \<mapsto> st1)"]
    by (simp only: fun_upd_upd fun_upd_same)
  moreover have "task_step f start env (th, s) (th(i \<mapsto> st1), s1)" by (rule task_step.run [of _ _ st]) (use Suc.prems 1 in auto)
  ultimately show ?case by (rule converse_rtranclp_into_rtranclp [rotated])
qed

text \<open>Stretches of a handler: run alone, at most \<open>k\<close> of them compute its answer and its effect, and an answered task is done.\<close>

locale handler_stretches =
  fixes stretch :: "'st \<times> 's \<Rightarrow> 'st \<times> 's" and entry :: "'req \<Rightarrow> 'st" and answer :: "'st \<Rightarrow> 'r option"
    and handler :: "'req \<Rightarrow> 's \<Rightarrow> 'r \<times> 's" and k :: nat
  assumes whole: "\<exists>st. (stretch ^^ k) (entry req, s) = (st, snd (handler req s)) \<and> answer st = Some (fst (handler req s))"
    and settled: "answer st \<noteq> None \<Longrightarrow> stretch (st, s) = (st, s)"
begin

lemma settled_pow: "answer st \<noteq> None \<Longrightarrow> (stretch ^^ n) (st, s) = (st, s)"
  by (induction n) (simp_all add: settled)

text \<open>More stretches than needed change nothing, so every number from \<open>k\<close> on will do.\<close>

lemma whole_ge:
  assumes "k \<le> n"
  shows "\<exists>st. (stretch ^^ n) (entry req, s) = (st, snd (handler req s)) \<and> answer st = Some (fst (handler req s))"
proof -
  obtain st where st: "(stretch ^^ k) (entry req, s) = (st, snd (handler req s))" "answer st = Some (fst (handler req s))"
    using whole by blast
  have "stretch ^^ n = (stretch ^^ (n - k)) \<circ> (stretch ^^ k)" using assms by (simp flip: funpow_add)
  then show ?thesis using st settled_pow [of st] by simp
qed

text \<open>A request that finds the program alone is answered as the handler answers it.\<close>

lemma request_alone:
  assumes "th i = None" and "start i (entry req)"
  shows "\<exists>st. task_steps stretch start env (th, s) (th(i \<mapsto> st), snd (handler req s)) \<and> answer st = Some (fst (handler req s))"
proof -
  obtain st where st: "(stretch ^^ k) (entry req, s) = (st, snd (handler req s))" "answer st = Some (fst (handler req s))"
    using whole by blast
  have "task_steps stretch start env (th(i \<mapsto> entry req), s) (th(i \<mapsto> entry req, i \<mapsto> st), snd (handler req s))"
    by (rule task_alone [OF st(1)]) simp
  moreover have "task_step stretch start env (th, s) (th(i \<mapsto> entry req), s)" using assms by (rule task_step.arrive)
  ultimately have "task_steps stretch start env (th, s) (th(i \<mapsto> entry req, i \<mapsto> st), snd (handler req s))"
    by (rule converse_rtranclp_into_rtranclp [rotated])
  then show ?thesis using st(2) by (auto simp only: fun_upd_upd)
qed

text \<open>Whatever happens afterwards, an answer stays.\<close>

lemma answer_stays:
  assumes "task_steps stretch start env (th, s) (th', s')" and "th i = Some st" and "answer st \<noteq> None"
  shows "th' i = Some st"
  using assms(1,2)
proof (rule task_steps_inv)
  fix th s th' s'
  assume "task_step stretch start env (th, s) (th', s')" and "th i = Some st"
  then show "th' i = Some st" by cases (use settled [OF assms(3)] in \<open>auto split: if_splits\<close>)
qed

end

end
