(* ===== verification/Executor_Runs.thy ===== *)
theory Executor_Runs
  imports Executor Tasks
begin

text \<open>
  Concurrent submissions to the executor.  Every request runs \<^verbatim>\<open>NexusExecutor::submit\<close> on its own task; between two awaits, and
  around the mutex of the cache, other tasks and the heartbeat may run.  \<open>advance\<close> is one such stretch; run alone, the
  stretches compose to \<open>submit\<close>.
\<close>

section \<open>Stretches of a submission\<close>

datatype stage =
    Waiting ExecutionRequest
  | Checked ExecutionRequest
  | Fetching ExecutionRequest
  | Fetched ExecutionRequest "time option"
  | Timed ExecutionRequest "time option"
  | Finished "string + string"

definition audit_row :: "hasher \<Rightarrow> ExecutionRequest \<Rightarrow> sql_write" where
  "audit_row H r = InsertAuditLog (tx_id r) (hex_encode (H (as_bytes (payload r)))) (sender r) (req_timestamp r) (payload r) (priority r)"

fun advance :: "'w services \<Rightarrow> hasher \<Rightarrow> stage \<times> NexusExecutor \<times> 'w \<Rightarrow> stage \<times> NexusExecutor \<times> 'w" where
  "advance sv H (Waiting r, ex, w) =
     (case check_safety_mode sv w of (Inl e, w') \<Rightarrow> (Finished (Inl e), ex, w') | (Inr _, w') \<Rightarrow> (Checked r, ex, w'))"
| "advance sv H (Checked r, ex, w) =
     (case latest_event_time_cache ex of Some t \<Rightarrow> (Timed r (Some t), ex, w) | None \<Rightarrow> (Fetching r, ex, w))"
| "advance sv H (Fetching r, ex, w) =
     (case pg_max_arrival sv w of
        (Inl e, w') \<Rightarrow> (Finished (Inl e), ex, w')
      | (Inr None, w') \<Rightarrow> (Finished (Inl ''no rows returned by a query that expected to return at least one row''), ex, w')
      | (Inr (Some latest), w') \<Rightarrow> (Fetched r latest, ex, w'))"
| "advance sv H (Fetched r latest, ex, w) =
     (Timed r latest, (case latest of None \<Rightarrow> ex | Some t \<Rightarrow> ex\<lparr>latest_event_time_cache := Some t\<rparr>), w)"
| "advance sv H (Timed r latest, ex, w) =
     (if (case latest of Some t \<Rightarrow> req_timestamp r \<le> t | None \<Rightarrow> False)
      then (Finished (Inl ''Transaction validation failed''), ex, w)
      else (case pg_execute sv (audit_row H r) w of
              (Inl e, w') \<Rightarrow> (Finished (Inl e), ex, w')
            | (Inr _, w') \<Rightarrow> (Finished (Inr (tx_id r)), ex, w')))"
| "advance sv H (Finished res, ex, w) = (Finished res, ex, w)"

section \<open>Interleavings\<close>

type_synonym 'w exec_state = "(stage, NexusExecutor \<times> 'w) tasks"

text \<open>The tasks of the submissions, task \<open>i\<close> with request \<open>reqs i\<close>; another component (\<open>env\<close>) changes the world.\<close>

abbreviation exec_step ::
  "'w services \<Rightarrow> hasher \<Rightarrow> ('w \<Rightarrow> 'w \<Rightarrow> bool) \<Rightarrow> (nat \<Rightarrow> ExecutionRequest) \<Rightarrow> 'w exec_state \<Rightarrow> 'w exec_state \<Rightarrow> bool" where
  "exec_step sv H env reqs \<equiv>
     task_step (advance sv H) (\<lambda>i st. st = Waiting (reqs i)) (\<lambda>s s'. fst s' = fst s \<and> env (snd s) (snd s'))"

abbreviation exec_steps ::
  "'w services \<Rightarrow> hasher \<Rightarrow> ('w \<Rightarrow> 'w \<Rightarrow> bool) \<Rightarrow> (nat \<Rightarrow> ExecutionRequest) \<Rightarrow> 'w exec_state \<Rightarrow> 'w exec_state \<Rightarrow> bool" where
  "exec_steps sv H env reqs \<equiv> (exec_step sv H env reqs)\<^sup>*\<^sup>*"

fun past_check :: "stage \<Rightarrow> bool" where
  "past_check (Waiting _) = False" | "past_check (Finished _) = False" | "past_check _ = True"

definition in_flight :: "(nat \<Rightarrow> stage option) \<Rightarrow> nat set" where
  "in_flight th = {i. \<exists>st. th i = Some st \<and> past_check st}"

fun request_of :: "stage \<Rightarrow> ExecutionRequest option" where
  "request_of (Waiting r) = Some r" | "request_of (Checked r) = Some r" | "request_of (Fetching r) = Some r"
| "request_of (Fetched r _) = Some r" | "request_of (Timed r _) = Some r" | "request_of (Finished _) = None"

definition of_requests :: "(nat \<Rightarrow> ExecutionRequest) \<Rightarrow> (nat \<Rightarrow> stage option) \<Rightarrow> bool" where
  "of_requests reqs th \<longleftrightarrow> (\<forall>i st r. th i = Some st \<and> request_of st = Some r \<longrightarrow> r = reqs i)"

fun accepted_stage :: "stage \<Rightarrow> bool" where
  "accepted_stage (Finished (Inr _)) = True" | "accepted_stage _ = False"

definition accepted_tasks :: "(nat \<Rightarrow> stage option) \<Rightarrow> nat set" where
  "accepted_tasks th = {i. \<exists>st. th i = Some st \<and> accepted_stage st}"

text \<open>The rows of the audit table and their identifiers.\<close>

definition audit_table :: "sql_write list \<Rightarrow> sql_write list" where
  "audit_table qs = filter (\<lambda>q. case q of InsertAuditLog _ _ _ _ _ _ \<Rightarrow> True | _ \<Rightarrow> False) qs"

definition audit_ids :: "sql_write list \<Rightarrow> string list" where
  "audit_ids qs = List.map_filter (\<lambda>q. case q of InsertAuditLog t _ _ _ _ _ \<Rightarrow> Some t | _ \<Rightarrow> None) qs"

text \<open>The identifier is the primary key of the table: a second row with the same one is refused.\<close>

definition audit_keyed :: "'w services \<Rightarrow> ('w \<Rightarrow> sql_write list) \<Rightarrow> bool" where
  "audit_keyed sv wlog \<longleftrightarrow> (\<forall>t h s a p n w w'. pg_execute sv (InsertAuditLog t h s a p n) w = (Inr (), w') \<longrightarrow> t \<notin> set (audit_ids (wlog w)))"

text \<open>The other components leave the audit table alone; they keep the mode raised; Postgres and Redis are different stores.\<close>

definition leaves_audit :: "('w \<Rightarrow> 'w \<Rightarrow> bool) \<Rightarrow> ('w \<Rightarrow> sql_write list) \<Rightarrow> bool" where
  "leaves_audit env wlog \<longleftrightarrow> (\<forall>w w'. env w w' \<longrightarrow> audit_table (wlog w') = audit_table (wlog w))"

definition keeps_raised :: "('w \<Rightarrow> 'w \<Rightarrow> bool) \<Rightarrow> ('w \<Rightarrow> string \<Rightarrow> string option) \<Rightarrow> bool" where
  "keeps_raised env val \<longleftrightarrow> (\<forall>w w'. env w w' \<and> val w mode_key = Some ''1'' \<longrightarrow> val w' mode_key = Some ''1'')"

definition separate_stores :: "'w services \<Rightarrow> ('w \<Rightarrow> string \<Rightarrow> string option) \<Rightarrow> bool" where
  "separate_stores sv val \<longleftrightarrow>
     (\<forall>q w. val (snd (pg_execute sv q w)) = val w) \<and> (\<forall>w. val (snd (pg_max_arrival sv w)) = val w)"

text \<open>Task \<open>i\<close> passes its check somewhere between two states although the mode is raised, because its read of the flag fails.\<close>

definition let_through ::
  "'w services \<Rightarrow> hasher \<Rightarrow> ('w \<Rightarrow> 'w \<Rightarrow> bool) \<Rightarrow> (nat \<Rightarrow> ExecutionRequest) \<Rightarrow> ('w \<Rightarrow> string \<Rightarrow> string option)
     \<Rightarrow> nat \<Rightarrow> 'w exec_state \<Rightarrow> 'w exec_state \<Rightarrow> bool" where
  "let_through sv H env reqs val i s s' \<longleftrightarrow>
     (\<exists>th ex w r w'. exec_steps sv H env reqs s (th, ex, w) \<and> th i = Some (Waiting r)
        \<and> val w mode_key = Some ''1'' \<and> flag_read_fails sv w \<and> advance sv H (Waiting r, ex, w) = (Checked r, ex, w')
        \<and> exec_steps sv H env reqs (th(i \<mapsto> Checked r), ex, w') s')"

section \<open>Lemmas\<close>

lemma audit_ids_table: "audit_ids (audit_table qs) = audit_ids qs"
  by (induction qs) (auto simp: audit_ids_def audit_table_def map_filter_simps split: sql_write.splits)

lemma audit_table_row [simp]: "audit_table (qs @ [audit_row H r]) = audit_table qs @ [audit_row H r]"
  by (simp add: audit_table_def audit_row_def)

lemma audit_ids_rows: "audit_ids (map (\<lambda>i. audit_row H (reqs i)) ids) = map (\<lambda>i. tx_id (reqs i)) ids"
  by (induction ids) (simp_all add: audit_ids_def audit_row_def map_filter_simps)

lemma audit_ids_append: "audit_ids (xs @ ys) = audit_ids xs @ audit_ids ys"
  by (simp add: audit_ids_def List.map_filter_def)

text \<open>One stretch: a row is added exactly when the task becomes accepted, and it is the row of its request.\<close>

lemma advance_audit:
  assumes "pg_logs sv wlog" and "advance sv H (st, ex, w) = (st', ex', w')"
  shows "accepted_stage st \<and> st' = st \<and> audit_table (wlog w') = audit_table (wlog w)
    \<or> \<not> accepted_stage st \<and> \<not> accepted_stage st' \<and> audit_table (wlog w') = audit_table (wlog w) \<and> request_of st' \<in> {None, request_of st}
    \<or> \<not> accepted_stage st \<and> (\<exists>r. request_of st = Some r \<and> st' = Finished (Inr (tx_id r))
         \<and> pg_execute sv (audit_row H r) w = (Inr (), w') \<and> audit_table (wlog w') = audit_table (wlog w) @ [audit_row H r])"
proof (cases st)
  case (Waiting r)
  obtain c v where c: "check_safety_mode sv w = (c, v)" by fastforce
  show ?thesis using assms(2) Waiting c check_keeps [OF c assms(1)] by (cases c) auto
next
  case (Fetching r)
  obtain m v where m: "pg_max_arrival sv w = (m, v)" by fastforce
  show ?thesis
    using assms(2) Fetching m log_keptD [OF pg_logs_kept(4) [OF assms(1)] m] by (auto split: sum.splits option.splits)
next
  case (Timed r latest)
  obtain q v where x: "pg_execute sv (audit_row H r) w = (q, v)" by fastforce
  show ?thesis
    using assms(2) Timed x pg_logs_execute [OF assms(1) x] by (cases q) (auto split: if_splits option.splits)
next
  case (Finished res)
  then show ?thesis using assms(2) by (cases res) auto
qed (use assms(2) in \<open>auto split: option.splits\<close>)

text \<open>Whatever the interleaving, the new rows are those of the newly accepted tasks, one each, in the order of their INSERTs.\<close>

definition rows_of_accepted ::
  "hasher \<Rightarrow> (nat \<Rightarrow> ExecutionRequest) \<Rightarrow> (nat \<Rightarrow> stage option) \<Rightarrow> (nat \<Rightarrow> stage option) \<Rightarrow> sql_write list \<Rightarrow> sql_write list \<Rightarrow> nat list \<Rightarrow> bool" where
  "rows_of_accepted H reqs th th' before after ids \<longleftrightarrow>
     distinct ids \<and> set ids = accepted_tasks th' - accepted_tasks th
     \<and> (\<forall>i \<in> set ids. th' i = Some (Finished (Inr (tx_id (reqs i)))))
     \<and> audit_table after = audit_table before @ map (\<lambda>i. audit_row H (reqs i)) ids"

lemma accounting_step:
  assumes "pg_logs sv wlog" and "leaves_audit env wlog" and "exec_step sv H env reqs (th1, ex1, w1) (th2, ex2, w2)"
    and "rows_of_accepted H reqs th th1 before (wlog w1) ids" and "of_requests reqs th1" and "accepted_tasks th \<subseteq> accepted_tasks th1"
  shows "(\<exists>ids. rows_of_accepted H reqs th th2 before (wlog w2) ids) \<and> of_requests reqs th2 \<and> accepted_tasks th \<subseteq> accepted_tasks th2"
  using assms(3)
proof cases
  case (arrive i st)
  then have "accepted_tasks th2 = accepted_tasks th1" by (auto simp: accepted_tasks_def)
  moreover have "th2 j = th1 j" if "j \<in> accepted_tasks th1" for j using that arrive by (auto simp: accepted_tasks_def)
  ultimately show ?thesis using assms(4-6) arrive by (auto simp: rows_of_accepted_def of_requests_def)
next
  case (run i st st')
  consider "st' = st" "audit_table (wlog w2) = audit_table (wlog w1)"
    | "\<not> accepted_stage st" "\<not> accepted_stage st'" "audit_table (wlog w2) = audit_table (wlog w1)" "request_of st' \<in> {None, request_of st}"
    | r where "\<not> accepted_stage st" "request_of st = Some r" "st' = Finished (Inr (tx_id r))"
        "audit_table (wlog w2) = audit_table (wlog w1) @ [audit_row H r]"
    using advance_audit [OF assms(1) run(3)] by blast
  then show ?thesis
  proof cases
    case 1
    then have "th2 = th1" using run by auto
    then show ?thesis using assms(4-6) 1 by (auto simp: rows_of_accepted_def)
  next
    case 2
    then have a: "accepted_tasks th2 = accepted_tasks th1" using run by (auto simp: accepted_tasks_def)
    have "th2 j = th1 j" if "j \<in> accepted_tasks th1" for j using that run 2 by (auto simp: accepted_tasks_def)
    moreover have "of_requests reqs th2" using assms(5) run 2 by (auto simp: of_requests_def split: if_splits)
    ultimately show ?thesis using assms(4,6) 2 a by (auto simp: rows_of_accepted_def)
  next
    case 3
    have r: "r = reqs i" using assms(5) run 3 by (auto simp: of_requests_def)
    have i: "i \<notin> accepted_tasks th1" using run 3 by (simp add: accepted_tasks_def)
    have a: "accepted_tasks th2 = insert i (accepted_tasks th1)" using run 3 by (auto simp: accepted_tasks_def)
    have "rows_of_accepted H reqs th th2 before (wlog w2) (ids @ [i])"
      using assms(4,6) i a run 3 r by (auto simp: rows_of_accepted_def)
    moreover have "of_requests reqs th2" using assms(5) run 3 by (auto simp: of_requests_def split: if_splits)
    ultimately show ?thesis using assms(6) a by blast
  qed
next
  case other
  then have "audit_table (wlog w2) = audit_table (wlog w1)" using assms(2) by (simp add: leaves_audit_def)
  then show ?thesis using other assms(4-6) by (auto simp: rows_of_accepted_def)
qed

lemma accounting:
  assumes "pg_logs sv wlog" and "leaves_audit env wlog" and "of_requests reqs th"
    and "exec_steps sv H env reqs (th, ex, w) (th', ex', w')"
  shows "\<exists>ids. rows_of_accepted H reqs th th' (wlog w) (wlog w') ids"
proof -
  define inv where "inv = (\<lambda>th' (ex' :: NexusExecutor, w'). (\<exists>ids. rows_of_accepted H reqs th th' (wlog w) (wlog w') ids)
    \<and> of_requests reqs th' \<and> accepted_tasks th \<subseteq> accepted_tasks th')"
  have "inv th' (ex', w')"
    using assms(4)
  proof (rule task_steps_inv)
    have "rows_of_accepted H reqs th th (wlog w) (wlog w) []" by (simp add: rows_of_accepted_def)
    then show "inv th (ex, w)" using assms(3) by (auto simp: inv_def)
  next
    fix th1 th2 :: "nat \<Rightarrow> stage option" and y z :: "NexusExecutor \<times> 'a"
    assume step: "exec_step sv H env reqs (th1, y) (th2, z)" and i1: "inv th1 y"
    obtain ex1 w1 ex2 w2 where yz: "y = (ex1, w1)" "z = (ex2, w2)" by fastforce
    from i1 obtain ids where "rows_of_accepted H reqs th th1 (wlog w) (wlog w1) ids" "of_requests reqs th1"
      "accepted_tasks th \<subseteq> accepted_tasks th1" by (auto simp: inv_def yz)
    from accounting_step [OF assms(1,2) step [unfolded yz] this] show "inv th2 z" by (simp add: inv_def yz)
  qed
  then show ?thesis by (simp add: inv_def)
qed

lemma keyed_run:
  assumes "pg_logs sv wlog" and "audit_keyed sv wlog" and "leaves_audit env wlog"
    and "exec_steps sv H env reqs (th, ex, w) (th', ex', w')" and "distinct (audit_ids (wlog w))"
  shows "distinct (audit_ids (wlog w'))"
proof -
  define inv where "inv = (\<lambda>(_ :: nat \<Rightarrow> stage option) (_ :: NexusExecutor, w'). distinct (audit_ids (wlog w')))"
  have "inv th' (ex', w')"
    using assms(4)
  proof (rule task_steps_inv)
    show "inv th (ex, w)" using assms(5) by (simp add: inv_def)
  next
    fix th1 th2 :: "nat \<Rightarrow> stage option" and y z :: "NexusExecutor \<times> 'a"
    assume step: "exec_step sv H env reqs (th1, y) (th2, z)" and i1: "inv th1 y"
    obtain ex1 w1 ex2 w2 where yz: "y = (ex1, w1)" "z = (ex2, w2)" by fastforce
    have d: "distinct (audit_ids (wlog w1))" using i1 by (simp add: inv_def yz)
    have "audit_table (wlog w2) = audit_table (wlog w1)
      \<or> (\<exists>r. pg_execute sv (audit_row H r) w1 = (Inr (), w2) \<and> audit_table (wlog w2) = audit_table (wlog w1) @ [audit_row H r])"
      using step unfolding yz
    proof cases
      case (run i st st')
      then show ?thesis using advance_audit [OF assms(1) run(3)] by blast
    qed (use assms(3) in \<open>auto simp: leaves_audit_def\<close>)
    then consider "audit_table (wlog w2) = audit_table (wlog w1)"
      | r where "pg_execute sv (audit_row H r) w1 = (Inr (), w2)" "audit_table (wlog w2) = audit_table (wlog w1) @ [audit_row H r]"
      by blast
    then have "distinct (audit_ids (wlog w2))"
    proof cases
      case 1
      then show ?thesis using d by (metis audit_ids_table)
    next
      case 2
      then have "tx_id r \<notin> set (audit_ids (wlog w1))" using assms(2) unfolding audit_keyed_def audit_row_def by blast
      moreover have "audit_ids (wlog w2) = audit_ids (wlog w1) @ audit_ids [audit_row H r]"
        using 2(2) by (metis audit_ids_append audit_ids_table)
      ultimately show ?thesis using d audit_ids_rows [of H "\<lambda>_. r" "[()]"] by simp
    qed
    then show "inv th2 z" by (simp add: inv_def yz)
  qed
  then show ?thesis by (simp add: inv_def)
qed

section \<open>Properties\<close>

text \<open>The stretches are the function.  Five stretches of one task with nothing in between compute exactly what
  \<open>submit\<close> computes: the same result, the same cache and the same world.\<close>

theorem submit_stretches:
  "(advance sv H ^^ 5) (Waiting r, s) = (Finished (fst (submit sv H r s)), snd (submit sv H r s))"
proof -
  obtain ex w where s: "s = (ex, w)" by fastforce
  have five: "(advance sv H ^^ 5) x = advance sv H (advance sv H (advance sv H (advance sv H (advance sv H x))))" for x
    by (simp add: numeral_eq_Suc)
  show ?thesis
    unfolding five s
    by (auto simp: submit_def validate_transaction_def get_cached_or_fetch_latest_event_time_def io_try_def on_world_def audit_row_def
        split: prod.splits sum.splits option.splits if_splits)
qed

fun stage_answer :: "stage \<Rightarrow> (string + string) option" where
  "stage_answer (Finished res) = Some res" | "stage_answer _ = None"

interpretation submission: handler_stretches "advance sv H" Waiting stage_answer "submit sv H" 5 for sv H
proof
  show "\<exists>st. (advance sv H ^^ 5) (Waiting r, s) = (st, snd (submit sv H r s)) \<and> stage_answer st = Some (fst (submit sv H r s))" for r s
    by (simp add: submit_stretches)
  show "stage_answer st \<noteq> None \<Longrightarrow> advance sv H (st, s) = (st, s)" for st s by (cases st; cases s) simp_all
qed

section \<open>The handoff\<close>

lemma advance_raised:
  assumes "redis_store sv val" and "separate_stores sv val" and "val w mode_key = Some ''1''"
    and "advance sv H (st, ex, w) = (st', ex', w')"
  shows "val w' = val w \<and> (past_check st' \<or> accepted_stage st' \<longrightarrow> past_check st \<or> accepted_stage st
    \<or> (\<exists>r. st = Waiting r \<and> st' = Checked r \<and> ex' = ex \<and> flag_read_fails sv w))"
proof (cases st)
  case (Waiting r)
  obtain a v where a: "is_safety_mode_active sv w = (a, v)" by fastforce
  have "val v = val w" by (rule active_keeps [OF assms(1) a])
  moreover have "a = Inr False \<Longrightarrow> flag_read_fails sv w"
    using raised_read [of sv val w v] assms(1,3) a by simp
  ultimately show ?thesis
    using assms(4) Waiting a by (cases a) (auto simp: check_safety_mode_def split: if_splits)
next
  case (Fetching r)
  obtain m v where m: "pg_max_arrival sv w = (m, v)" by fastforce
  have "val v = val w" using assms(2) m unfolding separate_stores_def by (metis snd_conv)
  then show ?thesis using assms(4) Fetching m by (auto split: sum.splits option.splits)
next
  case (Timed r latest)
  obtain q v where x: "pg_execute sv (audit_row H r) w = (q, v)" by fastforce
  have "val v = val w" using assms(2) x unfolding separate_stores_def by (metis snd_conv)
  then show ?thesis using assms(4) Timed x by (auto split: sum.splits if_splits option.splits)
qed (use assms(4) in \<open>auto split: option.splits\<close>)

lemma let_through_step:
  assumes "let_through sv H env reqs val i s s'" and "exec_step sv H env reqs s' s''"
  shows "let_through sv H env reqs val i s s''"
  using assms unfolding let_through_def by (meson rtranclp.rtrancl_into_rtrancl)

text \<open>While the mode is raised, one step brings a task past its check only through a read of the flag that fails.\<close>

lemma raised_step:
  assumes "redis_store sv val" and "separate_stores sv val" and "keeps_raised env val" and "val w mode_key = Some ''1''"
    and "exec_step sv H env reqs (th, ex, w) (th', ex', w')"
  shows "val w' mode_key = Some ''1''
    \<and> (i \<in> in_flight th' \<union> accepted_tasks th' \<longrightarrow> i \<in> in_flight th \<union> accepted_tasks th
       \<or> let_through sv H env reqs val i (th, ex, w) (th', ex', w'))"
  using assms(5)
proof cases
  case (arrive j st)
  then show ?thesis using assms(4) by (auto simp: in_flight_def accepted_tasks_def)
next
  case (run j st st')
  note a = advance_raised [OF assms(1,2,4) run(3)]
  show ?thesis
  proof (cases "i = j \<and> (\<exists>r. st = Waiting r \<and> st' = Checked r \<and> ex' = ex \<and> flag_read_fails sv w)")
    case True
    then obtain r where "i = j" "st = Waiting r" "st' = Checked r" "ex' = ex" "flag_read_fails sv w" by blast
    then have "let_through sv H env reqs val i (th, ex, w) (th', ex', w')"
      unfolding let_through_def using run assms(4)
      by (intro exI [of _ th] exI [of _ ex] exI [of _ w] exI [of _ r] exI [of _ w']) simp
    then show ?thesis using a assms(4) by simp
  next
    case False
    then show ?thesis using a run assms(4) by (auto simp: in_flight_def accepted_tasks_def split: if_splits)
  qed
next
  case other
  then show ?thesis using assms(3,4) unfolding keeps_raised_def by auto
qed

lemma let_through_later:
  "exec_steps sv H env reqs s s' \<Longrightarrow> let_through sv H env reqs val i s' s'' \<Longrightarrow> let_through sv H env reqs val i s s''"
  unfolding let_through_def by (meson rtranclp_trans)

lemma raised_run:
  assumes "redis_store sv val" and "separate_stores sv val" and "keeps_raised env val" and "val w mode_key = Some ''1''"
    and "exec_steps sv H env reqs (th, ex, w) (th', ex', w')" and "i \<in> in_flight th' \<union> accepted_tasks th'"
  shows "i \<in> in_flight th \<union> accepted_tasks th \<or> let_through sv H env reqs val i (th, ex, w) (th', ex', w')"
proof -
  define inv where "inv = (\<lambda>th' (ex' :: NexusExecutor, w'). val w' mode_key = Some ''1''
    \<and> exec_steps sv H env reqs (th, ex, w) (th', ex', w')
    \<and> (i \<in> in_flight th' \<union> accepted_tasks th' \<longrightarrow>
         i \<in> in_flight th \<union> accepted_tasks th \<or> let_through sv H env reqs val i (th, ex, w) (th', ex', w')))"
  have "inv th' (ex', w')"
    using assms(5)
  proof (rule task_steps_inv)
    show "inv th (ex, w)" using assms(4) by (simp add: inv_def)
  next
    fix th1 th2 :: "nat \<Rightarrow> stage option" and y z :: "NexusExecutor \<times> 'a"
    assume step: "exec_step sv H env reqs (th1, y) (th2, z)" and i1: "inv th1 y"
    obtain ex1 w1 ex2 w2 where yz: "y = (ex1, w1)" "z = (ex2, w2)" by fastforce
    from i1 have v1: "val w1 mode_key = Some ''1''" and s1: "exec_steps sv H env reqs (th, ex, w) (th1, ex1, w1)"
      and old: "i \<in> in_flight th1 \<union> accepted_tasks th1 \<Longrightarrow>
         i \<in> in_flight th \<union> accepted_tasks th \<or> let_through sv H env reqs val i (th, ex, w) (th1, ex1, w1)"
      unfolding inv_def yz prod.case by blast+
    note new = raised_step [OF assms(1-3) v1 step [unfolded yz], of i]
    have "exec_steps sv H env reqs (th, ex, w) (th2, ex2, w2)"
      using s1 step unfolding yz by (rule rtranclp.rtrancl_into_rtrancl)
    then show "inv th2 z"
      using new old let_through_step [OF _ step [unfolded yz], of val i] let_through_later [OF s1, of val i]
      unfolding inv_def yz prod.case by blast
  qed
  then show ?thesis using assms(6) unfolding inv_def prod.case by blast
qed

text \<open>C4: The handoff bounds the writes.  From a state in which the safety mode is raised, as long as no other component clears it
  or writes to the audit table, however submissions arrive and interleave: the rows added to the audit table are exactly those
  of the newly accepted tasks, one each, and every newly accepted task had either passed its check before or passed it by a
  read of the flag that failed, which the code takes for an absent flag.  While no such read fails, the rows are at most as
  many as the tasks that were past their check when the mode was raised.\<close>

theorem handoff_bounds_writes:
  assumes "redis_store sv val" and "pg_logs sv wlog" and "separate_stores sv val" and "keeps_raised env val" and "leaves_audit env wlog"
    and "val w mode_key = Some ''1''" and "of_requests reqs th" and "finite (in_flight th)"
    and "exec_steps sv H env reqs (th, ex, w) (th', ex', w')"
  shows "\<exists>ids. distinct ids \<and> set ids = accepted_tasks th' - accepted_tasks th
     \<and> audit_table (wlog w') = audit_table (wlog w) @ map (\<lambda>i. audit_row H (reqs i)) ids
     \<and> (\<forall>i \<in> set ids. i \<in> in_flight th \<or> let_through sv H env reqs val i (th, ex, w) (th', ex', w'))
     \<and> ((\<forall>w. val w mode_key = Some ''1'' \<longrightarrow> \<not> flag_read_fails sv w) \<longrightarrow> length ids \<le> card (in_flight th))"
proof -
  obtain ids where ids: "distinct ids" "set ids = accepted_tasks th' - accepted_tasks th"
    "audit_table (wlog w') = audit_table (wlog w) @ map (\<lambda>i. audit_row H (reqs i)) ids"
    using accounting [OF assms(2,5,7,9)] unfolding rows_of_accepted_def by blast
  have who: "\<forall>i \<in> set ids. i \<in> in_flight th \<or> let_through sv H env reqs val i (th, ex, w) (th', ex', w')"
    using raised_run [OF assms(1,3,4,6,9)] ids(2) by blast
  have "length ids \<le> card (in_flight th)" if "\<forall>w. val w mode_key = Some ''1'' \<longrightarrow> \<not> flag_read_fails sv w"
  proof -
    have "set ids \<subseteq> in_flight th" using who that unfolding let_through_def by blast
    then show ?thesis using card_mono [OF assms(8)] distinct_card [OF ids(1)] by metis
  qed
  with ids who show ?thesis by blast
qed

definition handed_off :: "sql_write list services" where
  "handed_off = recording\<lparr>redis_connect := io_ok (), redis_bool := (\<lambda>_. io_ok True)\<rparr>"

text \<open>The bound is reached: a task that passed its check before the handoff still writes its row.\<close>

theorem handoff_bounds_writes_witness:
  "\<exists>th' ex' w'. exec_steps handed_off sampleH (\<lambda>_ _. False) (\<lambda>_. sample_request)
       ([0 \<mapsto> Timed sample_request None, 2 \<mapsto> Waiting sample_request], executor_new Active [], []) (th', ex', w')
     \<and> accepted_tasks th' = {0} \<and> audit_table w' = [audit_row sampleH sample_request]"
proof -
  define th where "th = ([0 \<mapsto> Timed sample_request None, 2 \<mapsto> Waiting sample_request] :: nat \<Rightarrow> stage option)"
  define th1 where "th1 = th(0 \<mapsto> Finished (Inr (tx_id sample_request)))"
  let ?ex = "executor_new Active []" and ?row = "audit_row sampleH sample_request" and ?reqs = "\<lambda>_ :: nat. sample_request"
  have "exec_step handed_off sampleH (\<lambda>_ _. False) ?reqs (th, ?ex, []) (th1, ?ex, [?row])"
    unfolding th1_def by (rule task_step.run [of _ _ "Timed sample_request None"]) (simp_all add: th_def handed_off_def recording_def)
  then have s: "exec_steps handed_off sampleH (\<lambda>_ _. False) ?reqs (th, ?ex, []) (th1, ?ex, [?row])" by (rule r_into_rtranclp)
  have fl: "in_flight th = {0}" by (auto simp: th_def in_flight_def split: if_splits)
  have acc: "accepted_tasks th1 = {0}" "accepted_tasks th = {}" by (auto simp: th_def th1_def accepted_tasks_def split: if_splits)
  have rs: "redis_store handed_off (\<lambda>_ _. Some ''1'')"
    by (simp add: redis_store_def handed_off_def recording_def offline_def)
  have pl: "pg_logs handed_off (\<lambda>w. w)"
    by (simp add: pg_logs_def log_kept_def handed_off_def recording_def offline_def)
  have rq: "of_requests ?reqs th" by (auto simp: th_def of_requests_def split: if_splits)
  obtain ids where "distinct ids" "set ids = {0 :: nat}" "audit_table [?row] = audit_table [] @ map (\<lambda>i. ?row) ids"
    using handoff_bounds_writes [of handed_off "\<lambda>_ _. Some ''1''" "\<lambda>w. w" "\<lambda>_ _. False" "[]" ?reqs th sampleH ?ex th1 ?ex "[?row]"]
      rs pl rq s fl acc by (simp add: separate_stores_def keeps_raised_def leaves_audit_def) blast
  moreover from this have "length ids = 1" using distinct_card [of ids] by simp
  ultimately have "audit_table [?row] = [?row]" by (cases ids) (auto simp: audit_table_def)
  with s acc(1) show ?thesis unfolding th_def by blast
qed

section \<open>The audit table\<close>

text \<open>C5: Every accepted submission is audited, exactly once.  However submissions arrive and interleave, over a database whose
  statements may fail and whose audit table has the transaction identifier as its primary key, and as long as no other component
  writes that table: the rows added are exactly those of the tasks answered with success, one each, with the request's
  identifier, payload hash, sender, arrival time, payload and priority; a task whose INSERT failed is not answered with success; and no
  identifier is accepted twice, nor one that was in the table before.\<close>

theorem audit_rows_accounted:
  assumes "pg_logs sv wlog" and "audit_keyed sv wlog" and "leaves_audit env wlog" and "distinct (audit_ids (wlog w))"
    and "exec_steps sv H env reqs (Map.empty, ex, w) (th', ex', w')"
  shows "\<exists>ids. distinct ids \<and> set ids = {i. \<exists>answer. th' i = Some (Finished (Inr answer))}
     \<and> audit_table (wlog w') = audit_table (wlog w) @ map (\<lambda>i. audit_row H (reqs i)) ids
     \<and> (\<forall>i \<in> set ids. th' i = Some (Finished (Inr (tx_id (reqs i)))))
     \<and> distinct (audit_ids (wlog w) @ map (\<lambda>i. tx_id (reqs i)) ids)"
proof -
  obtain ids where ids: "rows_of_accepted H reqs Map.empty th' (wlog w) (wlog w') ids"
    using accounting [OF assms(1,3) _ assms(5)] by (auto simp: of_requests_def)
  have acc: "accepted_stage st \<longleftrightarrow> (\<exists>answer. st = Finished (Inr answer))" for st
    by (cases st rule: accepted_stage.cases) simp_all
  have tasks: "accepted_tasks th' - accepted_tasks Map.empty = {i. \<exists>answer. th' i = Some (Finished (Inr answer))}"
    unfolding accepted_tasks_def by (auto simp: acc)
  have "distinct (audit_ids (wlog w'))"
    using keyed_run [of sv wlog env H reqs Map.empty ex w th' ex' w'] assms by blast
  moreover have "audit_ids (wlog w') = audit_ids (wlog w) @ map (\<lambda>i. tx_id (reqs i)) ids"
  proof -
    have "audit_ids (wlog w') = audit_ids (audit_table (wlog w) @ map (\<lambda>i. audit_row H (reqs i)) ids)"
      using ids unfolding rows_of_accepted_def by (simp flip: audit_ids_table [of "wlog w'"])
    then show ?thesis by (simp only: audit_ids_append audit_ids_rows audit_ids_table)
  qed
  ultimately have "distinct (audit_ids (wlog w) @ map (\<lambda>i. tx_id (reqs i)) ids)" by simp
  with ids show ?thesis unfolding rows_of_accepted_def tasks by blast
qed

text \<open>A database that enforces the key.\<close>

definition keyed_db :: "sql_write list services" where
  "keyed_db = accepting\<lparr>pg_execute := (\<lambda>q w. case q of
     InsertAuditLog t _ _ _ _ _ \<Rightarrow> if t \<in> set (audit_ids w) then (Inl ''duplicate key value'', w) else (Inr (), w @ [q])
   | _ \<Rightarrow> (Inr (), w @ [q]))\<rparr>"

lemma keyed_db_logs: "pg_logs keyed_db (\<lambda>w. w)" and keyed_db_keyed: "audit_keyed keyed_db (\<lambda>w. w)"
  by (auto simp: pg_logs_def audit_keyed_def log_kept_def keyed_db_def accepting_def recording_def offline_def
      split: sql_write.splits if_splits)

lemma keyed_db_submit:
  "10 < req_timestamp req \<Longrightarrow> latest_event_time_cache ex \<in> {None, Some 10} \<Longrightarrow>
   submit keyed_db H req (ex, w) =
     (if tx_id req \<in> set (audit_ids w) then (Inl ''duplicate key value'', (ex\<lparr>latest_event_time_cache := Some 10\<rparr>, w))
      else (Inr (tx_id req), (ex\<lparr>latest_event_time_cache := Some 10\<rparr>, w @ [audit_row H req])))"
  by (auto simp: submit_def check_safety_mode_def is_safety_mode_active_def validate_transaction_def audit_row_def
      get_cached_or_fetch_latest_event_time_def keyed_db_def accepting_def recording_def offline_def io_try_def io_then_def on_world_def)

text \<open>Two submissions of the same transaction: one is accepted and audited, the other refused.\<close>

theorem audit_rows_accounted_witness:
  "\<exists>th' ex'. exec_steps keyed_db sampleH (\<lambda>_ _. False) (\<lambda>_. sample_request) (Map.empty, executor_new Active [], [])
       (th', ex', [audit_row sampleH sample_request])
     \<and> th' 0 = Some (Finished (Inr ''tx1'')) \<and> th' 1 = Some (Finished (Inl ''duplicate key value''))
     \<and> {i. \<exists>answer. th' i = Some (Finished (Inr answer))} = {0}"
proof -
  let ?row = "audit_row sampleH sample_request" and ?ex = "executor_new Active []"
  let ?ex1 = "?ex\<lparr>latest_event_time_cache := Some 10\<rparr>" and ?reqs = "\<lambda>_ :: nat. sample_request"
  have tx: "tx_id sample_request = ''tx1''" "10 < req_timestamp sample_request" by (simp_all add: sample_request_def)
  have s1: "submit keyed_db sampleH sample_request (?ex, []) = (Inr ''tx1'', (?ex1, [?row]))"
    using tx by (simp add: keyed_db_submit audit_ids_def executor_new_def map_filter_simps)
  have s2: "submit keyed_db sampleH sample_request (?ex1, [?row]) = (Inl ''duplicate key value'', (?ex1, [?row]))"
    using tx audit_ids_rows [of sampleH ?reqs "[0]"] by (simp add: keyed_db_submit)
  have fin: "stage_answer st = Some res \<Longrightarrow> st = Finished res" for st res by (cases st) simp_all
  have one: "exec_steps keyed_db sampleH (\<lambda>_ _. False) ?reqs (th, s) (th(i \<mapsto> Finished (fst (submit keyed_db sampleH sample_request s))),
      snd (submit keyed_db sampleH sample_request s))" if "th i = None" for th s i
    using submission.request_alone [where th = th and i = i and req = sample_request and start = "\<lambda>i st. st = Waiting (?reqs i)"
        and env = "\<lambda>s s'. fst s' = fst s \<and> False" and sv = keyed_db and H = sampleH and s = s] that fin by fastforce
  let ?th = "[0 \<mapsto> Finished (Inr ''tx1''), 1 \<mapsto> Finished (Inl ''duplicate key value'')] :: nat \<Rightarrow> stage option"
  have run: "exec_steps keyed_db sampleH (\<lambda>_ _. False) ?reqs (Map.empty, ?ex, []) (?th, ?ex1, [?row])"
    using one [of Map.empty 0 "(?ex, [])"] one [of "[0 \<mapsto> Finished (Inr ''tx1'')]" 1 "(?ex1, [?row])"] s1 s2
    by (auto intro: rtranclp_trans)
  obtain ids where "distinct ids" "set ids = {i. \<exists>answer. ?th i = Some (Finished (Inr answer))}"
    "audit_table [?row] = audit_table [] @ map (\<lambda>i. ?row) ids"
    using audit_rows_accounted [of keyed_db "\<lambda>w. w" "\<lambda>_ _. False" "[]" sampleH ?reqs ?ex ?th ?ex1 "[?row]"]
      keyed_db_logs keyed_db_keyed run by (auto simp: leaves_audit_def audit_ids_def map_filter_simps)
  moreover have "{i. \<exists>answer. ?th i = Some (Finished (Inr answer))} = {0}" by auto
  ultimately show ?thesis using run by (intro exI [of _ ?th] exI [of _ ?ex1]) simp
qed

end
