(* ===== verification/Metering_Runs.thy ===== *)
theory Metering_Runs
  imports Billing Tasks
begin

text \<open>
  Concurrent telemetry on one key.  Every request runs \<^verbatim>\<open>track_signature\<close> of \<^verbatim>\<open>src/api/billing/mod.rs\<close> on its own task and gives way
  at every await: \<open>meter\<close> is the stretch up to the next one.  Run alone the stretches compose to \<open>track_signature\<close>; interleaved, the
  counter of the key hands out every number once.
\<close>

section \<open>Stretches of a request\<close>

text \<open>An answer keeps the number its request was given, if it was counted.\<close>

datatype meter_stage =
    Arrived TelemetryRequest
  | Connected TelemetryRequest
  | Authed TelemetryRequest
  | Published TelemetryRequest
  | Over TelemetryRequest u64 i64
  | Starting TelemetryRequest u64 i64
  | Answered "u64 option" "TelemetryResponse reply"

definition key_of :: "TelemetryRequest \<Rightarrow> string" where
  "key_of req = ''apikey:'' @ tr_api_key req"

fun meter ::
  "'w services \<Rightarrow> (bytes \<Rightarrow> bytes \<Rightarrow> bytes) \<Rightarrow> 'w nostr_client option \<Rightarrow> meter_stage \<times> 'w \<Rightarrow> meter_stage \<times> 'w" where
  "meter sv mac nostr (Arrived r, w) =
     (case redis_connect sv w of (conn, w') \<Rightarrow> (if isl conn then Answered None (Status 500) else Connected r, w'))"
| "meter sv mac nostr (Connected r, w) =
     (case redis_map sv [''HGETALL'', key_of r] w of (data, w') \<Rightarrow>
       (case validate_telemetry_auth mac (or_else data []) r of
          Inl InvalidApiKey \<Rightarrow> Answered None (Text 401 ''Invalid API Key'')
        | Inl InvalidHmac \<Rightarrow> Answered None (Text 401 ''Invalid HMAC'')
        | Inr _ \<Rightarrow> Authed r, w'))"
| "meter sv mac nostr (Authed r, w) =
     (Published r,
      case nostr of
        None \<Rightarrow> w
      | Some nc \<Rightarrow> snd (track_signature_nostr nc (tr_api_key r) (tr_signature_hash r) (tr_timestamp r) w))"
| "meter sv mac nostr (Published r, w) =
     (case redis_u64 sv [''HINCRBY'', key_of r, ''usage'', ''1''] w of (usage, w1) \<Rightarrow>
      let u = or_else usage 0 in
      if u \<le> FREE_TIER_SIGNATURE_LIMIT then (Answered (Some u) (tel_ok u), w1)
      else (case utc_now sv w1 of (t, w2) \<Rightarrow> (Over r u (timestamp_secs t), w2)))"
| "meter sv mac nostr (Over r u now, w) =
     (case redis_opt_i64 sv [''HGET'', key_of r, ''grace_period_start''] w of (gs, w1) \<Rightarrow>
      case random_f32 sv w1 of (roll, w2) \<Rightarrow>
      (case evaluate_quota_decision u now (or_else gs None) roll of
         GraceAllowed (Some start) \<Rightarrow> (Starting r u start, w2)
       | d \<Rightarrow> (Answered (Some u) (fst (answer_quota sv (key_of r) u d w2)), w2)))"
| "meter sv mac nostr (Starting r u start, w) =
     (case redis_unit sv [''HSET'', key_of r, ''grace_period_start'', show_int start] w of (_, w') \<Rightarrow>
        (Answered (Some u) (tel_ok u), w'))"
| "meter sv mac nostr (Answered n rep, w) = (Answered n rep, w)"

section \<open>Interleavings\<close>

type_synonym 'w meter_state = "(meter_stage, 'w) tasks"

text \<open>The tasks of \<open>N\<close> requests on the key \<open>k\<close>, and whatever else (\<open>env\<close>) happens.\<close>

abbreviation meter_step ::
  "'w services \<Rightarrow> (bytes \<Rightarrow> bytes \<Rightarrow> bytes) \<Rightarrow> 'w nostr_client option \<Rightarrow> string \<Rightarrow> nat \<Rightarrow> ('w \<Rightarrow> 'w \<Rightarrow> bool)
     \<Rightarrow> 'w meter_state \<Rightarrow> 'w meter_state \<Rightarrow> bool" where
  "meter_step sv mac nostr k N env \<equiv> task_step (meter sv mac nostr) (\<lambda>i st. i < N \<and> (\<exists>r. st = Arrived r \<and> key_of r = k)) env"

abbreviation meter_steps ::
  "'w services \<Rightarrow> (bytes \<Rightarrow> bytes \<Rightarrow> bytes) \<Rightarrow> 'w nostr_client option \<Rightarrow> string \<Rightarrow> nat \<Rightarrow> ('w \<Rightarrow> 'w \<Rightarrow> bool)
     \<Rightarrow> 'w meter_state \<Rightarrow> 'w meter_state \<Rightarrow> bool" where
  "meter_steps sv mac nostr k N env \<equiv> (meter_step sv mac nostr k N env)\<^sup>*\<^sup>*"

fun number :: "meter_stage \<Rightarrow> u64 option" where
  "number (Over _ u _) = Some u" | "number (Starting _ u _) = Some u" | "number (Answered n _) = n" | "number _ = None"

fun stage_key :: "meter_stage \<Rightarrow> string option" where
  "stage_key (Arrived r) = Some (key_of r)" | "stage_key (Connected r) = Some (key_of r)" | "stage_key (Authed r) = Some (key_of r)"
| "stage_key (Published r) = Some (key_of r)" | "stage_key (Over r _ _) = Some (key_of r)"
| "stage_key (Starting r _ _) = Some (key_of r)" | "stage_key (Answered _ _) = None"

definition numbered :: "(nat \<Rightarrow> meter_stage option) \<Rightarrow> nat \<Rightarrow> u64 option" where
  "numbered th i = Option.bind (th i) number"

definition counted :: "(nat \<Rightarrow> meter_stage option) \<Rightarrow> nat set" where
  "counted th = {i. numbered th i \<noteq> None}"

definition is_starting :: "meter_stage option \<Rightarrow> bool" where
  "is_starting st = (case st of Some (Starting _ _ _) \<Rightarrow> True | _ \<Rightarrow> False)"

text \<open>What the requests share with everything else: the relays and the rest of the node leave the hash of the key alone.\<close>

definition key_alone ::
  "('w \<Rightarrow> hashes) \<Rightarrow> 'w nostr_client option \<Rightarrow> string \<Rightarrow> ('w \<Rightarrow> 'w \<Rightarrow> bool) \<Rightarrow> bool" where
  "key_alone hv nostr k env \<longleftrightarrow> (\<forall>nc kind text. nostr = Some nc \<longrightarrow> hash_kept hv (send_event nc kind text))
     \<and> (\<forall>w w'. env w w' \<longrightarrow> hv w' k = hv w k)"

section \<open>Lemmas\<close>

text \<open>A stretch that does not count leaves the number and, unless it starts the grace period, the hash.\<close>

lemma meter_uncounted:
  assumes "redis_hashes sv hv" and "key_alone hv nostr k env" and "meter sv mac nostr (st, w) = (st', w')"
    and "\<forall>r. st \<noteq> Published r" and "stage_key st = Some k \<or> stage_key st = None"
  shows "number st' = number st \<and> (stage_key st' = Some k \<or> stage_key st' = None) \<and> hv w' k ''usage'' = hv w k ''usage''
    \<and> (is_starting (Some st) \<or> hv w' k = hv w k)"
proof (cases st)
  case (Arrived r)
  then show ?thesis
    using assms(3,5) hash_keptD [OF redis_hashes_kept(1) [OF assms(1)]] by (auto split: prod.splits if_splits)
next
  case (Connected r)
  obtain data v where d: "redis_map sv [''HGETALL'', key_of r] w = (Inr data, v)" "hv v = hv w"
    using redis_hgetall [OF assms(1)] by blast
  then show ?thesis using assms(3,5) Connected by (auto split: sum.splits TelemetryAuthError.splits)
next
  case (Authed r)
  then show ?thesis
    using assms(2,3,5) by (auto simp: key_alone_def track_signature_nostr_def hash_kept_def split: option.splits)
next
  case (Over r u now)
  obtain gs w1 where g: "redis_opt_i64 sv [''HGET'', key_of r, ''grace_period_start''] w = (gs, w1)" by fastforce
  obtain roll w2 where f: "random_f32 sv w1 = (roll, w2)" by fastforce
  have "hash_kept hv (redis_opt_i64 sv [''HGET'', key_of r, ''grace_period_start''])"
    using assms(1) unfolding redis_hashes_def by blast
  then have "hv w1 = hv w" using g by (rule hash_keptD)
  moreover have "hv w2 = hv w1" by (rule hash_keptD [OF redis_hashes_kept(3) [OF assms(1)] f])
  ultimately show ?thesis using assms(3,5) Over g f by (auto split: QuotaDecision.splits option.splits)
next
  case (Starting r u start)
  obtain v where h: "redis_unit sv [''HSET'', key_of r, ''grace_period_start'', show_int start] w = (Inr (), v)"
    "hv v = (hv w)(key_of r := hset [''grace_period_start'', show_int start] (hv w (key_of r)))"
    using redis_hset [OF assms(1)] by blast
  then show ?thesis using assms(3,5) Starting by (auto simp: is_starting_def)
qed (use assms(3,4) in auto)

text \<open>The counting stretch takes the next number.\<close>

lemma meter_counts:
  assumes "redis_hashes sv hv" and "meter sv mac nostr (Published r, w) = (st', w')"
    and "hv w (key_of r) ''usage'' = Some (show_nat n)" and "n < 2 ^ 63 - 1"
  shows "number st' = Some (n + 1) \<and> (stage_key st' = Some (key_of r) \<or> stage_key st' = None)
    \<and> hv w' (key_of r) = (hv w (key_of r))(''usage'' \<mapsto> show_nat (n + 1)) \<and> \<not> is_starting (Some st')"
proof -
  obtain w1 where 1: "redis_u64 sv [''HINCRBY'', key_of r, ''usage'', ''1''] w = (Inr (n + 1), w1)"
    "hv w1 = (hv w)(key_of r := (hv w (key_of r))(''usage'' \<mapsto> show_nat (n + 1)))"
    using redis_hincrby [OF assms(1), of w "key_of r" n, OF assms(3,4)] by blast
  obtain t w2 where 2: "utc_now sv w1 = (t, w2)" by fastforce
  have "hv w2 = hv w1" by (rule hash_keptD [OF redis_hashes_kept(2) [OF assms(1)] 2])
  then show ?thesis using assms(2) 1 2 by (auto simp: Let_def is_starting_def split: if_splits)
qed

text \<open>A task that was not counted and now is adds itself and its number.\<close>

lemma numbered_update:
  "numbered (th(i \<mapsto> st)) = (numbered th)(i := number st)"
  by (auto simp: numbered_def)

lemma counted_kept: "th i = Some st \<Longrightarrow> number st' = number st \<Longrightarrow> numbered (th(i \<mapsto> st')) = numbered th"
  by (auto simp: numbered_def)

definition meter_inv :: "('w \<Rightarrow> hashes) \<Rightarrow> string \<Rightarrow> nat \<Rightarrow> nat \<Rightarrow> 'w meter_state \<Rightarrow> bool" where
  "meter_inv hv k N n0 = (\<lambda>(th, w). counted th \<subseteq> {..<N} \<and> {i. th i \<noteq> None} \<subseteq> {..<N}
     \<and> (\<forall>i st. th i = Some st \<longrightarrow> stage_key st = Some k \<or> stage_key st = None)
     \<and> hv w k ''usage'' = Some (show_nat (n0 + card (counted th)))
     \<and> bij_betw (\<lambda>i. the (numbered th i)) (counted th) {n0<..n0 + card (counted th)})"

lemma meter_inv_kept:
  assumes "meter_inv hv k N n0 (th, w)" and "numbered th' = numbered th" and "hv w' k ''usage'' = hv w k ''usage''"
    and "{i. th' i \<noteq> None} \<subseteq> {..<N}" and "\<forall>i st. th' i = Some st \<longrightarrow> stage_key st = Some k \<or> stage_key st = None"
  shows "meter_inv hv k N n0 (th', w')"
  using assms by (simp add: meter_inv_def counted_def)

lemma meter_inv_counted:
  assumes inv: "meter_inv hv k N n0 (th, w)" and i: "th i = Some st" "number st = None"
    and st': "number st' = Some (n0 + card (counted th) + 1)" "stage_key st' = Some k \<or> stage_key st' = None"
    and w': "hv w' k ''usage'' = Some (show_nat (n0 + card (counted th) + 1))"
  shows "meter_inv hv k N n0 (th(i \<mapsto> st'), w')"
proof -
  let ?c = "counted th" and ?th' = "th(i \<mapsto> st')" and ?n = "n0 + card (counted th)"
  have fin: "finite ?c" using inv finite_subset by (fastforce simp: meter_inv_def)
  have ni: "i \<notin> ?c" using i by (simp add: counted_def numbered_def)
  have c': "counted ?th' = insert i ?c" using st'(1) by (auto simp: counted_def numbered_update)
  have "bij_betw (\<lambda>j. the (numbered ?th' j)) ?c {n0<..?n} = bij_betw (\<lambda>j. the (numbered th j)) ?c {n0<..?n}"
    by (rule bij_betw_cong) (use ni in \<open>auto simp: numbered_update\<close>)
  then have "bij_betw (\<lambda>j. the (numbered ?th' j)) ?c {n0<..?n}" using inv by (simp add: meter_inv_def)
  then have "bij_betw (\<lambda>j. the (numbered ?th' j)) (insert i ?c) (insert (?n + 1) {n0<..?n})"
    using notIn_Un_bij_betw [of i ?c "\<lambda>j. the (numbered ?th' j)" "{n0<..?n}"] ni st'(1) by (simp add: numbered_update)
  moreover have "insert (?n + 1) {n0<..?n} = {n0<..n0 + card (insert i ?c)}" using fin ni by auto
  moreover have "i < N" using inv i(1) by (auto simp: meter_inv_def)
  ultimately show ?thesis using inv fin ni i(1) st'(2) w' by (auto simp: meter_inv_def c')
qed

lemma meter_room:
  assumes "meter_inv hv k N n0 (th, w)" and "th i = Some st" and "number st = None"
  shows "card (counted th) < N"
proof -
  have "i \<notin> counted th" "i < N" using assms by (auto simp: meter_inv_def counted_def numbered_def)
  then have "counted th \<subset> {..<N}" using assms(1) by (auto simp: meter_inv_def)
  then show ?thesis using psubset_card_mono [of "{..<N}" "counted th"] by simp
qed

lemma meter_step_inv:
  assumes "redis_hashes sv hv" and "key_alone hv nostr k env" and "n0 + N < 2 ^ 63"
    and "meter_step sv mac nostr k N env (th, w) (th', w')" and "meter_inv hv k N n0 (th, w)"
  shows "meter_inv hv k N n0 (th', w')
    \<and> (hv w k ''grace_period_start'' = Some g \<and> (\<forall>i. \<not> is_starting (th i)) \<longrightarrow>
        hv w' k ''grace_period_start'' = Some g)"
  using assms(4)
proof cases
  case (arrive i st)
  then have "numbered th' = numbered th" by (auto simp: numbered_def)
  then have "meter_inv hv k N n0 (th', w')"
    using arrive assms(5) by (intro meter_inv_kept [OF assms(5)]) (auto simp: meter_inv_def)
  then show ?thesis using arrive by simp
next
  case (other)
  then have "hv w' k = hv w k" using assms(2) by (simp add: key_alone_def)
  with other show ?thesis using assms(5) by (simp add: meter_inv_def)
next
  case (run i st st')
  have key: "stage_key st = Some k \<or> stage_key st = None" and ids: "{i. th' i \<noteq> None} \<subseteq> {..<N}"
    using assms(5) run(1,2) by (auto simp: meter_inv_def)
  show ?thesis
  proof (cases "\<exists>r. st = Published r")
    case False
    then have u: "number st' = number st" "stage_key st' = Some k \<or> stage_key st' = None"
      "hv w' k ''usage'' = hv w k ''usage''" "is_starting (Some st) \<or> hv w' k = hv w k"
      using meter_uncounted [OF assms(1,2) run(3) _ key] by auto
    have "meter_inv hv k N n0 (th', w')"
      using assms(5) run(1,2) u ids counted_kept [of th i st st', OF run(2) u(1)]
      by (intro meter_inv_kept [OF assms(5)]) (auto simp: meter_inv_def)
    then show ?thesis using u(4) run(2) by metis
  next
    case True
    then obtain r where st: "st = Published r" and k: "key_of r = k" using key by auto
    let ?n = "n0 + card (counted th)"
    have n: "?n < 2 ^ 63 - 1" using meter_room [OF assms(5) run(2)] assms(3) st by simp
    have "hv w (key_of r) ''usage'' = Some (show_nat ?n)" using assms(5) k by (simp add: meter_inv_def)
    note c = meter_counts [of sv hv mac nostr r w st' w' ?n, OF assms(1) run(3) [unfolded st] this n, unfolded k]
    have "meter_inv hv k N n0 (th(i \<mapsto> st'), w')"
      using c by (intro meter_inv_counted [OF assms(5) run(2)]) (simp_all add: st)
    then show ?thesis using c run(1) by simp
  qed
qed

text \<open>With a recorded start nobody begins to record another.\<close>

lemma meter_none_starts:
  assumes "redis_hashes sv hv" and "meter_step sv mac nostr k N env (th, w) (th', w')"
    and "hv w k ''grace_period_start'' = Some (show_int g)" and "meter_inv hv k N n0 (th, w)" and "\<forall>i. \<not> is_starting (th i)"
  shows "\<forall>i. \<not> is_starting (th' i)"
  using assms(2)
proof cases
  case (run i st st')
  have "\<not> is_starting (Some st')"
  proof (cases st)
    case (Over r u now)
    then have "stage_key (Over r u now) = Some k" using assms(4) run(2) unfolding meter_inv_def by fastforce
    then have k: "key_of r = k" by simp
    obtain w1 where g: "redis_opt_i64 sv [''HGET'', k, ''grace_period_start''] w = (Inr (Some g), w1)"
      using redis_hget [OF assms(1), of w k "''grace_period_start''" "Some g"] assms(3) by auto
    obtain roll w2 where f: "random_f32 sv w1 = (roll, w2)" by fastforce
    have "evaluate_quota_decision u now (Some g) roll \<noteq> GraceAllowed (Some s)" for s
      by (auto simp: evaluate_quota_decision_def split: GraceStatus.splits)
    then show ?thesis using run(3) Over k g f
      by (auto simp: is_starting_def split: QuotaDecision.splits option.splits)
  qed (use run(3) assms(5) run(2) in \<open>auto simp: is_starting_def Let_def split: prod.splits if_splits sum.splits
      TelemetryAuthError.splits\<close>)
  then show ?thesis using run(1) assms(5) by simp
qed (use assms(5) in \<open>auto simp: is_starting_def\<close>)

lemma meter_run_inv:
  assumes "meter_steps sv mac nostr k N env (th, w) (th', w')" and "redis_hashes sv hv" and "key_alone hv nostr k env"
    and "n0 + N < 2 ^ 63" and "meter_inv hv k N n0 (th, w)"
  shows "meter_inv hv k N n0 (th', w')"
  using assms(1,5)
proof (rule task_steps_inv)
  fix th1 th2 v u
  assume "meter_step sv mac nostr k N env (th1, v) (th2, u)" and "meter_inv hv k N n0 (th1, v)"
  then show "meter_inv hv k N n0 (th2, u)" using meter_step_inv [of sv hv nostr k env n0 N mac th1 v, OF assms(2-4)] by blast
qed

lemma meter_inv_start: "hv w k ''usage'' = Some (show_nat n0) \<Longrightarrow> meter_inv hv k N n0 (Map.empty, w)"
  by (simp add: meter_inv_def counted_def numbered_def bij_betw_def)

text \<open>The stretches after the publication, and from the start.\<close>

definition count_and_answer :: "'w services \<Rightarrow> TelemetryRequest \<Rightarrow> 'w \<Rightarrow> TelemetryResponse reply \<times> 'w" where
  "count_and_answer sv r = io_then (redis_u64 sv [''HINCRBY'', key_of r, ''usage'', ''1'']) (\<lambda>usage.
      io_then (read_quota sv (key_of r) (or_else usage 0)) (answer_quota sv (key_of r) (or_else usage 0)))"

lemma meter_tail:
  "\<exists>n. (meter sv mac nostr ^^ 3) (Published r, w) = (Answered n (fst (count_and_answer sv r w)), snd (count_and_answer sv r w))"
proof -
  obtain usage w1 where 1: "redis_u64 sv [''HINCRBY'', key_of r, ''usage'', ''1''] w = (usage, w1)" by fastforce
  define u where "u = or_else usage 0"
  obtain t w2 where 2: "utc_now sv w1 = (t, w2)" by fastforce
  obtain gs w3 where 3: "redis_opt_i64 sv [''HGET'', key_of r, ''grace_period_start''] w2 = (gs, w3)" by fastforce
  obtain roll w4 where 4: "random_f32 sv w3 = (roll, w4)" by fastforce
  have tail: "count_and_answer sv r w = (if u \<le> FREE_TIER_SIGNATURE_LIMIT then (tel_ok u, w1)
      else answer_quota sv (key_of r) u (evaluate_quota_decision u (timestamp_secs t) (or_else gs None) roll) w4)"
    using 1 2 3 4 by (simp add: count_and_answer_def read_quota_def answer_quota_def u_def)
  have three: "(meter sv mac nostr ^^ 3) x = meter sv mac nostr (meter sv mac nostr (meter sv mac nostr x))" for x
    by (simp add: numeral_eq_Suc)
  show ?thesis
  proof (cases "u \<le> FREE_TIER_SIGNATURE_LIMIT")
    case True
    then show ?thesis using 1 by (simp add: three tail u_def Let_def)
  next
    case False
    then show ?thesis using 1 2 3 4
      by (cases "evaluate_quota_decision u (timestamp_secs t) (or_else gs None) roll")
        (auto simp: three tail answer_quota_def io_then_def Let_def simp flip: u_def split: option.split prod.split)
  qed
qed

lemma meter_head:
  "(\<exists>v. (meter sv mac nostr ^^ 3) (Arrived r, w) = (Published r, v) \<and> track_signature sv mac nostr r w = count_and_answer sv r v)
    \<or> (meter sv mac nostr ^^ 3) (Arrived r, w) = (Answered None (fst (track_signature sv mac nostr r w)), snd (track_signature sv mac nostr r w))"
proof -
  obtain conn w1 where 1: "redis_connect sv w = (conn, w1)" by fastforce
  obtain data w2 where 2: "redis_map sv [''HGETALL'', key_of r] w1 = (data, w2)" by fastforce
  have three: "(meter sv mac nostr ^^ 3) x = meter sv mac nostr (meter sv mac nostr (meter sv mac nostr x))" for x
    by (simp add: numeral_eq_Suc)
  show ?thesis
    unfolding three track_signature_def Let_def key_of_def [symmetric] count_and_answer_def
    using 1 2 by (cases "isl conn"; cases "validate_telemetry_auth mac (or_else data []) r"; cases nostr)
      (auto simp: Let_def split: TelemetryAuthError.split)
qed

fun meter_answer :: "meter_stage \<Rightarrow> TelemetryResponse reply option" where
  "meter_answer (Answered _ rep) = Some rep" | "meter_answer _ = None"

interpretation telemetry: handler_stretches "meter sv mac nostr" Arrived meter_answer "track_signature sv mac nostr" 6 for sv mac nostr
proof
  show settled: "meter_answer st \<noteq> None \<Longrightarrow> meter sv mac nostr (st, w) = (st, w)" for st w by (cases st) simp_all
  have "(meter sv mac nostr ^^ 6) x = (meter sv mac nostr ^^ 3) ((meter sv mac nostr ^^ 3) x)" for x
    by (simp add: numeral_eq_Suc)
  moreover have "(meter sv mac nostr ^^ 3) (Answered n rep, v) = (Answered n rep, v)" for n rep v
    by (simp add: numeral_eq_Suc)
  ultimately show "\<exists>st. (meter sv mac nostr ^^ 6) (Arrived r, w) = (st, snd (track_signature sv mac nostr r w))
      \<and> meter_answer st = Some (fst (track_signature sv mac nostr r w))" for r w
    using meter_head [of sv mac nostr r w] meter_tail [of sv mac nostr r] by fastforce
qed

section \<open>Properties\<close>

text \<open>The stretches are the handler.  A telemetry request that meets no other is answered as \<open>track_signature\<close> answers it and leaves
  the world as it does; and once given, an answer stays whatever the other tasks and the rest of the node do.\<close>

theorem track_signature_stretches:
  assumes "th i = None" and "i < N" and "key_of r = k"
  shows "\<exists>st. meter_steps sv mac nostr k N env (th, w) (th(i \<mapsto> st), snd (track_signature sv mac nostr r w))
    \<and> meter_answer st = Some (fst (track_signature sv mac nostr r w))
    \<and> (\<forall>w1 th2 w2. meter_steps sv mac nostr k N env (th(i \<mapsto> st), w1) (th2, w2) \<longrightarrow> th2 i = Some st)"
proof -
  obtain st where st: "meter_steps sv mac nostr k N env (th, w) (th(i \<mapsto> st), snd (track_signature sv mac nostr r w))"
    "meter_answer st = Some (fst (track_signature sv mac nostr r w))"
    using telemetry.request_alone [of th i "\<lambda>i st. i < N \<and> (\<exists>r. st = Arrived r \<and> key_of r = k)" r sv mac nostr env w] assms by blast
  then show ?thesis using telemetry.answer_stays [of sv mac nostr _ env "th(i \<mapsto> st)" _ _ _ i st] by (intro exI [of _ st]) auto
qed

theorem track_signature_stretches_witness:
  "\<exists>st w. meter_steps hash_memory (\<lambda>_ _. [0]) None ''apikey:k'' 1 (\<lambda>_ _. False) (Map.empty, sample_keys 3) ([0 \<mapsto> st], w)
     \<and> meter_answer st = Some (fst (track_signature hash_memory (\<lambda>_ _. [0]) None sample_telemetry (sample_keys 3)))"
proof -
  have "key_of sample_telemetry = ''apikey:k''" by (simp add: key_of_def sample_telemetry_def)
  from track_signature_stretches [where th = Map.empty and i = 0 and N = 1, OF _ _ this] show ?thesis by fastforce
qed

text \<open>C6: Metering under concurrency, while Redis answers.  However the requests on a key arrive and interleave, the counter of the key stands at its
  old value plus the number of requests that were counted, no two of them were given the same number, and of the answers within
  the free tier there are at most as many as the tier had left.\<close>

theorem metering_interleaved:
  assumes "redis_hashes sv hv" and "key_alone hv nostr k env" and "hv w k ''usage'' = Some (show_nat n0)" and "n0 + N < 2 ^ 63"
    and "meter_steps sv mac nostr k N env (Map.empty, w) (th, w')"
  shows "hv w' k ''usage'' = Some (show_nat (n0 + card (counted th))) \<and> inj_on (numbered th) (counted th)
    \<and> card {i. \<exists>u. th i = Some (Answered (Some u) (tel_ok u)) \<and> u \<le> FREE_TIER_SIGNATURE_LIMIT} \<le> FREE_TIER_SIGNATURE_LIMIT - n0"
proof -
  have inv: "meter_inv hv k N n0 (th, w')"
    by (rule meter_run_inv [OF assms(5,1,2,4) meter_inv_start]) (rule assms(3))
  let ?f = "\<lambda>i. the (numbered th i)" and ?free = "{i. \<exists>u. th i = Some (Answered (Some u) (tel_ok u)) \<and> u \<le> FREE_TIER_SIGNATURE_LIMIT}"
  have bij: "bij_betw ?f (counted th) {n0<..n0 + card (counted th)}" using inv by (simp add: meter_inv_def)
  have sub: "?free \<subseteq> counted th" by (auto simp: counted_def numbered_def)
  have "?f i \<in> {n0<..FREE_TIER_SIGNATURE_LIMIT}" if "i \<in> ?free" for i
    using that sub bij_betwE [OF bij] by (fastforce simp: numbered_def)
  moreover have "inj_on ?f ?free" using bij sub inj_on_subset by (auto simp: bij_betw_def)
  ultimately have "card ?free \<le> card {n0<..FREE_TIER_SIGNATURE_LIMIT}" by (intro card_inj_on_le) auto
  moreover have "inj_on (numbered th) (counted th)" using bij by (auto simp: bij_betw_def inj_on_def)
  ultimately show ?thesis using inv by (simp add: meter_inv_def)
qed

definition graced_keys :: "nat \<Rightarrow> hash_world" where
  "graced_keys n = (\<lambda>_. [])(''apikey:k'' := [(''secret'', ''x''), (''usage'', show_nat n), (''grace_period_start'', show_int 5)])"


text \<open>One request on a key that has \<open>n\<close> signatures behind it, from its arrival to its answer.\<close>

lemma sample_meter:
  assumes "(meter hash_memory (\<lambda>_ _. [0]) None ^^ 5) (Arrived sample_telemetry, keys) = (st, w)"
  shows "meter_steps hash_memory (\<lambda>_ _. [0]) None ''apikey:k'' 1 (\<lambda>_ _. False) (Map.empty, keys) ([0 \<mapsto> st], w)"
proof -
  have "meter_step hash_memory (\<lambda>_ _. [0]) None ''apikey:k'' 1 (\<lambda>_ _. False) (Map.empty, keys) ([0 \<mapsto> Arrived sample_telemetry], keys)"
    by (rule task_step.arrive) (simp_all add: key_of_def sample_telemetry_def)
  moreover have "meter_steps hash_memory (\<lambda>_ _. [0]) None ''apikey:k'' 1 (\<lambda>_ _. False) ([0 \<mapsto> Arrived sample_telemetry], keys)
      ([0 \<mapsto> st], w)"
    using task_alone [OF assms, of "[0 \<mapsto> Arrived sample_telemetry]" 0] by simp
  ultimately show ?thesis by (rule converse_rtranclp_into_rtranclp)
qed

lemma five_times: "(f ^^ 5) x = f (f (f (f (f x))))"
  by (simp add: numeral_eq_Suc)

lemma sample_counted:
  "\<exists>w. (meter hash_memory (\<lambda>_ _. [0]) None ^^ 5) (Arrived sample_telemetry, sample_keys 49999) = (Answered (Some 50000) (tel_ok 50000), w)"
  unfolding five_times
  by (simp add: hash_memory_def offline_def key_of_def sample_telemetry_def sample_keys_def validate_telemetry_auth_def hex_val_def
      FREE_TIER_SIGNATURE_LIMIT_def Let_def)

theorem metering_interleaved_witness:
  "\<exists>th w. meter_steps hash_memory (\<lambda>_ _. [0]) None ''apikey:k'' 1 (\<lambda>_ _. False) (Map.empty, sample_keys 49999) (th, w)
     \<and> counted th = {0} \<and> map_of (w ''apikey:k'') ''usage'' = Some (show_nat 50000)"
proof -
  obtain w where "(meter hash_memory (\<lambda>_ _. [0]) None ^^ 5) (Arrived sample_telemetry, sample_keys 49999)
      = (Answered (Some 50000) (tel_ok 50000), w)" using sample_counted by blast
  note run = sample_meter [OF this]
  let ?th = "[0 \<mapsto> Answered (Some 50000) (tel_ok 50000)] :: nat \<Rightarrow> meter_stage option"
  have c: "counted ?th = {0}" by (auto simp: counted_def numbered_def)
  have "map_of (w ''apikey:k'') ''usage'' = Some (show_nat (49999 + card (counted ?th)))"
    using metering_interleaved [OF hash_memory_hashes _ _ _ run, of 49999] by (simp add: key_alone_def sample_keys_def)
  then show ?thesis using run c by (intro exI [of _ ?th] exI [of _ w]) simp
qed

lemma sample_graced:
  "\<exists>w. (meter hash_memory (\<lambda>_ _. [0]) None ^^ 5) (Arrived sample_telemetry, graced_keys 50000) = (Answered (Some 50001) (tel_ok 50001), w)"
  unfolding five_times
  by (simp add: hash_memory_def offline_def key_of_def sample_telemetry_def graced_keys_def validate_telemetry_auth_def hex_val_def
      FREE_TIER_SIGNATURE_LIMIT_def Let_def evaluate_quota_decision_def determine_grace_status_def timestamp_secs_def
      GRACE_PERIOD_DURATION_SECONDS_def GRACE_PERIOD_EFFICIENCY_def wrap_i64_def answer_quota_def)

text \<open>C24: The start of the grace period settles.  While Redis answers, once it is recorded and no request is on its way to record another, no request and
  no interleaving changes it again.\<close>

theorem grace_start_settles:
  assumes "redis_hashes sv hv" and "key_alone hv nostr k env" and "hv w k ''usage'' = Some (show_nat n0)" and "n0 + N < 2 ^ 63"
    and "meter_steps sv mac nostr k N env (Map.empty, w) (th, w1)"
    and "hv w1 k ''grace_period_start'' = Some (show_int g)" and "\<forall>i. \<not> is_starting (th i)"
    and "meter_steps sv mac nostr k N env (th, w1) (th', w2)"
  shows "hv w2 k ''grace_period_start'' = Some (show_int g)"
proof -
  have start: "meter_inv hv k N n0 (th, w1)"
    by (rule meter_run_inv [OF assms(5,1,2,4) meter_inv_start]) (rule assms(3))
  have "hv w2 k ''grace_period_start'' = Some (show_int g) \<and> (\<forall>i. \<not> is_starting (th' i)) \<and> meter_inv hv k N n0 (th', w2)"
    using assms(8)
  proof (rule task_steps_inv)
    show "hv w1 k ''grace_period_start'' = Some (show_int g) \<and> (\<forall>i. \<not> is_starting (th i)) \<and> meter_inv hv k N n0 (th, w1)"
      using assms(6,7) start by simp
  next
    fix th1 th2 v u
    assume step: "meter_step sv mac nostr k N env (th1, v) (th2, u)"
      and i: "hv v k ''grace_period_start'' = Some (show_int g) \<and> (\<forall>i. \<not> is_starting (th1 i)) \<and> meter_inv hv k N n0 (th1, v)"
    note s = meter_step_inv [of sv hv nostr k env n0 N mac th1 v, OF assms(1,2,4) step]
    show "hv u k ''grace_period_start'' = Some (show_int g) \<and> (\<forall>i. \<not> is_starting (th2 i)) \<and> meter_inv hv k N n0 (th2, u)"
      using i s meter_none_starts [OF assms(1) step] by blast
  qed
  then show ?thesis by blast
qed

theorem grace_start_settles_witness:
  "\<exists>th w. meter_steps hash_memory (\<lambda>_ _. [0]) None ''apikey:k'' 1 (\<lambda>_ _. False) (Map.empty, graced_keys 50000) (th, w)
     \<and> counted th = {0} \<and> map_of (w ''apikey:k'') ''grace_period_start'' = Some (show_int 5)"
proof -
  obtain w where "(meter hash_memory (\<lambda>_ _. [0]) None ^^ 5) (Arrived sample_telemetry, graced_keys 50000)
      = (Answered (Some 50001) (tel_ok 50001), w)" using sample_graced by blast
  note run = sample_meter [OF this]
  have "map_of (w ''apikey:k'') ''grace_period_start'' = Some (show_int 5)"
    using grace_start_settles [where ?w1.0 = "graced_keys 50000" and w = "graced_keys 50000" and th = Map.empty and g = 5 and ?n0.0 = 50000, OF hash_memory_hashes _ _ _ _ _ _ run]
    by (simp add: key_alone_def graced_keys_def is_starting_def)
  moreover have "counted [0 \<mapsto> Answered (Some 50001) (tel_ok 50001)] = {0}" by (auto simp: counted_def numbered_def)
  ultimately show ?thesis using run by blast
qed

text \<open>Until then it can move: two requests that both read no start record theirs one after the other.\<close>

lemma grace_start_moves:
  assumes "map_of (w ''apikey:k'') ''grace_period_start'' = None" and "50000 < u" and "50000 < u'"
  shows "\<exists>th w1 th' w2. meter_steps hash_memory mac None ''apikey:k'' 2 (\<lambda>_ _. False)
       ([0 \<mapsto> Over sample_telemetry u 100, 1 \<mapsto> Over sample_telemetry u' 200], w) (th, w1)
     \<and> map_of (w1 ''apikey:k'') ''grace_period_start'' = Some (show_int 100)
     \<and> meter_steps hash_memory mac None ''apikey:k'' 2 (\<lambda>_ _. False) (th, w1) (th', w2)
     \<and> map_of (w2 ''apikey:k'') ''grace_period_start'' = Some (show_int 200)"
proof -
  let ?r = sample_telemetry
  have read: "meter hash_memory mac None (Over ?r v now, w) = (Starting ?r v now, w)" if "50000 < v" "now \<in> {100, 200}" for v now
    using assms(1) that by (auto simp: hash_memory_def offline_def key_of_def sample_telemetry_def evaluate_quota_decision_def
        determine_grace_status_def FREE_TIER_SIGNATURE_LIMIT_def GRACE_PERIOD_DURATION_SECONDS_def GRACE_PERIOD_EFFICIENCY_def wrap_i64_def Let_def)
  have stored: "\<exists>w'. meter hash_memory mac None (Starting ?r v s, w0) = (Answered (Some v) (tel_ok v), w')
      \<and> map_of (w' ''apikey:k'') ''grace_period_start'' = Some (show_int s)" for v s w0
    by (simp add: hash_memory_def key_of_def sample_telemetry_def)
  obtain w1 where w1: "meter hash_memory mac None (Starting ?r u 100, w) = (Answered (Some u) (tel_ok u), w1)"
    "map_of (w1 ''apikey:k'') ''grace_period_start'' = Some (show_int 100)" using stored by blast
  obtain w2 where w2: "meter hash_memory mac None (Starting ?r u' 200, w1) = (Answered (Some u') (tel_ok u'), w2)"
    "map_of (w2 ''apikey:k'') ''grace_period_start'' = Some (show_int 200)" using stored by blast
  let ?run = "meter_steps hash_memory mac None ''apikey:k'' 2 (\<lambda>_ _. False)"
  let ?t0 = "[0 \<mapsto> Over ?r u 100, 1 \<mapsto> Over ?r u' 200] :: nat \<Rightarrow> meter_stage option"
  let ?t1 = "?t0(0 \<mapsto> Starting ?r u 100)" let ?t2 = "?t1(1 \<mapsto> Starting ?r u' 200)"
  let ?t3 = "?t2(0 \<mapsto> Answered (Some u) (tel_ok u))" let ?t4 = "?t3(1 \<mapsto> Answered (Some u') (tel_ok u'))"
  have "?run (?t0, w) (?t1, w)" by (rule task_alone [where n = 1 and st = "Over ?r u 100"]) (use read assms in simp_all)
  moreover have "?run (?t1, w) (?t2, w)" by (rule task_alone [where n = 1 and st = "Over ?r u' 200"]) (use read assms in simp_all)
  moreover have "?run (?t2, w) (?t3, w1)" by (rule task_alone [where n = 1 and st = "Starting ?r u 100"]) (use w1 in simp_all)
  moreover have "?run (?t3, w1) (?t4, w2)" by (rule task_alone [where n = 1 and st = "Starting ?r u' 200"]) (use w2 in simp_all)
  ultimately show ?thesis using w1(2) w2(2) by (meson rtranclp_trans)
qed

end
