(* ===== verification/Heartbeat.thy ===== *)
theory Heartbeat
  imports Safety
begin

text \<open>
  Turns of the heartbeat of \<^verbatim>\<open>src/safety/mod.rs\<close>: the health check of the chain and then the circuit breaker of the gateway, both
  on the same two keys of Redis.
\<close>

section \<open>The alarm of the gateway\<close>

definition gateway_alarm :: "'w services \<Rightarrow> string \<Rightarrow> 'w \<Rightarrow> bool" where
  "gateway_alarm sv url w =
     (case fst (http_get sv (url @ ''/api/v1/state'') w) of
        Inl _ \<Rightarrow> False
      | Inr resp \<Rightarrow> is_success (hr_status resp) \<and>
          (case hr_json resp of
             Inl _ \<Rightarrow> False
           | Inr j \<Rightarrow> failure_rate_exceeded (json_u64_or_0 (json_member (json_member j ''metrics'') ''verification_success''))
               (json_u64_or_0 (json_member (json_member j ''metrics'') ''verification_failure''))))"

text \<open>The network and Postgres do not touch Redis.\<close>

definition reads_keep :: "'w services \<Rightarrow> ('w \<Rightarrow> string \<Rightarrow> string option) \<Rightarrow> bool" where
  "reads_keep sv val \<longleftrightarrow> (\<forall>u w. val (snd (http_get sv u w)) = val w) \<and> (\<forall>w. val (snd (pg_max_height sv w)) = val w)"

section \<open>Lemmas\<close>

lemma heights_keep:
  assumes "reads_keep sv val"
  shows "val (snd (get_external_burn_height sv ns w)) = val w" and "val (snd (get_processed_height sv w)) = val w"
proof -
  obtain r v where h: "http_get sv (rpc_url ns @ ''/extended/v1/block?limit=1'') w = (r, v)" by fastforce
  have "val v = val w" using assms h unfolding reads_keep_def by (metis snd_conv)
  then show "val (snd (get_external_burn_height sv ns w)) = val w"
    using h by (auto simp: get_external_burn_height_def io_try_def io_lift_def split: sum.split option.split)
  obtain q u where p: "pg_max_height sv w = (q, u)" by fastforce
  have "val u = val w" using assms p unfolding reads_keep_def by (metis snd_conv)
  then show "val (snd (get_processed_height sv w)) = val w"
    using p by (auto simp: get_processed_height_def io_try_def split: sum.split option.split)
qed

lemma ingest_mode:
  assumes "redis_flags sv val" and "reads_keep sv val" and "gateway_url ns = Some url"
    and "ingest_gateway_telemetry sv ns w = (Inr (), w')"
  shows "val w' mode_key = (if gateway_alarm sv url w then Some ''1'' else val w mode_key)"
proof -
  obtain r v where h: "http_get sv (url @ ''/api/v1/state'') w = (r, v)" by fastforce
  have v: "val v = val w" using assms(2) h unfolding reads_keep_def by (metis snd_conv)
  from assms(3,4) h obtain resp where resp: "r = Inr resp" by (cases r) (simp_all add: ingest_gateway_telemetry_def)
  show ?thesis
  proof (cases "gateway_alarm sv url w")
    case True
    then have "io_try (trigger_safety_mode sv 999) (\<lambda>_. io_ok ()) v = (Inr (), w')"
      using assms(3,4) h resp by (auto simp: ingest_gateway_telemetry_def gateway_alarm_def Let_def split: sum.splits)
    then obtain x v' where "trigger_safety_mode sv 999 v = (Inr x, v')" "v' = w'" by (elim io_try_Inr_D) simp
    then show ?thesis using trigger_sets_flag [OF redis_flags_store [OF assms(1)]] True by simp
  next
    case False
    then have "w' = v"
      using assms(3,4) h resp by (cases "hr_json resp") (auto simp: ingest_gateway_telemetry_def gateway_alarm_def Let_def split: if_splits)
    then show ?thesis using False v by simp
  qed
qed

section \<open>Properties\<close>

text \<open>C25: A complete turn of the heartbeat.  When its calls succeed, the safety mode is on afterwards exactly if the chain is ahead by
  more than the allowed drift or the gateway reports an excessive failure rate.  In between, a chain within the drift
  switches the mode off, even if the gateway's alarm of the turn before still stands.\<close>

theorem heartbeat_turn_mode:
  assumes "redis_flags sv val" and "reads_keep sv val" and "gateway_url ns = Some url" and "val w mode_key \<in> {None, Some ''1''}"
    and "get_external_burn_height sv ns w = (Inr current, w1)" and "get_processed_height sv w1 = (Inr processed, w2)"
    and "check_health sv ns w = (Inr (), w3)" and "ingest_gateway_telemetry sv ns w3 = (Inr (), w4)"
  shows "heartbeat_tick sv ns w = w4
    \<and> val w4 mode_key = (if processed + max_drift ns < current \<or> gateway_alarm sv url w3 then Some ''1'' else None)
    \<and> (current \<le> processed + max_drift ns \<longrightarrow> val w3 mode_key = None)"
proof -
  have "val w2 = val w" using heights_keep [OF assms(2)] assms(5,6) by (metis snd_conv)
  then have "val w3 mode_key = (if processed + max_drift ns < current then Some ''1'' else None)"
    using check_health_flag [OF assms(1,5,6) _ assms(7)] assms(4) by simp
  moreover have "heartbeat_tick sv ns w = w4" using assms(3,7,8) by (simp add: heartbeat_tick_def)
  ultimately show ?thesis using ingest_mode [OF assms(1-3,8)] by auto
qed

text \<open>The chain at height 101 and a gateway with 60 failures of 110 verifications.\<close>

definition alarmed_services :: "(string \<Rightarrow> string option) services" where
  "alarmed_services = memory_services\<lparr>http_get := (\<lambda>_. io_ok \<lparr>hr_status = 200,
     hr_json = Inr (JObj [(''results'', JArr [JObj [(''height'', JNum (PosInt 101))]]),
       (''metrics'', JObj [(''verification_success'', JNum (PosInt 50)), (''verification_failure'', JNum (PosInt 60))])]),
     hr_text = Inr []\<rparr>)\<rparr>"

lemma alarmed_services_fields [simp]:
  "redis_connect alarmed_services = io_ok ()" "redis_bool alarmed_services = redis_bool memory_services"
  "redis_pipe alarmed_services = redis_pipe memory_services" "pg_max_height alarmed_services = io_ok (Some (Some 100))"
  by (simp_all add: alarmed_services_def)

theorem heartbeat_turn_mode_witness:
  "\<exists>w3. check_health alarmed_services (safety_new ''http://node'' (Some ''http://gw'')) [mode_key \<mapsto> ''1''] = (Inr (), w3)
     \<and> w3 mode_key = None
     \<and> heartbeat_tick alarmed_services (safety_new ''http://node'' (Some ''http://gw'')) [mode_key \<mapsto> ''1''] mode_key = Some ''1''"
proof -
  let ?ns = "safety_new ''http://node'' (Some ''http://gw'')" and ?w = "[mode_key \<mapsto> ''1'']"
  have ext: "get_external_burn_height alarmed_services ?ns ?w = (Inr 101, ?w)"
    by (simp add: get_external_burn_height_def alarmed_services_def json_member_def)
  have proc: "get_processed_height alarmed_services ?w = (Inr 100, ?w)"
    by (simp add: get_processed_height_def as_u64_nonneg is_i64_def)
  obtain w3 where c: "check_health alarmed_services ?ns ?w = (Inr (), w3)"
    using ext proc by (simp add: check_health_def clear_safety_mode_if_needed_def safety_new_def calculate_drift_def saturating_sub64_eq)
  have rate: "failure_rate_exceeded 50 60" by (subst failure_rate_exceeded_iff) simp_all
  have alarm: "gateway_alarm alarmed_services ''http://gw'' w3"
    using rate by (simp add: gateway_alarm_def alarmed_services_def is_success_def json_member_def json_u64_or_0_def)
  obtain w4 where i: "ingest_gateway_telemetry alarmed_services ?ns w3 = (Inr (), w4)"
    using rate
    by (simp add: ingest_gateway_telemetry_def safety_new_def alarmed_services_def is_success_def json_member_def json_u64_or_0_def
        trigger_safety_mode_def io_try_def)
  have flags: "redis_flags alarmed_services (\<lambda>w. w)" by (simp add: redis_flags_def)
  have keep: "reads_keep alarmed_services (\<lambda>w. w)" by (simp add: reads_keep_def alarmed_services_def)
  have "gateway_url ?ns = Some ''http://gw''" "max_drift ?ns = 2" by (simp_all add: safety_new_def)
  with heartbeat_turn_mode [OF flags keep _ _ ext proc c i] alarm c show ?thesis by auto
qed

text \<open>An outage of the chain's node.  While its height cannot be read, no number of turns of the heartbeat without a gateway changes
  the keys of Redis: the drift goes unmeasured and the safety mode stays as it was.\<close>

theorem heartbeat_outage_keeps_mode:
  assumes "reads_keep sv val" and "gateway_url ns = None" and "\<forall>w. \<exists>e. fst (get_external_burn_height sv ns w) = Inl e"
  shows "val ((heartbeat_tick sv ns ^^ n) w) = val w"
proof -
  have "val (heartbeat_tick sv ns v) = val v" for v
  proof -
    obtain e v' where "get_external_burn_height sv ns v = (Inl e, v')" using assms(3) by (metis prod.collapse)
    then show ?thesis
      using heights_keep(1) [OF assms(1), of ns v] assms(2) by (simp add: heartbeat_tick_def check_health_def)
  qed
  then show ?thesis by (induction n) simp_all
qed

theorem heartbeat_outage_keeps_mode_witness:
  "(heartbeat_tick offline (safety_new ''http://node'' None) ^^ 3) [mode_key \<mapsto> ''1''] = [mode_key \<mapsto> ''1'']"
  by (rule heartbeat_outage_keeps_mode [where val = "\<lambda>w. w"])
    (simp_all add: reads_keep_def offline_def safety_new_def get_external_burn_height_def io_try_def)

end
