(* ===== verification/Startup.thy ===== *)
theory Startup
  imports Surfaces Nexus_Sync Nexus_Config
begin

text \<open>
  What \<^verbatim>\<open>src/main.rs\<close> builds before it spawns its tasks, and the bodies of the tasks it defines itself: the wiring
  from the configuration to the components, with every early return, and the health report.  Connecting, migrating, the
  wallet, the HTTP client and the Nostr library are parameters; tracing has no effect on the components.
\<close>

section \<open>The node\<close>

record 'w startup_env =
  pg_connect :: "string \<Rightarrow> ('w, string, unit) io"
  redis_open :: "string \<Rightarrow> (string, unit) result"
  run_migrations :: "('w, string, unit) io"
  wallet_from_hex :: "string \<Rightarrow> (string, unit) result"
  build_http_client :: "(string, unit) result"
  nostr_library :: "'w nostr_sdk"

record 'w node =
  nd_state :: NexusState
  nd_executor :: NexusExecutor
  nd_tableland_url :: string
  nd_kwil :: "KwilAdapter option"
  nd_nostr :: "'w nostr_client option"
  nd_oracle :: "(string \<times> string) option"  \<comment> \<open>end point and contract of the \<^verbatim>\<open>OracleService\<close>\<close>
  nd_safety :: NexusSafety

definition startup_rgb_mode :: "Config \<Rightarrow> RGBRolloutMode" where
  "startup_rgb_mode cfg = (if experimental_apis_enabled cfg then Shadow else Disabled)"

definition startup_kwil :: "'w startup_env \<Rightarrow> Config \<Rightarrow> (string, KwilAdapter option) result" where
  "startup_kwil se cfg =
     (case (kwil_provider_url cfg, kwil_db_id cfg, kwil_private_key_hex cfg) of
        (Some url, Some db, Some key) \<Rightarrow>
          (case wallet_from_hex se key of
             Inl _ \<Rightarrow> Inl ''Invalid KWIL_PRIVATE_KEY_HEX''
           | Inr _ \<Rightarrow>
               (case build_http_client se of
                  Inl e \<Rightarrow> Inl e
                | Inr _ \<Rightarrow> Inr (Some \<lparr>provider_url = url, db_id = db\<rparr>)))
      | _ \<Rightarrow> Inr None)"

definition startup_nostr :: "'w startup_env \<Rightarrow> Config \<Rightarrow> 'w \<Rightarrow> 'w nostr_client option \<times> 'w" where
  "startup_nostr se cfg w =
     (case nostr_secret_key cfg of
        Some sk \<Rightarrow> (case nostr_telemetry_new (nostr_library se) sk (nostr_relays cfg) w of (Inr n, w') \<Rightarrow> (Some n, w') | (Inl _, w') \<Rightarrow> (None, w'))
      | None \<Rightarrow> (None, w))"

definition startup_oracle :: "Config \<Rightarrow> (string, (string \<times> string) option) result" where
  "startup_oracle cfg =
     (if oracle_enabled cfg then
        res_bind (ok_or (oracle_endpoint_url cfg) ''ORACLE_ENABLED=1 requires ORACLE_ENDPOINT_URL'') (\<lambda>endpoint.
        res_bind (ok_or (oracle_contract_principal cfg) ''ORACLE_ENABLED=1 requires ORACLE_CONTRACT_PRINCIPAL'') (\<lambda>principal.
        Inr (Some (endpoint, principal))))
      else Inr None)"

definition start_node :: "bool \<Rightarrow> environment \<Rightarrow> 'w startup_env \<Rightarrow> Config \<Rightarrow> ('w, string, 'w node) io" where
  "start_node debug env se cfg =
     io_try (storage_from_config debug env (pg_connect se) (redis_open se) cfg) (\<lambda>_.
     io_try (run_migrations se) (\<lambda>_.
     io_lift (startup_kwil se cfg) (\<lambda>kwil.
     io_then (startup_nostr se cfg) (\<lambda>nostr.
     io_lift (startup_oracle cfg) (\<lambda>oracle_service.
     io_ok \<lparr>nd_state = state_new, nd_executor = executor_new (startup_rgb_mode cfg) [],
       nd_tableland_url = tableland_base_url cfg, nd_kwil = kwil, nd_nostr = nostr, nd_oracle = oracle_service,
       nd_safety = safety_new (stacks_node_rpc_url cfg) (cfg_gateway_url cfg)\<rparr>)))))"

text \<open>\<^verbatim>\<open>main\<close> up to the spawning of the tasks; a variable that is not valid Unicode is a panic.\<close>

definition main_startup ::
  "bool \<Rightarrow> (string \<Rightarrow> (string \<times> string) list option) \<Rightarrow> environment \<Rightarrow> 'w startup_env \<Rightarrow> 'w \<Rightarrow> ((string, 'w node) result \<times> 'w) option" where
  "main_startup debug from_str env se w =
     (case from_env debug from_str env of
        Inl Panicked \<Rightarrow> None
      | Inl (Bail _) \<Rightarrow> Some (Inl ''Failed to load configuration'', w)
      | Inr cfg \<Rightarrow> Some (start_node debug env se cfg w))"

text \<open>One turn of the health report; \<open>max_hard_height\<close> is its query, whose failure counts as height 0.\<close>

definition health_report_tick ::
  "'w services \<Rightarrow> ('w, string, i64 option) io \<Rightarrow> 'w nostr_client \<Rightarrow> NexusState \<Rightarrow> 'w \<Rightarrow> 'w" where
  "health_report_tick sv max_hard_height nc s w =
     (case max_hard_height w of (r, w1) \<Rightarrow>
      let height = nat (max (case r of Inr (Some h) \<Rightarrow> h | _ \<Rightarrow> 0) 0) in
      snd (report_health_nostr sv nc ''ALIVE'' height (get_state_root s) w1))"

section \<open>Lemmas\<close>

lemma start_node_ok:
  assumes "start_node debug env se cfg w = (Inr n, w')"
  shows "boundary_check debug env (database_url cfg) (redis_url cfg) = Inr ()" and "nd_state n = state_new"
    and "nd_executor n = executor_new (startup_rgb_mode cfg) []" and "startup_kwil se cfg = Inr (nd_kwil n)"
    and "startup_oracle cfg = Inr (nd_oracle n)"
    and "nd_safety n = safety_new (stacks_node_rpc_url cfg) (cfg_gateway_url cfg)"
proof -
  from assms obtain u w1 v w2 where st: "storage_from_config debug env (pg_connect se) (redis_open se) cfg w = (Inr u, w1)"
    and "run_migrations se w1 = (Inr v, w2)"
    and k: "io_lift (startup_kwil se cfg) (\<lambda>kwil. io_then (startup_nostr se cfg) (\<lambda>nostr.
      io_lift (startup_oracle cfg) (\<lambda>oracle_service.
      io_ok \<lparr>nd_state = state_new, nd_executor = executor_new (startup_rgb_mode cfg) [],
       nd_tableland_url = tableland_base_url cfg, nd_kwil = kwil, nd_nostr = nostr, nd_oracle = oracle_service,
       nd_safety = safety_new (stacks_node_rpc_url cfg) (cfg_gateway_url cfg)\<rparr>))) w2 = (Inr n, w')"
    unfolding start_node_def by (elim io_try_Inr_D)
  show "boundary_check debug env (database_url cfg) (redis_url cfg) = Inr ()"
    using st by (cases "boundary_check debug env (database_url cfg) (redis_url cfg)")
      (simp_all add: storage_from_config_def storage_new_def)
  obtain nc w3 where nc: "startup_nostr se cfg w2 = (nc, w3)" by fastforce
  obtain kw where kw: "startup_kwil se cfg = Inr kw" using k by (cases "startup_kwil se cfg") simp_all
  obtain orc where orc: "startup_oracle cfg = Inr orc" using k kw nc by (cases "startup_oracle cfg") simp_all
  show "nd_state n = state_new" "nd_executor n = executor_new (startup_rgb_mode cfg) []" "startup_kwil se cfg = Inr (nd_kwil n)"
    "startup_oracle cfg = Inr (nd_oracle n)" "nd_safety n = safety_new (stacks_node_rpc_url cfg) (cfg_gateway_url cfg)"
    using k kw orc nc by auto
qed

lemma startup_oracle_iff: "startup_oracle cfg = Inr orc \<Longrightarrow> orc \<noteq> None \<longleftrightarrow> oracle_enabled cfg"
  by (auto simp: startup_oracle_def res_bind_Inr_iff split: if_splits)

lemma startup_rgb_answers:
  assumes "rgb_adapter ex = rgb_with_known (startup_rgb_mode cfg) []" and "validate_contract_id cid = Inr schema"
  shows "api_status (get_rgb_contract ex cid) = (if experimental_apis_enabled cfg then 200 else 500)"
  using assms by (simp add: get_rgb_contract_def lookup_contract_def startup_rgb_mode_def rgb_with_known_def)

section \<open>Properties\<close>

text \<open>A node that starts.  It has passed the storage boundary with the URLs of its configuration; its tracker is empty and
  reachable; an oracle service exists exactly when it is enabled and Kwil only when all three settings are present; the
  safety monitor allows a drift of 2 blocks.  Its RGB adapter is never in active mode: the contract
  endpoint answers 200 for every identifier of the right form when the experimental interfaces are on, although no
  contract is known, and 500 for each of them when they are off.\<close>

theorem started_node:
  assumes "main_startup debug from_str env se w = Some (Inr n, w')"
  shows "\<exists>cfg. from_env debug from_str env = Inr cfg
    \<and> boundary_check debug env (database_url cfg) (redis_url cfg) = Inr ()
    \<and> nexus_reachable H (nd_state n) \<and> leaves (nd_state n) = []
    \<and> (nd_oracle n \<noteq> None \<longleftrightarrow> oracle_enabled cfg)
    \<and> (nd_kwil n \<noteq> None \<longrightarrow> kwil_provider_url cfg \<noteq> None \<and> kwil_db_id cfg \<noteq> None \<and> kwil_private_key_hex cfg \<noteq> None)
    \<and> max_drift (nd_safety n) = 2
    \<and> (\<forall>cid schema. validate_contract_id cid = Inr schema \<longrightarrow>
         api_status (get_rgb_contract (nd_executor n) cid) = (if experimental_apis_enabled cfg then 200 else 500))"
proof -
  from assms obtain cfg where cfg: "from_env debug from_str env = Inr cfg" and s: "start_node debug env se cfg w = (Inr n, w')"
    by (auto simp: main_startup_def split: sum.splits config_error.splits)
  note o = start_node_ok [OF s]
  have "nd_kwil n \<noteq> None \<longrightarrow> kwil_provider_url cfg \<noteq> None \<and> kwil_db_id cfg \<noteq> None \<and> kwil_private_key_hex cfg \<noteq> None"
    using o(4) by (auto simp: startup_kwil_def split: option.splits sum.splits)
  moreover have "rgb_adapter (nd_executor n) = rgb_with_known (startup_rgb_mode cfg) []"
    by (simp add: o(3) executor_new_def)
  ultimately show ?thesis
    using cfg o nexus_reachable.fresh startup_oracle_iff startup_rgb_answers
    by (intro exI [of _ cfg] conjI allI impI) (auto simp: state_new_def)
qed

text \<open>A start in which every connection succeeds.\<close>

definition willing :: "'w startup_env" where
  "willing = \<lparr>pg_connect = (\<lambda>_. io_ok ()), redis_open = (\<lambda>_. Inr ()), run_migrations = io_ok (),
     wallet_from_hex = (\<lambda>_. Inr ()), build_http_client = Inr (), 
     nostr_library = \<lparr>parse_keys = Inr, to_bech32 = Inr, build_client = (\<lambda>_. \<lparr>json_text = (\<lambda>_. []), send_event = (\<lambda>_ _. io_ok [])\<rparr>),
       add_relay = (\<lambda>_. io_ok ()), connect_relays = (\<lambda>w. w)\<rparr>\<rparr>"

lemma sample_boundary:
  "boundary_check False sample_env_vars ''postgres://u:p@db/nexus'' ''redis://:p@cache'' = Inr ()"
  by (simp add: boundary_check_def is_local_def redis_unauthenticated_def pg_unauthenticated_def contains_char
      find_char_def position_def starts_with_def)

lemma willing_starts:
  fixes w :: 'w
  obtains n where "main_startup False (\<lambda>_. None) sample_env_vars willing w = Some (Inr n, w)" "nd_nostr n = None"
    "latest_event_time_cache (nd_executor n) = None"
proof -
  let ?cfg = "config_of sample_env_vars ''postgres://u:p@db/nexus'' ''redis://:p@cache'' [] [] 3000 50051"
  let ?se = "willing :: 'w startup_env"
  have off: "startup_kwil ?se ?cfg = Inr None" "startup_oracle ?cfg = Inr None" "startup_nostr ?se ?cfg w = (None, w)"
    by (simp_all add: startup_kwil_def startup_oracle_def startup_nostr_def config_of_def env_nonempty_def env_flag_def env_var_def
        sample_env_vars_def)
  have "storage_from_config False sample_env_vars (pg_connect ?se) (redis_open ?se) ?cfg w = (Inr (), w)"
    using sample_boundary by (simp add: storage_from_config_def storage_new_def config_of_def willing_def)
  moreover have "run_migrations ?se w = (Inr (), w)" by (simp add: willing_def)
  ultimately obtain n where "start_node False sample_env_vars willing ?cfg w = (Inr n, w)" "nd_nostr n = None"
    using off by (simp add: start_node_def)
  then show ?thesis
    by (intro that [of n]) (simp_all add: main_startup_def sample_from_env start_node_ok(3) executor_new_def)
qed

theorem started_node_witness:
  "\<exists>n w'. main_startup False (\<lambda>_. None) sample_env_vars willing () = Some (Inr n, w')
     \<and> max_drift (nd_safety n) = 2 \<and> leaves (nd_state n) = [] \<and> nd_oracle n = None"
proof -
  let ?cfg = "config_of sample_env_vars ''postgres://u:p@db/nexus'' ''redis://:p@cache'' [] [] 3000 50051"
  obtain n where run: "main_startup False (\<lambda>_. None) sample_env_vars willing () = Some (Inr n, ())" by (rule willing_starts)
  have off: "\<not> oracle_enabled ?cfg" by (simp add: config_of_def env_flag_def env_var_def sample_env_vars_def)
  from started_node [OF run, of sampleH] sample_from_env
  have s: "max_drift (nd_safety n) = 2" "leaves (nd_state n) = []" "nd_oracle n \<noteq> None \<longleftrightarrow> oracle_enabled ?cfg" by simp_all
  have "nd_oracle n = None" using s(3) off by blast
  with s run show ?thesis by blast
qed

end
