(* ===== verification/Doubles.thy ===== *)
theory Doubles
  imports Nexus_Text
begin

text \<open>
  The type \<^verbatim>\<open>f64\<close> with the operations that the oracle uses.  A double is not a number, an infinity, or a sign and a rational
  magnitude; arithmetic is exact on rationals and then rounded to 53 bits, ties to even, with gradual underflow below
  \<open>2 ^ -1022\<close> and overflow to infinity at \<open>2 ^ 1024\<close>.  Everything computes.
\<close>

section \<open>Powers and rounding\<close>

definition pow2 :: "int \<Rightarrow> rat" where
  "pow2 k = (if 0 \<le> k then 2 ^ nat k else 1 / 2 ^ nat (- k))"

text \<open>The exponent of a positive rational.\<close>

definition rat_log2 :: "rat \<Rightarrow> int" where
  "rat_log2 x = (case quotient_of x of (n, d) \<Rightarrow>
     let l = int (ilog2 (nat n)) - int (ilog2 (nat d)) in if pow2 l \<le> x then l else l - 1)"

definition rne :: "rat \<Rightarrow> int" where
  "rne y = (let k = \<lfloor>y\<rfloor>; r = y - of_int k in
     if r < 1 / 2 then k else if 1 / 2 < r then k + 1 else if even k then k else k + 1)"

text \<open>The exponent of the last place of a result.\<close>

definition last_place :: "int \<Rightarrow> int" where
  "last_place e = max (e - 52) (- 1074)"

datatype f64 = NaN | Infinite bool | Fin bool rat  \<comment> \<open>true is the negative sign\<close>

definition finish :: "bool \<Rightarrow> rat \<Rightarrow> f64" where
  "finish s y = (if y < pow2 1024 then Fin s y else Infinite s)"

definition round_f64 :: "bool \<Rightarrow> rat \<Rightarrow> f64" where
  "round_f64 s x =
     (if x = 0 then Fin s 0
      else let q = last_place (rat_log2 x) in finish s (of_int (rne (x / pow2 q)) * pow2 q))"

section \<open>Operations\<close>

definition signed :: "bool \<Rightarrow> rat \<Rightarrow> rat" where
  "signed s x = (if s then - x else x)"

definition of_exact :: "rat \<Rightarrow> f64" where
  "of_exact r = round_f64 (r < 0) \<bar>r\<bar>"

fun fneg :: "f64 \<Rightarrow> f64" where
  "fneg NaN = NaN" | "fneg (Infinite s) = Infinite (\<not> s)" | "fneg (Fin s x) = Fin (\<not> s) x"

fun f64_abs :: "f64 \<Rightarrow> f64" where
  "f64_abs NaN = NaN" | "f64_abs (Infinite s) = Infinite False" | "f64_abs (Fin s x) = Fin False x"

fun fadd :: "f64 \<Rightarrow> f64 \<Rightarrow> f64" where
  "fadd NaN _ = NaN"
| "fadd _ NaN = NaN"
| "fadd (Infinite s) (Infinite t) = (if s = t then Infinite s else NaN)"
| "fadd (Infinite s) (Fin t y) = Infinite s"
| "fadd (Fin s x) (Infinite t) = Infinite t"
| "fadd (Fin s x) (Fin t y) =
     (let r = signed s x + signed t y in if r = 0 then Fin (s \<and> t) 0 else of_exact r)"

definition fsub :: "f64 \<Rightarrow> f64 \<Rightarrow> f64" where
  "fsub a b = fadd a (fneg b)"

fun fmul :: "f64 \<Rightarrow> f64 \<Rightarrow> f64" where
  "fmul NaN _ = NaN"
| "fmul _ NaN = NaN"
| "fmul (Infinite s) (Infinite t) = Infinite (s \<noteq> t)"
| "fmul (Infinite s) (Fin t y) = (if y = 0 then NaN else Infinite (s \<noteq> t))"
| "fmul (Fin s x) (Infinite t) = (if x = 0 then NaN else Infinite (s \<noteq> t))"
| "fmul (Fin s x) (Fin t y) = round_f64 (s \<noteq> t) (x * y)"

fun fdiv :: "f64 \<Rightarrow> f64 \<Rightarrow> f64" where
  "fdiv NaN _ = NaN"
| "fdiv _ NaN = NaN"
| "fdiv (Infinite s) (Infinite t) = NaN"
| "fdiv (Infinite s) (Fin t y) = Infinite (s \<noteq> t)"
| "fdiv (Fin s x) (Infinite t) = Fin (s \<noteq> t) 0"
| "fdiv (Fin s x) (Fin t y) =
     (if y = 0 then if x = 0 then NaN else Infinite (s \<noteq> t) else round_f64 (s \<noteq> t) (x / y))"

fun flt :: "f64 \<Rightarrow> f64 \<Rightarrow> bool" where
  "flt NaN _ = False"
| "flt _ NaN = False"
| "flt (Infinite s) (Infinite t) = (s \<and> \<not> t)"
| "flt (Infinite s) (Fin t y) = s"
| "flt (Fin s x) (Infinite t) = (\<not> t)"
| "flt (Fin s x) (Fin t y) = (signed s x < signed t y)"

text \<open>\<^verbatim>\<open>f64::min\<close> ignores an operand that is not a number.\<close>

definition fmin :: "f64 \<Rightarrow> f64 \<Rightarrow> f64" where
  "fmin a b = (if a = NaN then b else if b = NaN then a else if flt b a then b else a)"

text \<open>The integer square root, and the square root rounded to an integer.\<close>

fun isqrt :: "nat \<Rightarrow> nat" where
  "isqrt n = (if n = 0 then 0 else let r = 2 * isqrt (n div 4) in if (r + 1) * (r + 1) \<le> n then r + 1 else r)"

declare isqrt.simps [simp del]

definition rne_sqrt :: "rat \<Rightarrow> int" where
  "rne_sqrt y =
     (let k = int (isqrt (nat \<lfloor>y\<rfloor>)); h = (of_int k + 1 / 2) * (of_int k + 1 / 2) in
      if y < h then k else if h < y then k + 1 else if even k then k else k + 1)"

fun fsqrt :: "f64 \<Rightarrow> f64" where
  "fsqrt NaN = NaN"
| "fsqrt (Infinite s) = (if s then NaN else Infinite False)"
| "fsqrt (Fin s x) =
     (if x = 0 then Fin s 0
      else if s then NaN
      else let q = last_place (rat_log2 x div 2) in finish False (of_int (rne_sqrt (x / (pow2 q * pow2 q))) * pow2 q))"

definition fsum :: "f64 list \<Rightarrow> f64" where
  "fsum xs = foldl fadd (Fin False 0) xs"

section \<open>Lemmas\<close>

lemma pow2_pos [simp]: "0 < pow2 k" "0 \<le> pow2 k" "pow2 k \<noteq> 0"
  by (simp_all add: pow2_def)

lemma pow2_add: "pow2 (j + k) = pow2 j * pow2 k"
proof -
  have *: "pow2 k = 2 powi k" for k
    by (simp add: pow2_def power_int_def inverse_eq_divide power_one_over)
  show ?thesis unfolding * by (simp add: power_int_add)
qed

lemma pow2_nat: "pow2 (int n) = 2 ^ n" "pow2 (- int n) = 1 / 2 ^ n"
  by (simp_all add: pow2_def)

lemma pow2_mono: "j \<le> k \<Longrightarrow> pow2 j \<le> pow2 k"
proof -
  assume "j \<le> k"
  then obtain n where n: "k = j + int n" by (metis zle_iff_zadd)
  have "1 \<le> pow2 (int n)" by (simp add: pow2_nat)
  then show ?thesis unfolding n pow2_add using mult_left_mono [of 1 "pow2 (int n)" "pow2 j"] by simp
qed

lemma pow2_less: "pow2 j < pow2 k \<Longrightarrow> j < k"
  by (metis linorder_not_le pow2_mono)

lemma pow2_Suc: "pow2 (k + 1) = 2 * pow2 k"
  by (simp add: pow2_add) (simp add: pow2_def)

lemma rat_log2_bounds:
  assumes "0 < x"
  shows "pow2 (rat_log2 x) \<le> x" and "x < pow2 (rat_log2 x + 1)"
proof -
  obtain n d where q: "quotient_of x = (n, d)" by fastforce
  have d: "0 < d" using q quotient_of_denom_pos by blast
  have x: "x = of_int n / of_int d" using q by (rule quotient_of_div)
  then have n: "0 < n" using assms d by (simp add: zero_less_divide_iff)
  define a b where "a = ilog2 (nat n)" and "b = ilog2 (nat d)"
  define l where "l = int a - int b"
  have na: "2 ^ a \<le> nat n" "nat n < 2 ^ Suc a" and db: "2 ^ b \<le> nat d" "nat d < 2 ^ Suc b"
    using n d ilog2_le [of "nat n"] ilog2_less [of "nat n"] ilog2_le [of "nat d"] ilog2_less [of "nat d"]
    by (simp_all add: a_def b_def)
  have N: "(2 :: rat) ^ a \<le> of_int n" "of_int n < (2 :: rat) ^ Suc a"
    using na n of_nat_le_iff [of "2 ^ a" "nat n", where ?'a = rat] of_nat_less_iff [of "nat n" "2 ^ Suc a", where ?'a = rat]
    by simp_all
  have D: "(2 :: rat) ^ b \<le> of_int d" "of_int d < (2 :: rat) ^ Suc b"
    using db d of_nat_le_iff [of "2 ^ b" "nat d", where ?'a = rat] of_nat_less_iff [of "nat d" "2 ^ Suc b", where ?'a = rat]
    by simp_all
  have l: "pow2 l = 2 ^ a / 2 ^ b"
    using pow2_add [of "int a" "- int b"] by (simp add: l_def pow2_nat)
  have "x < 2 ^ Suc a / 2 ^ b" unfolding x using N D d n by (intro frac_less) simp_all
  then have up: "x < pow2 (l + 1)" by (simp add: pow2_Suc l)
  have "2 ^ a / 2 ^ Suc b \<le> x" unfolding x using N D d n by (intro frac_le) simp_all
  then have lo: "pow2 (l - 1) \<le> x" using pow2_Suc [of "l - 1"] by (simp add: l)
  have "rat_log2 x = (if pow2 l \<le> x then l else l - 1)" using q by (simp add: rat_log2_def l_def a_def b_def Let_def)
  then show "pow2 (rat_log2 x) \<le> x" "x < pow2 (rat_log2 x + 1)" using up lo by (auto simp: not_le)
qed

lemma rat_log2_eq:
  assumes "pow2 l \<le> x" and "x < 2 * pow2 l"
  shows "rat_log2 x = l"
proof -
  have x: "0 < x" using assms(1) less_le_trans [OF pow2_pos(1)] by blast
  have "pow2 l < pow2 (rat_log2 x + 1)" "pow2 (rat_log2 x) < pow2 (l + 1)"
    using assms rat_log2_bounds [OF x] by (simp_all add: pow2_Suc)
  then have "l < rat_log2 x + 1" "rat_log2 x < l + 1" by (simp_all only: pow2_less)
  then show ?thesis by simp
qed

lemma rne_error: "\<bar>of_int (rne y) - y\<bar> \<le> 1 / 2"
proof -
  define r where "r = y - of_int \<lfloor>y\<rfloor>"
  have "0 \<le> r" "r < 1" unfolding r_def by linarith+
  moreover have "of_int (rne y) - y = (if r < 1 / 2 then - r else if 1 / 2 < r then 1 - r else if even \<lfloor>y\<rfloor> then - r else 1 - r)"
    by (simp add: rne_def Let_def r_def)
  ultimately show ?thesis by auto
qed

lemma rne_le: "y \<le> of_int n \<Longrightarrow> rne y \<le> n"
proof (cases "y = of_int n")
  case False
  assume "y \<le> of_int n"
  with False have "y < of_int n" by simp
  then have "\<lfloor>y\<rfloor> + 1 \<le> n" using floor_less_iff [of y n] by linarith
  then show ?thesis by (auto simp: rne_def Let_def)
qed (simp add: rne_def)

lemma rne_nonneg: "0 \<le> y \<Longrightarrow> 0 \<le> rne y"
proof -
  assume "0 \<le> y"
  then have "0 \<le> \<lfloor>y\<rfloor>" by simp
  then show ?thesis by (auto simp: rne_def Let_def)
qed

section \<open>Rounding errors\<close>

abbreviation unit_roundoff :: rat where "unit_roundoff \<equiv> 1 / 9007199254740992"  \<comment> \<open>\<open>2 ^ -53\<close>\<close>

lemma pow2_roundoff: "pow2 (- 53) = unit_roundoff"
  by (simp add: pow2_def)

definition rounded :: "rat \<Rightarrow> rat" where
  "rounded x = (let q = last_place (rat_log2 x) in of_int (rne (x / pow2 q)) * pow2 q)"

lemma round_f64_rounded: "x \<noteq> 0 \<Longrightarrow> round_f64 s x = finish s (rounded x)"
  by (simp add: round_f64_def rounded_def Let_def)

lemma rounded_half_ulp: "\<bar>rounded x - x\<bar> \<le> pow2 (last_place (rat_log2 x)) / 2"
proof -
  define p where "p = pow2 (last_place (rat_log2 x))"
  have "0 < p" by (simp add: p_def)
  have "rounded x - x = (of_int (rne (x / p)) - x / p) * p"
    using \<open>0 < p\<close> by (simp add: rounded_def Let_def p_def field_simps)
  then have "\<bar>rounded x - x\<bar> = \<bar>of_int (rne (x / p)) - x / p\<bar> * p"
    using \<open>0 < p\<close> by (simp add: abs_mult)
  also have "\<dots> \<le> 1 / 2 * p" using rne_error [of "x / p"] \<open>0 < p\<close> by (intro mult_right_mono) simp_all
  finally show ?thesis by (simp add: p_def)
qed

lemma rounded_error:
  assumes "0 < x"
  shows "\<bar>rounded x - x\<bar> \<le> x * unit_roundoff + pow2 (- 1075)"
proof -
  let ?e = "rat_log2 x"
  have le: "pow2 (last_place ?e) \<le> pow2 (?e - 52) + pow2 (- 1074)"
    by (cases "?e - 52 \<le> - 1074") (simp_all add: last_place_def max_def add_increasing add_increasing2)
  have "pow2 (?e - 52) = 2 * (pow2 ?e * unit_roundoff)"
    using pow2_add [of ?e "- 53"] pow2_Suc [of "?e - 53"] by (simp add: pow2_roundoff)
  moreover have "pow2 (- 1074) = 2 * pow2 (- 1075)" using pow2_Suc [of "- 1075"] by simp
  ultimately have "pow2 (last_place ?e) / 2 \<le> pow2 ?e * unit_roundoff + pow2 (- 1075)" using le by simp
  also have "\<dots> \<le> x * unit_roundoff + pow2 (- 1075)" using rat_log2_bounds(1) [OF assms] by simp
  finally show ?thesis using rounded_half_ulp [of x] by linarith
qed

lemma rounded_relative:
  assumes "pow2 (- 1022) \<le> x"
  shows "\<bar>rounded x - x\<bar> \<le> x * unit_roundoff"
proof -
  have x: "0 < x" using assms less_le_trans [OF pow2_pos(1)] by blast
  let ?e = "rat_log2 x"
  have "pow2 (- 1022) < pow2 (?e + 1)" using assms rat_log2_bounds(2) [OF x] by linarith
  then have "- 1022 < ?e + 1" by (rule pow2_less)
  then have q: "last_place ?e = ?e - 52" by (simp add: last_place_def)
  have "pow2 (?e - 52) = 2 * (pow2 ?e * unit_roundoff)"
    using pow2_add [of ?e "- 53"] pow2_Suc [of "?e - 53"] by (simp add: pow2_roundoff)
  then have "pow2 (last_place ?e) / 2 \<le> x * unit_roundoff" using rat_log2_bounds(1) [OF x] by (simp add: q)
  then show ?thesis using rounded_half_ulp [of x] by linarith
qed

lemma rounded_le_pow2:
  assumes "0 < x" and "x \<le> pow2 k" and "- 1074 \<le> k"
  shows "rounded x \<le> pow2 k"
proof -
  define q where "q = last_place (rat_log2 x)"
  have "pow2 (rat_log2 x) \<le> pow2 k" using rat_log2_bounds(1) [OF assms(1)] assms(2) by linarith
  then have "rat_log2 x \<le> k" using pow2_less [of k "rat_log2 x"] pow2_mono [of "k" "rat_log2 x"] pow2_mono [of "k + 1" "rat_log2 x"]
      pow2_Suc [of k] pow2_pos(1) [of k] by linarith
  then have "q \<le> k" using assms(3) by (simp add: q_def last_place_def)
  then have k: "pow2 k = 2 ^ nat (k - q) * pow2 q"
    using pow2_add [of "k - q" q] by (simp add: pow2_def [of "k - q"])
  then have "x / pow2 q \<le> of_int (2 ^ nat (k - q))" using assms(2) by (simp add: divide_le_eq)
  then have "of_int (rne (x / pow2 q)) \<le> (2 :: rat) ^ nat (k - q)"
    using of_int_le_iff [of "rne (x / pow2 q)" "2 ^ nat (k - q)", where ?'a = rat] rne_le by simp
  then have "of_int (rne (x / pow2 q)) * pow2 q \<le> 2 ^ nat (k - q) * pow2 q" by (rule mult_right_mono) simp
  then show ?thesis by (simp add: rounded_def Let_def k q_def)
qed

lemma rounded_nonneg: "0 \<le> x \<Longrightarrow> 0 \<le> rounded x"
  by (simp add: rounded_def Let_def rne_nonneg)

lemma round_f64_fin:
  assumes "0 \<le> x" and "x \<le> pow2 1023"
  shows "round_f64 s x = Fin s (if x = 0 then 0 else rounded x)"
proof -
  have "pow2 1023 < pow2 1024" using pow2_Suc [of 1023] pow2_pos(1) [of 1023] by simp
  moreover have "x \<noteq> 0 \<Longrightarrow> rounded x \<le> pow2 1023" using assms by (intro rounded_le_pow2) simp_all
  ultimately show ?thesis by (cases "x = 0") (simp add: round_f64_def, simp add: round_f64_rounded finish_def)
qed

text \<open>A positive double within a relative error \<open>e\<close> of an exact value.\<close>

definition near :: "rat \<Rightarrow> rat \<Rightarrow> f64 \<Rightarrow> bool" where
  "near e r x \<longleftrightarrow> (\<exists>y. x = Fin False y \<and> r * (1 - e) \<le> y \<and> y \<le> r * (1 + e))"

lemma near_exact: "near 0 r (Fin False r)"
  by (simp add: near_def)

lemma near_weaken: "near e r x \<Longrightarrow> e \<le> e' \<Longrightarrow> 0 \<le> r \<Longrightarrow> near e' r x"
  unfolding near_def
  by (elim exE conjE, rule exI, intro conjI, assumption)
    (erule order_trans [rotated], simp add: mult_left_mono, erule order_trans, simp add: mult_left_mono)

lemma near_round:
  assumes "r * (1 - e) \<le> z" and "z \<le> r * (1 + e)" and "0 \<le> r" and "0 \<le> e" and "e \<le> 1"
    and "z = 0 \<or> pow2 (- 1022) \<le> z" and "z \<le> pow2 1023"
  shows "near (e + 2 * unit_roundoff) r (round_f64 False z)"
proof (cases "z = 0")
  case True
  have "r * (1 - e - 2 * unit_roundoff) \<le> r * (1 - e)" using assms(3) by (intro mult_left_mono) simp_all
  then have "r * (1 - e - 2 * unit_roundoff) \<le> 0" using assms(1) True by simp
  moreover have "0 \<le> r * (1 + (e + 2 * unit_roundoff))" using assms(3,4) by simp
  ultimately show ?thesis using True by (simp add: round_f64_def near_def algebra_simps)
next
  case False
  then have low: "pow2 (- 1022) \<le> z" using assms(6) by simp
  then have z: "0 < z" using less_le_trans [OF pow2_pos(1)] by blast
  have "\<bar>rounded z - z\<bar> \<le> z * unit_roundoff" using low by (rule rounded_relative)
  then have y: "z * (1 - unit_roundoff) \<le> rounded z" "rounded z \<le> z * (1 + unit_roundoff)"
    unfolding right_diff_distrib distrib_left by linarith+
  have "r * (1 - (e + 2 * unit_roundoff)) \<le> r * ((1 - e) * (1 - unit_roundoff))"
    using assms(3-5) by (intro mult_left_mono) (simp_all add: algebra_simps)
  also have "\<dots> \<le> z * (1 - unit_roundoff)"
    using mult_right_mono [OF assms(1), of "1 - unit_roundoff"] by (simp add: mult.assoc)
  finally have lo: "r * (1 - (e + 2 * unit_roundoff)) \<le> rounded z" using y(1) by linarith
  have "z * (1 + unit_roundoff) \<le> r * ((1 + e) * (1 + unit_roundoff))"
    using mult_right_mono [OF assms(2), of "1 + unit_roundoff"] by (simp add: mult.assoc)
  also have "\<dots> \<le> r * (1 + (e + 2 * unit_roundoff))"
    using assms(3-5) by (intro mult_left_mono) (simp_all add: algebra_simps)
  finally have "rounded z \<le> r * (1 + (e + 2 * unit_roundoff))" using y(2) by linarith
  with lo show ?thesis using round_f64_fin [of z False] z assms(7) by (simp add: near_def)
qed

lemma fadd_pos: "0 \<le> a \<Longrightarrow> 0 \<le> b \<Longrightarrow> fadd (Fin False a) (Fin False b) = round_f64 False (a + b)"
  by (auto simp: signed_def of_exact_def round_f64_def Let_def)

text \<open>Values far from both ends of the exponent range.\<close>

definition moderate :: "rat \<Rightarrow> bool" where
  "moderate r \<longleftrightarrow> pow2 (- 1020) \<le> r \<and> r \<le> pow2 1020"

lemma moderate_pos: "moderate r \<Longrightarrow> 0 < r"
  unfolding moderate_def using less_le_trans [OF pow2_pos(1)] by blast

lemma near_round_moderate:
  assumes "near e r (Fin False z)" and "0 \<le> e" and "e \<le> 1 / 2" and "r = 0 \<or> moderate r"
  shows "near (e + 2 * unit_roundoff) r (round_f64 False z)"
proof (rule near_round)
  show b: "r * (1 - e) \<le> z" "z \<le> r * (1 + e)" using assms(1) by (simp_all add: near_def)
  show r: "0 \<le> r" using assms(4) moderate_pos [of r] by auto
  have two: "r * (1 / 2) \<le> r * (1 - e)" "r * (1 + e) \<le> r * 2" using r assms(3) by (intro mult_left_mono; simp)+
  have p: "pow2 (- 1021) = 2 * pow2 (- 1022)" "pow2 (- 1020) = 2 * pow2 (- 1021)" "pow2 1021 = 2 * pow2 1020"
    "pow2 1022 = 2 * pow2 1021" "pow2 1023 = 2 * pow2 1022"
    using pow2_Suc [of "- 1022"] pow2_Suc [of "- 1021"] pow2_Suc [of 1020] pow2_Suc [of 1021] pow2_Suc [of 1022] by simp_all
  have pos: "0 < pow2 (- 1022)" "0 < pow2 1020" by simp_all
  show "z = 0 \<or> pow2 (- 1022) \<le> z"
    using assms(4) b two p pos unfolding moderate_def by auto
  have "r \<le> pow2 1020" using assms(4) pos unfolding moderate_def by auto
  then show "z \<le> pow2 1023" using b(2) two(2) p pos(2) by linarith
qed (use assms in simp_all)

lemma near_add:
  assumes "near e a x" and "near e b y" and "0 \<le> a" and "0 \<le> b" and "0 \<le> e" and "e \<le> 1 / 2" and "a + b = 0 \<or> moderate (a + b)"
  shows "near (e + 2 * unit_roundoff) (a + b) (fadd x y)"
proof -
  obtain x' y' where x: "x = Fin False x'" "a * (1 - e) \<le> x'" "x' \<le> a * (1 + e)"
    and y: "y = Fin False y'" "b * (1 - e) \<le> y'" "y' \<le> b * (1 + e)" using assms(1,2) unfolding near_def by blast
  have "0 \<le> a * (1 - e)" "0 \<le> b * (1 - e)" using assms(3-6) by simp_all
  then have "0 \<le> x'" "0 \<le> y'" using x y by linarith+
  moreover have "near e (a + b) (Fin False (x' + y'))" using x y by (simp add: near_def distrib_right add_mono)
  ultimately show ?thesis
    unfolding x(1) y(1) using near_round_moderate assms(5-7) by (subst fadd_pos) simp_all
qed

lemma near_mul_exact:
  assumes "near e a x" and "0 \<le> e" and "e \<le> 1 / 2" and "0 < w" and "moderate (a * w)"
  shows "near (e + 2 * unit_roundoff) (a * w) (fmul x (Fin False w))"
proof -
  obtain x' where x: "x = Fin False x'" "a * (1 - e) \<le> x'" "x' \<le> a * (1 + e)" using assms(1) unfolding near_def by blast
  have "near e (a * w) (Fin False (x' * w))"
    using mult_right_mono [OF x(2), of w] mult_right_mono [OF x(3), of w] assms(4) by (simp add: near_def ac_simps)
  then show ?thesis using near_round_moderate assms(2,3,5) by (simp add: x)
qed

lemma near_div_exact:
  assumes "near e a x" and "0 \<le> e" and "e \<le> 1 / 2" and "0 < w" and "moderate (a / w)"
  shows "near (e + 2 * unit_roundoff) (a / w) (fdiv x (Fin False w))"
proof -
  obtain x' where x: "x = Fin False x'" "a * (1 - e) \<le> x'" "x' \<le> a * (1 + e)" using assms(1) unfolding near_def by blast
  have "near e (a / w) (Fin False (x' / w))"
    using divide_right_mono [OF x(2), of w] divide_right_mono [OF x(3), of w] assms(4) by (simp add: near_def)
  then show ?thesis using near_round_moderate assms(2-5) by (simp add: x)
qed

text \<open>Summing \<open>n\<close> terms adds one rounding per term.\<close>

lemma near_foldl:
  assumes "list_all2 (near e) rs xs" and "near e' a acc" and "e \<le> e'" and "0 \<le> a" and "\<forall>r \<in> set rs. 0 < r"
    and "0 \<le> e'" and "e' + of_nat (length rs) * (2 * unit_roundoff) \<le> 1 / 2"
    and "\<forall>k. 0 < k \<and> k \<le> length rs \<longrightarrow> moderate (a + sum_list (take k rs))"
  shows "near (e' + of_nat (length rs) * (2 * unit_roundoff)) (a + sum_list rs) (foldl fadd acc xs)"
  using assms
proof (induction rs xs arbitrary: a acc e' rule: list_all2_induct)
  case (Cons r rs x xs)
  have "0 \<le> of_nat (length (r # rs)) * (2 * unit_roundoff)" by simp
  then have small: "e' \<le> 1 / 2" using Cons.prems(6) by linarith
  have r: "0 < r" using Cons.prems(4) by simp
  have "moderate (a + r)" using Cons.prems(7) by (elim allE [of _ 1]) simp
  then have "near (e' + 2 * unit_roundoff) (a + r) (fadd acc x)"
    using Cons.prems Cons.hyps small r near_weaken [of e r x e'] by (intro near_add) auto
  then have "near ((e' + 2 * unit_roundoff) + of_nat (length rs) * (2 * unit_roundoff)) (a + r + sum_list rs)
      (foldl fadd (fadd acc x) xs)"
  proof (rule Cons.IH)
    show "\<forall>k. 0 < k \<and> k \<le> length rs \<longrightarrow> moderate (a + r + sum_list (take k rs))"
    proof (intro allI impI)
      fix k assume "0 < k \<and> k \<le> length rs"
      then show "moderate (a + r + sum_list (take k rs))" using Cons.prems(7) by (elim allE [of _ "Suc k"]) (simp add: add.assoc)
    qed
  qed (use Cons.prems r in \<open>simp_all add: field_simps\<close>)
  then show ?case by (simp add: add_divide_distrib add.assoc)
qed simp

section \<open>Relative differences\<close>

text \<open>\<^verbatim>\<open>(v - m).abs() / m\<close>, as the oracle compares two rates.\<close>

definition rel_diff :: "f64 \<Rightarrow> f64 \<Rightarrow> f64" where
  "rel_diff v m = fdiv (f64_abs (fsub v m)) m"

lemma round_f64_cases:
  assumes "0 \<le> x"
  obtains (Over) "round_f64 s x = Infinite s" "pow2 1023 < x"
    | (Value) y where "round_f64 s x = Fin s y" "x * (1 - unit_roundoff) - pow2 (- 1075) \<le> y"
        "y \<le> x * (1 + unit_roundoff) + pow2 (- 1075)" "0 \<le> y"
proof (cases "x = 0")
  case True
  then show ?thesis using Value [of 0] by (simp add: round_f64_def)
next
  case False
  then have x: "0 < x" using assms by simp
  have e: "x * (1 - unit_roundoff) - pow2 (- 1075) \<le> rounded x" "rounded x \<le> x * (1 + unit_roundoff) + pow2 (- 1075)"
    using rounded_error [OF x] unfolding right_diff_distrib distrib_left by linarith+
  show ?thesis
  proof (cases "rounded x < pow2 1024")
    case True
    then show ?thesis using Value [of "rounded x"] e rounded_nonneg [of x] x by (simp add: round_f64_rounded finish_def)
  next
    case False
    moreover have "pow2 1023 < x"
      using False round_f64_fin [of x s] x by (auto simp: round_f64_rounded finish_def not_less [symmetric])
    ultimately show ?thesis using Over x by (simp add: round_f64_rounded finish_def)
  qed
qed

lemma f64_abs_round: "f64_abs (round_f64 s x) = round_f64 False x"
  by (simp add: round_f64_def finish_def Let_def)

lemma abs_sub: "f64_abs (fsub (Fin s a) (Fin t b)) = round_f64 False \<bar>signed s a - signed t b\<bar>"
proof -
  have "signed s a + signed (\<not> t) b = signed s a - signed t b" by (simp add: signed_def)
  then show ?thesis by (simp add: fsub_def Let_def of_exact_def f64_abs_round) (simp add: round_f64_def)
qed

lemma tiny_pow2: "pow2 (- 1075) = pow2 (- 1000) * (1 / 2 ^ 75)"
  using pow2_add [of "- 1000" "- 75"] by (simp add: pow2_def [of "- 75"])

lemma flt_asym: "flt x y \<Longrightarrow> \<not> flt y x"
  by (cases x; cases y) auto

lemma tiny_bounds:
  assumes "pow2 (- 1000) \<le> r"
  shows "pow2 (- 1075) \<le> r * (1 / 2 ^ 75)" and "pow2 (- 1075) \<le> 1 / 2 ^ 75"
proof -
  show "pow2 (- 1075) \<le> r * (1 / 2 ^ 75)" unfolding tiny_pow2 using assms by (intro mult_right_mono) simp_all
  have "pow2 (- 1075) \<le> pow2 (- 75)" by (rule pow2_mono) simp
  then show "pow2 (- 1075) \<le> 1 / 2 ^ 75" by (simp add: pow2_def [of "- 75"])
qed

lemma rel_diff_sound:
  assumes r: "pow2 (- 1000) \<le> r" and t: "1 / 32 \<le> t" and le: "\<not> flt (Fin False t) (rel_diff (Fin s a) (Fin False r))"
  shows "\<bar>signed s a - r\<bar> \<le> r * t * (1 + 8 * unit_roundoff)"
proof -
  define D where "D = \<bar>signed s a - r\<bar>"
  define \<eta> where "\<eta> = pow2 (- 1075)"
  let ?\<epsilon> = "1 / 2 ^ 75 :: rat" and ?c = "(1 - unit_roundoff) * (1 - unit_roundoff)"
  have rp: "0 < r" using r less_le_trans [OF pow2_pos(1)] by blast
  have eta: "\<eta> \<le> r * ?\<epsilon>" "\<eta> \<le> ?\<epsilon>" using tiny_bounds [OF r] by (simp_all add: \<eta>_def)
  have rel: "rel_diff (Fin s a) (Fin False r) = fdiv (round_f64 False D) (Fin False r)"
    unfolding rel_diff_def abs_sub D_def by (simp add: signed_def)
  have "0 \<le> D" by (simp add: D_def)
  then obtain d where d: "round_f64 False D = Fin False d" "D * (1 - unit_roundoff) - \<eta> \<le> d" "0 \<le> d"
    using le unfolding rel by (cases rule: round_f64_cases [of D False]) (auto simp: \<eta>_def)
  have "0 \<le> d / r" using d(3) rp by simp
  then have "d / r * (1 - unit_roundoff) - \<eta> \<le> t"
    using le rp unfolding rel d(1) by (cases rule: round_f64_cases [of "d / r" False]) (auto simp: signed_def \<eta>_def)
  then have "d / r * (1 - unit_roundoff) \<le> t + ?\<epsilon>" using eta(2) by linarith
  then have "d * (1 - unit_roundoff) \<le> r * (t + ?\<epsilon>)" using rp by (simp add: field_simps)
  moreover have "(D * (1 - unit_roundoff) - \<eta>) * (1 - unit_roundoff) \<le> d * (1 - unit_roundoff)"
    using d(2) by (intro mult_right_mono) simp_all
  moreover have "\<eta> * (1 - unit_roundoff) \<le> \<eta> * 1" by (intro mult_left_mono) (simp_all add: \<eta>_def)
  moreover note eta(1)
  ultimately have "D * ?c \<le> r * (t + 2 * ?\<epsilon>)" by (simp add: algebra_simps)
  also have "\<dots> \<le> r * (t * ((1 + 8 * unit_roundoff) * ?c))" using t rp by (intro mult_left_mono) simp_all
  finally have "D * ?c \<le> r * t * (1 + 8 * unit_roundoff) * ?c" by (simp only: mult.assoc)
  then show ?thesis unfolding D_def by (rule mult_right_le_imp_le) simp
qed

lemma rel_diff_complete:
  assumes r: "pow2 (- 1000) \<le> r" and t: "1 / 32 \<le> t" "t \<le> 1" and D: "\<bar>signed s a - r\<bar> \<le> r * t * (1 - 8 * unit_roundoff)"
    and big: "r \<le> pow2 1000"
  shows "flt (rel_diff (Fin s a) (Fin False r)) (Fin False t)"
proof -
  define D where "D = \<bar>signed s a - r\<bar>"
  define \<eta> where "\<eta> = pow2 (- 1075)"
  let ?\<epsilon> = "1 / 2 ^ 75 :: rat" and ?c = "(1 + unit_roundoff) * (1 + unit_roundoff)"
  have rp: "0 < r" using r less_le_trans [OF pow2_pos(1)] by blast
  have eta: "\<eta> \<le> r * ?\<epsilon>" "\<eta> \<le> ?\<epsilon>" using tiny_bounds [OF r] by (simp_all add: \<eta>_def)
  have rel: "rel_diff (Fin s a) (Fin False r) = fdiv (round_f64 False D) (Fin False r)"
    unfolding rel_diff_def abs_sub D_def by (simp add: signed_def)
  have D0: "0 \<le> D" by (simp add: D_def)
  have "r * (t * (1 - 8 * unit_roundoff)) \<le> r * 1" using t rp by (intro mult_left_mono) simp_all
  then have "D \<le> r" using D by (simp add: D_def mult.assoc)
  moreover have "pow2 1000 \<le> pow2 1023" by (rule pow2_mono) simp
  ultimately have "\<not> pow2 1023 < D" using big by linarith
  then obtain d where d: "round_f64 False D = Fin False d" "d \<le> D * (1 + unit_roundoff) + \<eta>" "0 \<le> d"
    by (cases rule: round_f64_cases [OF D0, of False]) (auto simp: \<eta>_def)
  have "d \<le> r * (t * (1 - 8 * unit_roundoff)) * (1 + unit_roundoff) + r * ?\<epsilon>"
    using d(2) eta(1) mult_right_mono [OF D, of "1 + unit_roundoff"] by (simp add: D_def mult.assoc)
  also have "\<dots> = r * (t * ((1 - 8 * unit_roundoff) * (1 + unit_roundoff)) + ?\<epsilon>)" by (simp add: algebra_simps)
  finally have dr: "d / r \<le> t * ((1 - 8 * unit_roundoff) * (1 + unit_roundoff)) + ?\<epsilon>" using rp by (simp add: divide_le_eq mult.commute)
  then have "d / r \<le> 2" using t by simp
  moreover have "pow2 1 \<le> pow2 1023" by (rule pow2_mono) simp
  ultimately have fits: "\<not> pow2 1023 < d / r" by (simp add: pow2_def [of 1])
  have "0 \<le> d / r" using d(3) rp by simp
  then obtain y where y: "round_f64 False (d / r) = Fin False y" "y \<le> d / r * (1 + unit_roundoff) + \<eta>"
    using fits by (cases rule: round_f64_cases [of "d / r" False]) (auto simp: \<eta>_def)
  have "d / r * (1 + unit_roundoff) \<le> (t * ((1 - 8 * unit_roundoff) * (1 + unit_roundoff)) + ?\<epsilon>) * (1 + unit_roundoff)"
    using dr by (intro mult_right_mono) simp_all
  then have "y \<le> (t * ((1 - 8 * unit_roundoff) * (1 + unit_roundoff)) + ?\<epsilon>) * (1 + unit_roundoff) + ?\<epsilon>"
    using y(2) eta(2) by linarith
  also have "\<dots> < t" using t by (simp add: add_divide_distrib)
  finally show ?thesis using y(1) rp unfolding rel d(1) by (simp add: signed_def)
qed

section \<open>Signs\<close>

text \<open>Not negative, or not a number; no operation on such values leaves them.\<close>

fun nonneg :: "f64 \<Rightarrow> bool" where
  "nonneg NaN = True" | "nonneg (Infinite s) = (\<not> s)" | "nonneg (Fin s x) = (\<not> s \<and> 0 \<le> x)"

lemma nonneg_round: "0 \<le> x \<Longrightarrow> nonneg (round_f64 False x)"
  by (cases "x = 0") (simp_all add: round_f64_rounded finish_def rounded_nonneg, simp add: round_f64_def)

lemma nonneg_add: "nonneg x \<Longrightarrow> nonneg y \<Longrightarrow> nonneg (fadd x y)"
proof (cases x; cases y)
  fix s a t b
  assume "nonneg x" "nonneg y" "x = Fin s a" "y = Fin t b"
  then show "nonneg (fadd x y)" using nonneg_round [of "a + b"] fadd_pos [of a b] by (simp del: fadd.simps)
qed auto

lemma nonneg_mul: "nonneg x \<Longrightarrow> nonneg y \<Longrightarrow> nonneg (fmul x y)"
  by (cases x; cases y) (auto simp: nonneg_round)

lemma nonneg_div: "nonneg x \<Longrightarrow> nonneg y \<Longrightarrow> nonneg (fdiv x y)"
  by (cases x; cases y) (auto simp: nonneg_round)

lemma nonneg_sqrt: "nonneg x \<Longrightarrow> nonneg (fsqrt x)"
proof (cases x)
  case (Fin s a)
  have "0 \<le> rne_sqrt y" for y by (simp add: rne_sqrt_def Let_def)
  moreover assume "nonneg x"
  ultimately show ?thesis using Fin by (simp add: Let_def finish_def)
qed simp_all

lemma nonneg_square: "nonneg (fmul (fsub x y) (fsub x y))"
proof -
  have "0 \<le> b" if "fadd a c = Fin s b" for a c s b
    using that by (cases a; cases c) (auto simp: Let_def of_exact_def round_f64_def finish_def rne_nonneg split: if_splits)
  then show ?thesis by (cases "fsub x y") (auto simp: fsub_def nonneg_round)
qed

lemma nonneg_fsum: "\<forall>x \<in> set xs. nonneg x \<Longrightarrow> nonneg (fsum xs)"
proof -
  have "nonneg a \<Longrightarrow> \<forall>x \<in> set xs. nonneg x \<Longrightarrow> nonneg (foldl fadd a xs)" for a
    by (induction xs arbitrary: a) (simp_all add: nonneg_add)
  then show "\<forall>x \<in> set xs. nonneg x \<Longrightarrow> nonneg (fsum xs)" by (simp add: fsum_def)
qed

text \<open>One minus the lesser of such a value and one stays in the unit interval.\<close>

lemma one_minus_min:
  assumes "nonneg x"
  obtains c where "fsub (Fin False 1) (fmin x (Fin False 1)) = Fin False c" "0 \<le> c" "c \<le> 1"
proof -
  have "\<exists>y. fmin x (Fin False 1) = Fin False y \<and> 0 \<le> y \<and> y \<le> 1"
    using assms by (cases x) (auto simp: fmin_def signed_def not_less)
  then obtain y where y: "fmin x (Fin False 1) = Fin False y" "0 \<le> y" "y \<le> 1" by blast
  have one: "pow2 0 = 1" by (simp add: pow2_def)
  have "fsub (Fin False 1) (Fin False y) = round_f64 False (1 - y)"
    using y by (auto simp: fsub_def signed_def Let_def of_exact_def round_f64_def)
  also have "\<dots> = Fin False (if 1 - y = 0 then 0 else rounded (1 - y))"
    using y pow2_mono [of 0 1023] one by (intro round_f64_fin) simp_all
  finally have f: "fsub (Fin False 1) (fmin x (Fin False 1)) = Fin False (if 1 - y = 0 then 0 else rounded (1 - y))"
    by (simp only: y(1))
  have "rounded (1 - y) \<le> 1" if "y \<noteq> 1" using rounded_le_pow2 [of "1 - y" 0] y that one by simp
  then show ?thesis using that [OF f] rounded_nonneg [of "1 - y"] y(3) by simp
qed

end
