(* ===== verification/Fx_Aggregation.thy ===== *)
theory Fx_Aggregation
  imports Doubles "HOL-Library.Sublist"
begin

text \<open>
  The arithmetic of \<^verbatim>\<open>OracleAggregator::fetch_universal_fx\<close>: the weighted mean of the quotes of one currency, the
  rejection of quotes further than a tenth from it, the mean of the rest and its confidence.  A hash map is an
  association list; its lookups never depend on the order.  The lemmas bound the computed mean by the exact one.
\<close>

type_synonym rate_map = "(string \<times> f64) list"

text \<open>The decimal literals of the source, as the doubles they denote.\<close>

definition outlier_threshold :: f64 where "outlier_threshold = of_exact (1 / 10)"

definition tolerance :: f64 where "tolerance = of_exact (1 / 20)"

section \<open>One currency\<close>

definition weighted_mean :: "(f64 \<times> f64) list \<Rightarrow> f64" where
  "weighted_mean ps = fdiv (fsum (map (\<lambda>(v, w). fmul v w) ps)) (fsum (map snd ps))"

definition retained :: "(f64 \<times> f64) list \<Rightarrow> (f64 \<times> f64) list" where
  "retained ps = filter (\<lambda>(v, _). flt (rel_diff v (weighted_mean ps)) outlier_threshold) ps"

definition confidence :: "(f64 \<times> f64) list \<Rightarrow> f64 \<Rightarrow> f64" where
  "confidence ps mean =
     (if 1 < length ps then
        let variance = fdiv (fsum (map (\<lambda>(v, w). fmul w (fmul (fsub v mean) (fsub v mean))) ps)) (fsum (map snd ps));
            std_dev = fsqrt variance
        in fsub (Fin False 1) (fmin (fdiv std_dev mean) (Fin False 1))
      else Fin False (1 / 2))"

text \<open>The rate and the confidence of one currency, from its quotes with their weights.\<close>

definition aggregate :: "(f64 \<times> f64) list \<Rightarrow> (f64 \<times> f64) option" where
  "aggregate ps =
     (if ps = [] then None
      else let kept = retained ps in
        if kept = [] then None else let mean = weighted_mean kept in Some (mean, confidence kept mean))"

section \<open>All currencies\<close>

definition quotes :: "string \<Rightarrow> (rate_map \<times> f64) list \<Rightarrow> (f64 \<times> f64) list" where
  "quotes key sources = List.map_filter (\<lambda>(r, w). map_option (\<lambda>v. (v, w)) (map_of r key)) sources"

definition all_keys :: "(rate_map \<times> f64) list \<Rightarrow> string list" where
  "all_keys sources = remdups (concat (map (\<lambda>(r, _). map fst r) sources))"

definition aggregate_all :: "(rate_map \<times> f64) list \<Rightarrow> (string \<times> f64 \<times> f64) list" where
  "aggregate_all sources =
     List.map_filter (\<lambda>key. map_option (Pair key) (aggregate (quotes key sources))) (all_keys sources)"

definition baseline_ppp :: rate_map where
  "baseline_ppp = [(''EUR'', Fin False 1), (''GBP'', Fin False 1), (''JPY'', Fin False 1)]"

section \<open>Lemmas\<close>

lemma thresholds:
  "outlier_threshold = Fin False (3602879701896397 / 36028797018963968)"
  "tolerance = Fin False (3602879701896397 / 72057594037927936)"
proof -
  have "rat_log2 (1 / 10) = - 4" "rat_log2 (1 / 20) = - 5" by (rule rat_log2_eq; simp add: pow2_def)+
  moreover have "\<lfloor>36028797018963968 / 5 :: rat\<rfloor> = 7205759403792793" by (simp add: floor_eq_iff)
  ultimately show "outlier_threshold = Fin False (3602879701896397 / 36028797018963968)"
    "tolerance = Fin False (3602879701896397 / 72057594037927936)"
    by (simp_all add: outlier_threshold_def tolerance_def of_exact_def round_f64_def last_place_def finish_def rne_def
        pow2_def Let_def)
qed

text \<open>Quotes as exact numbers: the magnitudes and the weights of positive finite quotes.\<close>

definition as_doubles :: "(rat \<times> rat) list \<Rightarrow> (f64 \<times> f64) list" where
  "as_doubles qs = map (\<lambda>(v, w). (Fin False v, Fin False w)) qs"

definition exact_mean :: "(rat \<times> rat) list \<Rightarrow> rat" where
  "exact_mean qs = sum_list (map (\<lambda>(v, w). v * w) qs) / sum_list (map snd qs)"

definition usable :: "rat \<Rightarrow> bool" where
  "usable q \<longleftrightarrow> pow2 (- 990) \<le> q \<and> q \<le> pow2 990"

definition source_weights :: "rat list" where
  "source_weights = [1 / 2, 1 / 4, 1 / 4]"

lemma usable_pos: "usable q \<Longrightarrow> 0 < q"
  unfolding usable_def using less_le_trans [OF pow2_pos(1)] by blast

lemma usable_wide: "usable q \<Longrightarrow> pow2 (- 1000) \<le> q" "usable q \<Longrightarrow> q \<le> pow2 1000"
  unfolding usable_def using pow2_mono [of "- 1000" "- 990"] pow2_mono [of 990 1000] by simp_all

lemma weights_cases:
  "subseq ws source_weights \<Longrightarrow>
     ws = [] \<or> ws = [1 / 4] \<or> ws = [1 / 4, 1 / 4] \<or> ws = [1 / 2] \<or> ws = [1 / 2, 1 / 4] \<or> ws = [1 / 2, 1 / 4, 1 / 4]"
  by (simp add: in_set_subseqs [symmetric] source_weights_def Let_def) metis

lemma round_quarter: "round_f64 False (1 / 4) = Fin False (1 / 4)" "round_f64 False (1 / 2) = Fin False (1 / 2)"
  "round_f64 False (3 / 4) = Fin False (3 / 4)" "round_f64 False 1 = Fin False 1"
proof -
  have "rat_log2 (1 / 4) = - 2" "rat_log2 (1 / 2) = - 1" "rat_log2 (3 / 4) = - 1" "rat_log2 1 = 0"
    by (rule rat_log2_eq; simp add: pow2_def)+
  then show "round_f64 False (1 / 4) = Fin False (1 / 4)" "round_f64 False (1 / 2) = Fin False (1 / 2)"
    "round_f64 False (3 / 4) = Fin False (3 / 4)" "round_f64 False 1 = Fin False 1"
    by (simp_all add: round_f64_def last_place_def finish_def rne_def pow2_def Let_def)
qed

lemma weights_sum:
  assumes "subseq ws source_weights"
  shows "fsum (map (Fin False) ws) = Fin False (sum_list ws)" and "length ws \<le> 3" and "sum_list ws \<le> 1"
    and "\<And>w. w \<in> set ws \<Longrightarrow> 1 / 4 \<le> w" and "\<And>w. w \<in> set ws \<Longrightarrow> w \<le> 1 / 2" and "ws \<noteq> [] \<Longrightarrow> 1 / 4 \<le> sum_list ws"
  using weights_cases [OF assms] by (auto simp: fsum_def fadd_pos round_quarter simp del: fadd.simps)

lemma sum_list_bounds:
  fixes xs :: "rat list"
  assumes "\<forall>x \<in> set xs. lo \<le> x \<and> x \<le> hi"
  shows "0 \<le> lo \<Longrightarrow> xs \<noteq> [] \<Longrightarrow> lo \<le> sum_list xs" and "sum_list xs \<le> of_nat (length xs) * hi"
  using assms
proof (induction xs)
  case (Cons x xs)
  { case 1 then show ?case using Cons by (cases xs) (auto intro: add_increasing2 sum_list_nonneg order_trans) }
  { case 2 then show ?case using Cons by (auto simp: algebra_simps intro: add_mono) }
qed simp_all

lemma moderate_between: "pow2 (- 1002) \<le> r \<Longrightarrow> r \<le> pow2 1004 \<Longrightarrow> moderate r"
  unfolding moderate_def using pow2_mono [of "- 1020" "- 1002"] pow2_mono [of 1004 1020] by simp

lemma products_range:
  assumes "usable v" and "1 / 4 \<le> w" and "w \<le> 1 / 2"
  shows "pow2 (- 1002) \<le> v * w" and "v * w \<le> pow2 1000"
proof -
  have "pow2 (- 1000) * (1 / 4) \<le> v * w" using assms by (intro mult_mono) (auto simp: usable_wide usable_pos less_imp_le)
  moreover have "pow2 (- 1000) * (1 / 4) = pow2 (- 1002)" using pow2_add [of "- 1000" "- 2"] by (simp add: pow2_def [of "- 2"])
  ultimately show "pow2 (- 1002) \<le> v * w" by simp
  have "v * w \<le> v * 1" using assms usable_pos by (intro mult_left_mono) (auto intro: less_imp_le)
  then show "v * w \<le> pow2 1000" using usable_wide(2) [OF assms(1)] by simp
qed

lemma pow2_1004: "pow2 1004 = 16 * pow2 1000"
  using pow2_add [of 1000 4] by (simp add: pow2_def [of 4])

lemma partial_sums:
  assumes "\<forall>r \<in> set rs. pow2 (- 1002) \<le> r \<and> r \<le> pow2 1000" and "length rs \<le> 3" and "0 < k" and "k \<le> length rs"
  shows "pow2 (- 1002) \<le> sum_list (take k rs)" and "sum_list (take k rs) \<le> 3 * pow2 1000" and "moderate (sum_list (take k rs))"
proof -
  have sub: "\<forall>r \<in> set (take k rs). pow2 (- 1002) \<le> r \<and> r \<le> pow2 1000" using assms(1) by (blast dest: in_set_takeD)
  have "take k rs \<noteq> []" using assms(3,4) by auto
  then show lo: "pow2 (- 1002) \<le> sum_list (take k rs)" using sum_list_bounds(1) [OF sub] by simp
  have "sum_list (take k rs) \<le> of_nat (length (take k rs)) * pow2 1000" by (rule sum_list_bounds(2) [OF sub])
  also have "\<dots> \<le> 3 * pow2 1000" using assms(2,4) by (intro mult_right_mono) simp_all
  finally show hi: "sum_list (take k rs) \<le> 3 * pow2 1000" .
  have "3 * pow2 1000 \<le> pow2 1004" by (simp add: pow2_1004)
  then show "moderate (sum_list (take k rs))" using lo hi by (intro moderate_between) auto
qed

lemma weighted_mean_near:
  assumes ws: "subseq (map snd qs) source_weights" and us: "\<forall>(v, w) \<in> set qs. usable v" and ne: "qs \<noteq> []"
  shows "near (10 * unit_roundoff) (exact_mean qs) (weighted_mean (as_doubles qs))"
proof -
  define rs where "rs = map (\<lambda>(v, w). v * w) qs"
  define xs where "xs = map (\<lambda>(v, w). fmul (Fin False v) (Fin False w)) qs"
  define W where "W = sum_list (map snd qs)"
  note sw = weights_sum [OF ws]
  have wt: "1 / 4 \<le> w" "w \<le> 1 / 2" if "(v, w) \<in> set qs" for v w using sw(4,5) that by force+
  have W: "1 / 4 \<le> W" "W \<le> 1" using sw(3,6) ne by (simp_all add: W_def)
  have rng: "\<forall>r \<in> set rs. pow2 (- 1002) \<le> r \<and> r \<le> pow2 1000"
    using us wt products_range by (fastforce simp: rs_def)
  have len: "length rs \<le> 3" using sw(2) by (simp add: rs_def)
  note partial = partial_sums [OF rng len]
  have "near (2 * unit_roundoff) (v * w) (fmul (Fin False v) (Fin False w))" if "(v, w) \<in> set qs" for v w
  proof -
    have "moderate (v * w)"
      using rng that pow2_mono [of 1000 1004] by (intro moderate_between) (force simp: rs_def)+
    then show ?thesis using near_mul_exact [OF near_exact [of v], of w] wt [OF that] by simp
  qed
  then have "list_all2 (near (2 * unit_roundoff)) rs xs"
    by (auto simp: rs_def xs_def list_all2_conv_all_nth split_beta)
  then have "near (2 * unit_roundoff + of_nat (length rs) * (2 * unit_roundoff)) (0 + sum_list rs) (foldl fadd (Fin False 0) xs)"
  proof (rule near_foldl)
    show "near (2 * unit_roundoff) 0 (Fin False 0)" by (simp add: near_def)
    show "\<forall>r \<in> set rs. 0 < r" using rng less_le_trans [OF pow2_pos(1)] by blast
    show "2 * unit_roundoff + of_nat (length rs) * (2 * unit_roundoff) \<le> 1 / 2" using len by simp
  qed (use partial(3) in auto)
  moreover have pos: "0 \<le> sum_list rs" using rng by (intro sum_list_nonneg) (meson less_imp_le order_trans pow2_pos(2))
  ultimately have sum: "near (8 * unit_roundoff) (sum_list rs) (fsum xs)"
    unfolding fsum_def using len by (elim near_weaken [rotated -1]) auto
  have "sum_list rs / 1 \<le> sum_list rs / W" "sum_list rs / W \<le> sum_list rs / (1 / 4)"
    using W pos by (intro divide_left_mono; simp)+
  moreover have "pow2 (- 1002) \<le> sum_list rs" "sum_list rs \<le> 3 * pow2 1000"
    using partial [of "length rs"] ne by (simp_all add: rs_def)
  ultimately have "moderate (sum_list rs / W)" using pow2_1004 by (intro moderate_between) simp_all
  then have "near (8 * unit_roundoff + 2 * unit_roundoff) (sum_list rs / W) (fdiv (fsum xs) (Fin False W))"
    using sum W by (intro near_div_exact) auto
  moreover have "fsum (map snd (as_doubles qs)) = Fin False W"
    using sw(1) by (simp add: as_doubles_def W_def split_beta comp_def)
  moreover have "map (\<lambda>(v, w). fmul v w) (as_doubles qs) = xs" by (simp add: as_doubles_def xs_def split_beta)
  ultimately show ?thesis by (simp add: weighted_mean_def exact_mean_def rs_def W_def)
qed

definition kept_quotes :: "(rat \<times> rat) list \<Rightarrow> (rat \<times> rat) list" where
  "kept_quotes qs = filter (\<lambda>(v, _). flt (rel_diff (Fin False v) (weighted_mean (as_doubles qs))) outlier_threshold) qs"

text \<open>What the lemmas on quotes assume: weights of distinct sources and positive quotes between two bounds.\<close>

definition quoted_in :: "rat \<Rightarrow> rat \<Rightarrow> (rat \<times> rat) list \<Rightarrow> bool" where
  "quoted_in lo hi qs \<longleftrightarrow>
     qs \<noteq> [] \<and> subseq (map snd qs) source_weights \<and> (\<forall>(v, w) \<in> set qs. usable v \<and> lo \<le> v \<and> v \<le> hi)"

lemma quoted_in_filter: "quoted_in lo hi qs \<Longrightarrow> filter P qs \<noteq> [] \<Longrightarrow> quoted_in lo hi (filter P qs)"
  unfolding quoted_in_def by (auto intro: subseq_order.trans [OF subseq_map [OF subseq_filter_left]])

lemma retained_kept: "retained (as_doubles qs) = as_doubles (kept_quotes qs)"
  by (simp add: retained_def kept_quotes_def as_doubles_def filter_map comp_def case_prod_unfold)

lemma aggregate_kept:
  "aggregate (as_doubles qs) =
     (if kept_quotes qs = [] then None
      else let mean = weighted_mean (as_doubles (kept_quotes qs)) in Some (mean, confidence (as_doubles (kept_quotes qs)) mean))"
  unfolding aggregate_def retained_kept by (auto simp: as_doubles_def Let_def kept_quotes_def)

lemma exact_mean_between:
  assumes "quoted_in lo hi qs"
  shows "lo \<le> exact_mean qs" and "exact_mean qs \<le> hi"
proof -
  have ws: "subseq (map snd qs) source_weights" and ne: "qs \<noteq> []" using assms by (simp_all add: quoted_in_def)
  have W: "0 < sum_list (map snd qs)" using weights_sum(6) [OF ws] ne by simp
  have in_qs: "lo * w \<le> v * w" "v * w \<le> hi * w" if "(v, w) \<in> set qs" for v w
    using assms that weights_sum(4) [OF ws, of w] by (force simp: quoted_in_def intro!: mult_right_mono)+
  have "sum_list (map (\<lambda>(v, w). lo * w) qs) \<le> sum_list (map (\<lambda>(v, w). v * w) qs)"
    "sum_list (map (\<lambda>(v, w). v * w) qs) \<le> sum_list (map (\<lambda>(v, w). hi * w) qs)"
    using in_qs by (auto intro!: sum_list_mono)
  moreover have "sum_list (map (\<lambda>(v, w). c * w) qs) = c * sum_list (map snd qs)" for c
    by (induction qs) (auto simp: distrib_left)
  ultimately show "lo \<le> exact_mean qs" "exact_mean qs \<le> hi"
    using W by (simp_all add: exact_mean_def le_divide_eq divide_le_eq)
qed

lemma mean_value:
  assumes "quoted_in lo hi qs" and "0 \<le> lo"
  obtains m where "weighted_mean (as_doubles qs) = Fin False m" "lo * (1 - 10 * unit_roundoff) \<le> m"
    "m \<le> hi * (1 + 10 * unit_roundoff)" "exact_mean qs * (1 - 10 * unit_roundoff) \<le> m"
    "m \<le> exact_mean qs * (1 + 10 * unit_roundoff)" "pow2 (- 1000) \<le> m" "m \<le> pow2 1000"
proof -
  have b: "quoted_in (pow2 (- 990)) (pow2 990) qs" using assms(1) by (auto simp: quoted_in_def usable_def)
  obtain m where m: "weighted_mean (as_doubles qs) = Fin False m" "exact_mean qs * (1 - 10 * unit_roundoff) \<le> m"
    "m \<le> exact_mean qs * (1 + 10 * unit_roundoff)"
    using weighted_mean_near [of qs] assms(1) unfolding quoted_in_def near_def by fast
  note between = exact_mean_between [OF assms(1)] exact_mean_between [OF b]
  have "c * (1 - 10 * unit_roundoff) \<le> m" if "c \<le> exact_mean qs" for c
    using m(2) mult_right_mono [OF that, of "1 - 10 * unit_roundoff"] by simp
  moreover have "m \<le> c * (1 + 10 * unit_roundoff)" if "exact_mean qs \<le> c" for c
    using m(3) mult_right_mono [OF that, of "1 + 10 * unit_roundoff"] by simp
  moreover have "pow2 (- 1000) \<le> pow2 (- 990) * (1 - 10 * unit_roundoff)" "pow2 990 * (1 + 10 * unit_roundoff) \<le> pow2 1000"
    using pow2_add [of "- 1000" 10] pow2_add [of 990 10] by (simp_all add: pow2_def [of 10])
  ultimately show ?thesis using that [OF m(1)] m(2,3) between by (meson order_trans)
qed

lemma confidence_unit:
  assumes "nonneg mean" and "subseq (map snd qs) source_weights"
  obtains c where "confidence (as_doubles qs) mean = Fin False c" "0 \<le> c" "c \<le> 1"
proof (cases "1 < length qs")
  case True
  have pos: "nonneg (Fin False w)" if "(v, w) \<in> set qs" for v w using weights_sum(4) [OF assms(2), of w] that by force
  have "nonneg (fsum (map (\<lambda>(v, w). fmul w (fmul (fsub v mean) (fsub v mean))) (as_doubles qs)))"
    using pos by (intro nonneg_fsum) (auto simp: as_doubles_def intro!: nonneg_mul nonneg_square)
  moreover have "nonneg (fsum (map snd (as_doubles qs)))"
    using pos by (intro nonneg_fsum) (force simp: as_doubles_def)
  ultimately have "nonneg (fdiv (fsqrt (fdiv (fsum (map (\<lambda>(v, w). fmul w (fmul (fsub v mean) (fsub v mean))) (as_doubles qs)))
      (fsum (map snd (as_doubles qs))))) mean)"
    using assms(1) by (intro nonneg_div nonneg_sqrt)
  then show ?thesis using that True by (auto simp: confidence_def Let_def as_doubles_def elim: one_minus_min)
next
  case False
  then show ?thesis using that [of "1 / 2"] by (simp add: confidence_def as_doubles_def)
qed

text \<open>The rate of a currency stays within the quotes that were kept, and its confidence in the unit interval.\<close>

lemma aggregate_bounds:
  assumes "quoted_in lo hi qs" and "0 \<le> lo" and "aggregate (as_doubles qs) = Some (rate, conf)"
  obtains y c where "rate = Fin False y" "lo * (1 - 10 * unit_roundoff) \<le> y" "y \<le> hi * (1 + 10 * unit_roundoff)"
    "conf = Fin False c" "0 \<le> c" "c \<le> 1"
proof -
  have ne: "kept_quotes qs \<noteq> []" and rate: "rate = weighted_mean (as_doubles (kept_quotes qs))"
    and conf: "conf = confidence (as_doubles (kept_quotes qs)) rate"
    using assms(3) by (auto simp: aggregate_kept Let_def split: if_splits)
  have q: "quoted_in lo hi (kept_quotes qs)" using quoted_in_filter [OF assms(1)] ne by (simp add: kept_quotes_def)
  obtain m where m: "rate = Fin False m" "lo * (1 - 10 * unit_roundoff) \<le> m" "m \<le> hi * (1 + 10 * unit_roundoff)"
    using mean_value [OF q assms(2)] rate by metis
  have "0 \<le> lo * (1 - 10 * unit_roundoff)" using assms(2) by simp
  then have "nonneg rate" using m by simp
  then obtain c where "conf = Fin False c" "0 \<le> c" "c \<le> 1"
    using confidence_unit [of rate "kept_quotes qs"] q conf unfolding quoted_in_def by metis
  then show ?thesis using that m by blast
qed

text \<open>Sources that agree within nine percent are all kept.\<close>

lemma agreeing_kept:
  assumes "quoted_in lo hi qs" and "0 < lo" and "hi \<le> lo * (109 / 100)"
  shows "kept_quotes qs = qs"
proof -
  obtain m where m: "weighted_mean (as_doubles qs) = Fin False m" "lo * (1 - 10 * unit_roundoff) \<le> m"
    "m \<le> hi * (1 + 10 * unit_roundoff)" "pow2 (- 1000) \<le> m" "m \<le> pow2 1000"
    using mean_value [OF assms(1)] assms(2) by (metis less_imp_le)
  have "flt (rel_diff (Fin False v) (Fin False m)) outlier_threshold" if "(v, w) \<in> set qs" for v w
  proof -
    have "lo \<le> v" "v \<le> hi" using assms(1) that by (auto simp: quoted_in_def)
    moreover have "lo * (999 / 1000) \<le> m" "m \<le> hi * (1001 / 1000)"
      by (rule order_trans [OF mult_left_mono m(2)] order_trans [OF m(3) mult_left_mono]; use assms(2) calculation in simp)+
    ultimately have "\<bar>signed False v - m\<bar> \<le> m * (99 / 1000)"
      using assms(2,3) unfolding signed_def if_False abs_le_iff by (intro conjI) linarith+
    also have "\<dots> \<le> m * (3602879701896397 / 36028797018963968) * (1 - 8 * unit_roundoff)"
      using less_le_trans [OF pow2_pos(1) m(4)] by simp
    finally have "\<bar>signed False v - m\<bar> \<le> m * (3602879701896397 / 36028797018963968) * (1 - 8 * unit_roundoff)" .
    then show ?thesis unfolding thresholds using m(4,5) by (intro rel_diff_complete) simp_all
  qed
  then show ?thesis unfolding kept_quotes_def m(1) by (auto simp: filter_id_conv)
qed

text \<open>One quarter-weight source that quotes high enough removes every quote, its own included.\<close>

lemma disrupted:
  assumes "qs = [(a, 1 / 2), (b, 1 / 4), (t, 1 / 4)] \<or> qs = [(a, 1 / 2), (t, 1 / 4), (b, 1 / 4)]"
    and "usable a" "usable b" "usable t" and "{a, b} \<subseteq> {lo .. hi}" and "hi \<le> lo * (51 / 50)" and "hi * (8 / 5) \<le> t"
  shows "kept_quotes qs = []"
proof -
  have lo: "lo \<le> a" "lo \<le> b" "a \<le> hi" "b \<le> hi" using assms(5) by auto
  have pos: "0 < a" "0 < b" "0 < t" using assms(2-4) usable_pos by blast+
  have q: "quoted_in 0 (max hi t) qs"
    using assms(1-4) lo pos by (auto simp: quoted_in_def source_weights_def)
  have ex: "exact_mean qs = (2 * a + b + t) / 4" using assms(1) by (auto simp: exact_mean_def)
  obtain m where m: "weighted_mean (as_doubles qs) = Fin False m" "exact_mean qs * (1 - 10 * unit_roundoff) \<le> m"
    "m \<le> exact_mean qs * (1 + 10 * unit_roundoff)" "pow2 (- 1000) \<le> m"
    by (rule mean_value [OF q order_refl])
  have "\<not> flt (rel_diff (Fin False v) (Fin False m)) outlier_threshold" if "v = a \<or> v = b \<or> v = t" for v
  proof
    assume "flt (rel_diff (Fin False v) (Fin False m)) outlier_threshold"
    then have "\<bar>signed False v - m\<bar> \<le> m * (3602879701896397 / 36028797018963968) * (1 + 8 * unit_roundoff)"
      unfolding thresholds by (intro rel_diff_sound [OF m(4)] flt_asym) simp
    also have "\<dots> \<le> m * (101 / 1000)" using less_le_trans [OF pow2_pos(1) m(4)] by simp
    finally have d: "v - m \<le> m * (101 / 1000)" "m - v \<le> m * (101 / 1000)" unfolding signed_def if_False by linarith+
    have x: "0 \<le> exact_mean qs" using pos unfolding ex by simp
    have e: "exact_mean qs * (999 / 1000) \<le> m" "m \<le> exact_mean qs * (1001 / 1000)"
      by (rule order_trans [OF mult_left_mono m(2)] order_trans [OF m(3) mult_left_mono]; use x in simp)+
    have "v = t \<or> v \<le> hi" using that lo(3,4) by blast
    moreover have i: "4000 * m \<le> 2002 * a + 1001 * b + 1001 * t" "1998 * a + 999 * b + 999 * t \<le> 4000 * m"
      "1000 * v \<le> 1101 * m" "899 * m \<le> 1000 * v" "50 * hi \<le> 51 * lo" "8 * hi \<le> 5 * t"
      using d e assms(6,7) by (simp_all add: ex)
    have "v \<noteq> t" using i(1,3,6) lo(3,4) pos(3) by linarith
    moreover have "\<not> v \<le> hi" using i(2,4,5,6) lo(1-3) pos(1) by linarith
    ultimately show False by blast
  qed
  then show ?thesis using assms(1) unfolding kept_quotes_def m(1) filter_empty_conv by fastforce
qed

section \<open>From sources to quotes\<close>

fun magnitude :: "f64 \<Rightarrow> rat" where
  "magnitude (Fin s x) = x" | "magnitude _ = 0"

text \<open>Positive finite quotes in a moderate range, between two bounds.\<close>

definition quotes_between :: "rat \<Rightarrow> rat \<Rightarrow> (f64 \<times> f64) list \<Rightarrow> bool" where
  "quotes_between lo hi ps \<longleftrightarrow> (\<forall>(v, w) \<in> set ps. \<exists>q. v = Fin False q \<and> usable q \<and> lo \<le> q \<and> q \<le> hi)"

lemma quotes_between_quoted:
  assumes "quotes_between lo hi ps" and "subseq (map snd ps) (map (Fin False) source_weights)" and "ps \<noteq> []"
  obtains qs where "ps = as_doubles qs" "quoted_in lo hi qs"
proof -
  define qs where "qs = map (\<lambda>(v, w). (magnitude v, magnitude w)) ps"
  have w: "\<exists>x. w = Fin False x" if "(v, w) \<in> set ps" for v w
  proof -
    have "w \<in> set (map snd ps)" using that by force
    then have "w \<in> set (map (Fin False) source_weights)" using list_emb_set [OF assms(2)] by metis
    then show ?thesis by auto
  qed
  have "as_doubles qs = ps"
    unfolding as_doubles_def qs_def map_map using assms(1) w by (intro map_idI) (fastforce simp: quotes_between_def)
  moreover have "subseq (map snd qs) source_weights"
    using subseq_map [OF assms(2), of magnitude] by (simp add: qs_def comp_def case_prod_unfold)
  then have "quoted_in lo hi qs"
    using assms(1,3) by (fastforce simp: quoted_in_def qs_def quotes_between_def)
  ultimately show ?thesis using that by metis
qed

lemma map_filter_keys: "map_of (List.map_filter (\<lambda>k. map_option (Pair k) (f k)) ks) key = (if key \<in> set ks then f key else None)"
  by (induction ks) (auto simp: map_filter_simps split: option.splits)

lemma quotes_absent: "key \<notin> set (all_keys sources) \<Longrightarrow> quotes key sources = []"
proof (induction sources)
  case (Cons s sources)
  obtain r w where s: "s = (r, w)" by fastforce
  then have "map_of r key = None" using Cons.prems by (auto simp: all_keys_def map_of_eq_None_iff)
  moreover have "key \<notin> set (all_keys sources)" using Cons.prems by (auto simp: all_keys_def)
  ultimately show ?case using Cons.IH by (simp add: s quotes_def map_filter_simps)
qed (simp add: quotes_def map_filter_simps)

lemma aggregate_lookup:
  "map_of (map (\<lambda>(k, v, _). (k, v)) (aggregate_all sources)) key = map_option fst (aggregate (quotes key sources))"
  "map_of (map (\<lambda>(k, _, c). (k, c)) (aggregate_all sources)) key = map_option snd (aggregate (quotes key sources))"
proof -
  have "map_of (aggregate_all sources) key = aggregate (quotes key sources)"
    using quotes_absent [of key sources] by (auto simp: aggregate_all_def map_filter_keys aggregate_def)
  moreover have "map_of (map (\<lambda>(k, v, _). (k, v)) xs) k = map_option fst (map_of xs k)"
    "map_of (map (\<lambda>(k, _, c). (k, c)) xs) k = map_option snd (map_of xs k)" for xs :: "(string \<times> f64 \<times> f64) list" and k
    by (induction xs) auto
  ultimately show "map_of (map (\<lambda>(k, v, _). (k, v)) (aggregate_all sources)) key = map_option fst (aggregate (quotes key sources))"
    "map_of (map (\<lambda>(k, _, c). (k, c)) (aggregate_all sources)) key = map_option snd (aggregate (quotes key sources))" by simp_all
qed

lemma quotes_weights: "subseq (map snd (quotes key sources)) (map snd sources)"
  by (induction sources) (auto simp: quotes_def map_filter_simps split: option.splits)

end
