(* ===== verification/Oracle.thy ===== *)
theory Oracle
  imports Fx_Aggregation Settlement Executor
begin

text \<open>
  The exchange-rate oracle, \<^verbatim>\<open>src/oracle\<close>: fetching the three price sources, aggregating them per currency
  with outlier rejection, keeping the result in Postgres, and checking the rate of a settlement signal against it.
  The wallet and the contract bridge of \<^verbatim>\<open>lib_conxian_core\<close> and the text \<^verbatim>\<open>serde_json\<close> prints for a state are
  the fields of \<open>oracle_env\<close>.  A hash map is an association list; its lookups never depend on the order.
\<close>

section \<open>Data\<close>

record PppState =
  base_currency :: string
  rates :: rate_map
  ppp_indices :: rate_map
  confidence_intervals :: rate_map
  ppp_timestamp :: u64

record OracleAggregator =
  endpoints :: "(string \<times> f64) list"
  contract_principal :: string

record ('w, 'k) oracle_env =
  wallet_new :: "('w, string, 'k) io"
  state_text :: "PppState \<Rightarrow> (string, string) result"
  create_signed_call :: "'k \<Rightarrow> string \<Rightarrow> string \<Rightarrow> string list \<Rightarrow> (string, string) result"  \<comment> \<open>the signature\<close>

definition aggregator_new :: "string \<Rightarrow> string \<Rightarrow> OracleAggregator" where
  "aggregator_new endpoint_url contract =
     \<lparr>endpoints = [(endpoint_url, Fin False (1 / 2)), (''https://open.er-api.com/v6/latest/USD'', Fin False (1 / 4)),
        (''https://api.exchangerate.host/latest?base=USD'', Fin False (1 / 4))],
      contract_principal = contract\<rparr>"

text \<open>A JSON number as a double, and a map of them; \<^verbatim>\<open>ExchangeRateResponse\<close> is read from an object with a member
  \<^verbatim>\<open>rates\<close> or from an array of one element.\<close>

definition json_f64 :: "json \<Rightarrow> f64 option" where
  "json_f64 j = map_option (\<lambda>r. Fin (r < 0) \<bar>r\<bar>) (as_f64 j)"

fun rates_of_members :: "(string \<times> json) list \<Rightarrow> rate_map option" where
  "rates_of_members [] = Some []"
| "rates_of_members ((k, j) # kvs) =
     (case (json_f64 j, rates_of_members kvs) of (Some v, Some m) \<Rightarrow> Some ((k, v) # m) | _ \<Rightarrow> None)"

fun rates_of_json :: "json \<Rightarrow> rate_map option" where
  "rates_of_json (JObj kvs) = rates_of_members kvs"
| "rates_of_json _ = None"

fun exchange_rate_response :: "json \<Rightarrow> rate_map option" where
  "exchange_rate_response (JObj kvs) = Option.bind (map_of kvs ''rates'') rates_of_json"
| "exchange_rate_response (JArr [j]) = rates_of_json j"
| "exchange_rate_response _ = None"

section \<open>Fetching\<close>

fun fetch_rates :: "'w services \<Rightarrow> (string \<times> f64) list \<Rightarrow> 'w \<Rightarrow> (rate_map \<times> f64) list \<times> 'w" where
  "fetch_rates sv [] w = ([], w)"
| "fetch_rates sv ((url, weight) # es) w =
     (case http_get sv url w of (r, w1) \<Rightarrow>
      case fetch_rates sv es w1 of (rest, w2) \<Rightarrow>
      case r of
        Inr resp \<Rightarrow>
          (if is_success (hr_status resp) then
             (case hr_json resp of
                Inr j \<Rightarrow> (case exchange_rate_response j of Some m \<Rightarrow> ((m, weight) # rest, w2) | None \<Rightarrow> (rest, w2))
              | Inl _ \<Rightarrow> (rest, w2))
           else (rest, w2))
      | Inl _ \<Rightarrow> (rest, w2))"

definition fetch_universal_fx :: "'w services \<Rightarrow> OracleAggregator \<Rightarrow> ('w, string, PppState) io" where
  "fetch_universal_fx sv agg w =
     (case fetch_rates sv (endpoints agg) w of (sources, w1) \<Rightarrow>
      if sources = [] then (Inl ''Oracle failure'', w1)
      else let out = aggregate_all sources in
        (case utc_now sv w1 of (now, w2) \<Rightarrow>
         if now < 0 then (Inl ''Time failure: second time provided was later than self'', w2)
         else (Inr \<lparr>base_currency = ''USD'', rates = map (\<lambda>(k, v, _). (k, v)) out, ppp_indices = baseline_ppp,
                 confidence_intervals = map (\<lambda>(k, _, c). (k, c)) out, ppp_timestamp = nat (timestamp_secs now)\<rparr>, w2)))"

section \<open>Publishing, keeping and checking\<close>

definition push_state_to_contract ::
  "('w, 'k) oracle_env \<Rightarrow> OracleAggregator \<Rightarrow> PppState \<Rightarrow> ('w, string, string) io" where
  "push_state_to_contract oe agg st w =
     (case wallet_new oe w of
        (Inl e, w') \<Rightarrow> (Inl (''Wallet creation failed: '' @ e), w')
      | (Inr wallet, w') \<Rightarrow>
          (case state_text oe st of
             Inl e \<Rightarrow> (Inl (''State serialization failed: '' @ e), w')
           | Inr state_json \<Rightarrow>
               (case create_signed_call oe wallet (contract_principal agg) ''update-fx-rates'' [state_json] of
                  Inl e \<Rightarrow> (Inl (''Contract call signing failed: '' @ e), w')
                | Inr signature \<Rightarrow> (Inr (''0x'' @ signature), w'))))"

text \<open>\<^verbatim>\<open>serde_json::to_value\<close> of a double writes null for a value that is not finite.\<close>

fun f64_json :: "f64 \<Rightarrow> json" where
  "f64_json (Fin s x) = JNum (Float (signed s x))"
| "f64_json _ = JNull"

definition rates_json :: "rate_map \<Rightarrow> json" where
  "rates_json m = JObj (map (\<lambda>(k, v). (k, f64_json v)) m)"

definition persist_fx_state :: "'w services \<Rightarrow> PppState \<Rightarrow> ('w, string, unit) io" where
  "persist_fx_state sv st =
     pg_execute sv (InsertFxState (base_currency st) (rates_json (rates st)) (rates_json (ppp_indices st))
       (rates_json (confidence_intervals st)) (as_i64 (ppp_timestamp st)))"

text \<open>One turn of \<^verbatim>\<open>OracleService::run\<close>.\<close>

definition oracle_tick :: "'w services \<Rightarrow> ('w, 'k) oracle_env \<Rightarrow> OracleAggregator \<Rightarrow> 'w \<Rightarrow> 'w" where
  "oracle_tick sv oe agg w =
     (case fetch_universal_fx sv agg w of
        (Inr st, w1) \<Rightarrow> snd (push_state_to_contract oe agg st (snd (persist_fx_state sv st w1)))
      | (Inl _, w1) \<Rightarrow> w1)"

definition signal_currency :: "json \<Rightarrow> string" where
  "signal_currency signal = (case Option.bind (json_get ''currency'' signal) as_str of Some c \<Rightarrow> c | None \<Rightarrow> ''USD'')"

definition rate_accepted :: "PppState \<Rightarrow> string \<Rightarrow> json \<Rightarrow> bool" where
  "rate_accepted st source signal =
     (if source = ''ISO20022'' then
        (case Option.bind (json_get ''exchange_rate'' signal) json_f64 of
           Some payload_rate \<Rightarrow>
             (case map_of (rates st) (signal_currency signal) of
                Some oracle_rate \<Rightarrow> \<not> flt tolerance (rel_diff payload_rate oracle_rate)
              | None \<Rightarrow> True)
         | None \<Rightarrow> True)
      else True)"

definition verify_external_signal :: "'w services \<Rightarrow> OracleAggregator \<Rightarrow> string \<Rightarrow> json \<Rightarrow> ('w, string, bool) io" where
  "verify_external_signal sv agg source signal w =
     (case fetch_universal_fx sv agg w of
        (Inl e, w') \<Rightarrow> (Inl (''Oracle fetch error: '' @ e), w')
      | (Inr st, w') \<Rightarrow> (Inr (rate_accepted st source signal), w'))"

section \<open>Lemmas\<close>

lemma fetch_rates_weights: "subseq (map snd (fst (fetch_rates sv es w))) (map snd es)"
  by (induction sv es w rule: fetch_rates.induct) (auto split: prod.splits sum.splits option.splits)

lemma fetch_rates_log: "pg_logs sv wlog \<Longrightarrow> wlog (snd (fetch_rates sv es w)) = wlog w"
proof (induction sv es w rule: fetch_rates.induct)
  case (2 sv url weight es w)
  obtain r w1 where g: "http_get sv url w = (r, w1)" by fastforce
  obtain rest w2 where f: "fetch_rates sv es w1 = (rest, w2)" by fastforce
  have "wlog w1 = wlog w" using log_keptD [OF pg_logs_kept(6) [OF 2(2)] g] .
  moreover have "wlog w2 = wlog w1" using 2(1) [OF g [symmetric] 2(2)] f by simp
  ultimately show ?case using g f by (simp split: sum.split option.split)
qed simp

text \<open>The sources a fetch has read, and a state that came from them.\<close>

definition sources_of :: "'w services \<Rightarrow> OracleAggregator \<Rightarrow> 'w \<Rightarrow> (rate_map \<times> f64) list" where
  "sources_of sv agg w = fst (fetch_rates sv (endpoints agg) w)"

lemma fetched_state:
  assumes "fetch_universal_fx sv agg w = (Inr st, w')"
  shows "map_of (rates st) key = map_option fst (aggregate (quotes key (sources_of sv agg w)))"
    and "map_of (confidence_intervals st) key = map_option snd (aggregate (quotes key (sources_of sv agg w)))"
    and "base_currency st = ''USD''" and "ppp_indices st = baseline_ppp"
  using assms by (auto simp: fetch_universal_fx_def sources_of_def aggregate_lookup Let_def split: prod.splits if_splits)

lemma source_quotes:
  assumes "quotes_between lo hi (quotes key (sources_of sv (aggregator_new url c) w))"
    and "quotes key (sources_of sv (aggregator_new url c) w) \<noteq> []"
  obtains qs where "quotes key (sources_of sv (aggregator_new url c) w) = as_doubles qs" "quoted_in lo hi qs"
proof -
  have "map snd (endpoints (aggregator_new url c)) = map (Fin False) source_weights"
    by (simp add: aggregator_new_def source_weights_def)
  then have "subseq (map snd (quotes key (sources_of sv (aggregator_new url c) w))) (map (Fin False) source_weights)"
    unfolding sources_of_def by (metis fetch_rates_weights quotes_weights subseq_order.trans)
  then show ?thesis using quotes_between_quoted assms that by blast
qed

lemma fetch_log: "pg_logs sv wlog \<Longrightarrow> wlog (snd (fetch_universal_fx sv agg w)) = wlog w"
  using fetch_rates_log [of sv wlog "endpoints agg" w] log_keptD [OF pg_logs_kept(8), of sv wlog]
  by (auto simp: fetch_universal_fx_def Let_def split: prod.split)

lemma verify_log: "pg_logs sv wlog \<Longrightarrow> log_kept wlog (verify_external_signal sv agg source signal)"
  unfolding log_kept_def using fetch_log [of sv wlog agg]
  by (auto simp: verify_external_signal_def split: prod.split sum.split) (metis snd_conv)+

text \<open>The verdict on a rate, within the rounding of the comparison.\<close>

lemma json_f64_signed: "json_f64 j = Some x \<longleftrightarrow> (\<exists>p. as_f64 j = Some p \<and> x = Fin (p < 0) \<bar>p\<bar>)" "signed (p < 0) \<bar>p\<bar> = p"
  by (auto simp: json_f64_def signed_def)

lemma verdict:
  assumes "Option.bind (json_get ''exchange_rate'' signal) as_f64 = Some p"
    and "map_of (rates st) (signal_currency signal) = Some (Fin False r)" and "pow2 (- 1000) \<le> r" and "r \<le> pow2 1000"
  shows "rate_accepted st ''ISO20022'' signal \<Longrightarrow> \<bar>p - r\<bar> \<le> r / 20 * (1 + 1 / 2 ^ 49)"
    and "\<bar>p - r\<bar> \<le> r / 20 * (1 - 1 / 2 ^ 49) \<Longrightarrow> rate_accepted st ''ISO20022'' signal"
proof -
  have "Option.bind (json_get ''exchange_rate'' signal) json_f64 = Some (Fin (p < 0) \<bar>p\<bar>)"
    using assms(1) by (auto simp: bind_eq_Some_conv json_f64_signed(1))
  then have ra: "rate_accepted st ''ISO20022'' signal \<longleftrightarrow> \<not> flt tolerance (rel_diff (Fin (p < 0) \<bar>p\<bar>) (Fin False r))"
    using assms(2) by (simp add: rate_accepted_def)
  have rp: "0 \<le> r" using assms(3) by (meson order_trans pow2_pos(2))
  let ?t = "3602879701896397 / 72057594037927936 :: rat"
  have "r * ?t * (1 + 8 * unit_roundoff) \<le> r / 20 * (1 + 1 / 2 ^ 49)" "r / 20 * (1 - 1 / 2 ^ 49) \<le> r * ?t * (1 - 8 * unit_roundoff)"
    using rp by simp_all
  then show "rate_accepted st ''ISO20022'' signal \<Longrightarrow> \<bar>p - r\<bar> \<le> r / 20 * (1 + 1 / 2 ^ 49)"
    "\<bar>p - r\<bar> \<le> r / 20 * (1 - 1 / 2 ^ 49) \<Longrightarrow> rate_accepted st ''ISO20022'' signal"
    unfolding ra thresholds
    using rel_diff_sound [OF assms(3), of ?t "p < 0" "\<bar>p\<bar>"] rel_diff_complete [OF assms(3), of ?t "p < 0" "\<bar>p\<bar>"] assms(4)
    by (fastforce simp: json_f64_signed(2) dest: flt_asym)+
qed

section \<open>Properties\<close>

text \<open>Three sources that quote one currency, the second one \<open>t\<close> and the others 100, over a recording database that answers
  the executor from its last row.\<close>

definition sample_quotes :: "rat \<Rightarrow> sql_write list services" where
  "sample_quotes t = recording\<lparr>http_get := (\<lambda>url w. (Inr \<lparr>hr_status = 200,
     hr_json = Inr (JObj [(''rates'', JObj [(''EUR'',
       JNum (Float (if url = ''https://open.er-api.com/v6/latest/USD'' then t else 100)))])]), hr_text = Inr []\<rparr>, w)),
     pg_latest_rates := (\<lambda>w. (Inr (case rev w of InsertFxState _ r _ _ _ # _ \<Rightarrow> Some r | _ \<Rightarrow> None), w))\<rparr>"

lemma sample_sources:
  assumes "0 \<le> t"
  shows "sources_of (sample_quotes t) (aggregator_new [] []) w =
     [([(''EUR'', Fin False 100)], Fin False (1 / 2)), ([(''EUR'', Fin False t)], Fin False (1 / 4)),
      ([(''EUR'', Fin False 100)], Fin False (1 / 4))]"
    and "\<exists>st. fetch_universal_fx (sample_quotes t) (aggregator_new [] []) w = (Inr st, w)"
  using assms
  by (simp_all add: sources_of_def fetch_universal_fx_def sample_quotes_def aggregator_new_def is_success_def json_f64_def
      recording_def offline_def Let_def)

lemma sample_usable: "1 \<le> t \<Longrightarrow> t \<le> 1024 \<Longrightarrow> usable t"
  unfolding usable_def using pow2_mono [of "- 990" 0] pow2_mono [of 10 990] by (simp add: pow2_def [of 0] pow2_def [of 10])

text \<open>C9: Aggregation.  When every source that quotes a currency quotes a positive number between \<open>lo\<close> and \<open>hi\<close> (and not near the
  ends of the exponent range), the published rate, if there is one, is a positive double within
  \<open>2 ^ -49\<close> (relative) of that interval, and its confidence lies between 0 and 1.  A rate is published whenever some source
  quotes and the quotes differ by at most nine percent.\<close>

theorem oracle_rate_bounds:
  assumes "fetch_universal_fx sv (aggregator_new url c) w = (Inr st, w')"
    and "quotes_between lo hi (quotes key (sources_of sv (aggregator_new url c) w))" and "0 < lo"
  shows "(\<forall>rate. map_of (rates st) key = Some rate \<longrightarrow>
       (\<exists>y conf. rate = Fin False y \<and> lo * (1 - 1 / 2 ^ 49) \<le> y \<and> y \<le> hi * (1 + 1 / 2 ^ 49)
         \<and> map_of (confidence_intervals st) key = Some (Fin False conf) \<and> 0 \<le> conf \<and> conf \<le> 1))
     \<and> (quotes key (sources_of sv (aggregator_new url c) w) \<noteq> [] \<and> hi \<le> lo * (109 / 100) \<longrightarrow> map_of (rates st) key \<noteq> None)"
proof (cases "quotes key (sources_of sv (aggregator_new url c) w) = []")
  case True
  then show ?thesis by (simp add: fetched_state(1) [OF assms(1)] aggregate_def)
next
  case False
  then obtain qs where qs: "quotes key (sources_of sv (aggregator_new url c) w) = as_doubles qs" "quoted_in lo hi qs"
    using source_quotes [OF assms(2)] by blast
  note look = fetched_state(1,2) [OF assms(1), of key, unfolded qs(1)]
  have "0 < hi" using exact_mean_between [OF qs(2)] assms(3) by linarith
  then have widen: "lo * (1 - 1 / 2 ^ 49) \<le> lo * (1 - 10 * unit_roundoff)" "hi * (1 + 10 * unit_roundoff) \<le> hi * (1 + 1 / 2 ^ 49)"
    using assms(3) by simp_all
  have "\<exists>y conf'. rate = Fin False y \<and> lo * (1 - 1 / 2 ^ 49) \<le> y \<and> y \<le> hi * (1 + 1 / 2 ^ 49) \<and> conf = Fin False conf'
      \<and> 0 \<le> conf' \<and> conf' \<le> 1" if "aggregate (as_doubles qs) = Some (rate, conf)" for rate conf
    by (rule aggregate_bounds [OF qs(2) less_imp_le [OF assms(3)] that]) (blast intro: order_trans [OF widen(1)] order_trans [OF _ widen(2)])
  then have "\<exists>y conf. rate = Fin False y \<and> lo * (1 - 1 / 2 ^ 49) \<le> y \<and> y \<le> hi * (1 + 1 / 2 ^ 49)
      \<and> map_of (confidence_intervals st) key = Some (Fin False conf) \<and> 0 \<le> conf \<and> conf \<le> 1"
    if "map_of (rates st) key = Some rate" for rate
    using that by (fastforce simp: look)
  moreover have "map_of (rates st) key \<noteq> None" if "hi \<le> lo * (109 / 100)"
    using agreeing_kept [OF qs(2) assms(3) that] qs(2) by (simp add: look aggregate_kept Let_def quoted_in_def)
  ultimately show ?thesis by blast
qed

theorem oracle_rate_bounds_witness:
  "\<exists>st y. fetch_universal_fx (sample_quotes 101) (aggregator_new [] []) [] = (Inr st, [])
     \<and> map_of (rates st) ''EUR'' = Some (Fin False y) \<and> 99 \<le> y \<and> y \<le> 102"
proof -
  obtain st where st: "fetch_universal_fx (sample_quotes 101) (aggregator_new [] []) [] = (Inr st, [])"
    using sample_sources(2) [of 101] by auto
  let ?qs = "quotes ''EUR'' (sources_of (sample_quotes 101) (aggregator_new [] []) [])"
  have b: "quotes_between 100 101 ?qs" and ne: "?qs \<noteq> []"
    by (auto simp: quotes_between_def sample_sources(1) quotes_def map_filter_simps sample_usable)
  have "(101 :: rat) \<le> 100 * (109 / 100)" "(0 :: rat) < 100" by simp_all
  with oracle_rate_bounds [OF st b] ne obtain rate where r: "map_of (rates st) ''EUR'' = Some rate" by blast
  then obtain y where y: "rate = Fin False y" "100 * (1 - 1 / 2 ^ 49) \<le> y" "y \<le> 101 * (1 + 1 / 2 ^ 49)"
    using oracle_rate_bounds [OF st b \<open>0 < 100\<close>] by blast
  have "99 \<le> y" "y \<le> 102" by (rule order_trans [OF _ y(2)] order_trans [OF y(3)]; simp)+
  with r st y(1) show ?thesis by blast
qed

text \<open>C8: The oracle guards settlement.  For an ISO20022 trigger with a TEE attestation and a valid policy, whose payload states the
  rate \<open>p\<close> of a currency that the oracle quotes at \<open>r\<close>: a rate further than five percent from \<open>r\<close> (beyond the
  rounding of the comparison) is rejected with 400 and nothing is written, and a rate within five percent opens the proposal
  in the world the fetch leaves.  When no source answers with rates, every such trigger ends in 500 and nothing is written.\<close>

theorem oracle_guards_settlement:
  assumes "starts_with (trig_attestation req) ''TEE_''" and "validate_routing_policy_metadata (trig_payload req) = Inr policy"
    and "trig_source req = ''ISO20022''"
    and "Option.bind (json_get ''exchange_rate'' (trig_payload req)) as_f64 = Some p" and "pg_logs sv wlog"
  shows "case settlement_trigger_handler sv ke (Some (verify_external_signal sv agg)) kwil req w of ((status, resp), w') \<Rightarrow>
     (sources_of sv agg w = [] \<longrightarrow> status = 500 \<and> spr_message resp = ''Oracle service error: Oracle fetch error: Oracle failure''
        \<and> wlog w' = wlog w)
     \<and> (\<forall>st v r. fetch_universal_fx sv agg w = (Inr st, v) \<and> map_of (rates st) (signal_currency (trig_payload req)) = Some (Fin False r)
          \<and> pow2 (- 1000) \<le> r \<and> r \<le> pow2 1000 \<longrightarrow>
          (r / 20 * (1 + 1 / 2 ^ 49) < \<bar>p - r\<bar> \<longrightarrow> status = 400 \<and> wlog w' = wlog w)
          \<and> (\<bar>p - r\<bar> \<le> r / 20 * (1 - 1 / 2 ^ 49) \<longrightarrow> ((status, resp), w') = open_proposal sv ke kwil req v))"
proof -
  obtain r v where f: "fetch_universal_fx sv agg w = (r, v)" by fastforce
  have kept: "wlog v = wlog w" using fetch_log [OF assms(5), of agg w] f by simp
  show ?thesis
  proof (cases r)
    case (Inl e)
    then have h: "settlement_trigger_handler sv ke (Some (verify_external_signal sv agg)) kwil req w =
        ((500, rejection ''Error'' (''Oracle service error: Oracle fetch error: '' @ e) None), v)"
      using f assms(1,2) by (simp add: settlement_trigger_handler_def verify_external_signal_def)
    have "e = ''Oracle failure''" if "sources_of sv agg w = []"
      using that f Inl by (auto simp: fetch_universal_fx_def sources_of_def split: prod.splits)
    then show ?thesis unfolding h using f Inl kept by (simp add: rejection_def)
  next
    case (Inr st)
    then have h: "settlement_trigger_handler sv ke (Some (verify_external_signal sv agg)) kwil req w =
        (if rate_accepted st ''ISO20022'' (trig_payload req) then open_proposal sv ke kwil req v
         else ((400, rejection ''Rejected'' ''Oracle verification failed for external signal.'' None), v))"
      using f assms(1-3) by (simp add: settlement_trigger_handler_def verify_external_signal_def)
    have "sources_of sv agg w \<noteq> []"
      using f Inr by (auto simp: fetch_universal_fx_def sources_of_def split: prod.splits)
    moreover note verdict [OF assms(4), of st]
    ultimately show ?thesis unfolding h using f Inr kept by (auto split: prod.split)
  qed
qed

lemma sample_rate:
  obtains st r where "fetch_universal_fx (sample_quotes 100) (aggregator_new [] []) w = (Inr st, w)"
    "map_of (rates st) ''EUR'' = Some (Fin False r)" "99 \<le> r" "r \<le> 101"
proof -
  obtain st where st: "fetch_universal_fx (sample_quotes 100) (aggregator_new [] []) w = (Inr st, w)"
    using sample_sources(2) [of 100] by auto
  define qs where "qs = zip [100 :: rat, 100, 100] source_weights"
  have q: "quotes ''EUR'' (sources_of (sample_quotes 100) (aggregator_new [] []) w) = as_doubles qs"
    by (simp add: sample_sources(1) quotes_def map_filter_simps as_doubles_def qs_def source_weights_def)
  have in_qs: "quoted_in 100 100 qs" by (auto simp: quoted_in_def qs_def source_weights_def sample_usable)
  then have "kept_quotes qs = qs" by (rule agreeing_kept) simp_all
  then obtain rate conf where a: "aggregate (as_doubles qs) = Some (rate, conf)"
    by (auto simp: aggregate_kept Let_def qs_def source_weights_def)
  obtain r where r: "rate = Fin False r" "100 * (1 - 10 * unit_roundoff) \<le> r" "r \<le> 100 * (1 + 10 * unit_roundoff)"
    by (rule aggregate_bounds [OF in_qs _ a]) simp
  have "99 \<le> r" "r \<le> 101" by (rule order_trans [OF _ r(2)] order_trans [OF r(3)]; simp)+
  then show ?thesis using that st r(1) a by (simp add: fetched_state(1) [OF st] q)
qed

definition rated_trigger :: "rat \<Rightarrow> ExternalSettlementTrigger" where
  "rated_trigger p = \<lparr>trig_source = ''ISO20022'', trig_external_id = ''x2'',
     trig_payload = (case policy_object Ibc T1 LightClient ''1'' ''ab'' of JObj kvs \<Rightarrow>
       JObj (kvs @ [(''exchange_rate'', JNum (Float p)), (''currency'', JStr ''EUR'')])), trig_attestation = ''TEE_1''\<rparr>"

lemma rated_policy: "\<exists>m. validate_routing_policy_metadata (trig_payload (rated_trigger p)) = Inr m"
proof -
  have t: "trim ''1'' = ''1''" "trim ''ab'' = ''ab''"
    by (simp_all add: trim_id ws_front_def ws_back_def byte_at_def)
  have "extract_routing_policy (trig_payload (rated_trigger p)) = extract_routing_policy (policy_object Ibc T1 LightClient ''1'' ''ab'')"
    by (simp add: rated_trigger_def policy_object_def extract_routing_policy_def extract_inline_routing_policy_def or_get_def)
  then have "validate_routing_policy_metadata (trig_payload (rated_trigger p)) =
      validate_routing_policy_metadata (policy_object Ibc T1 LightClient ''1'' ''ab'')"
    by (simp add: validate_routing_policy_metadata_def)
  then show ?thesis by (simp add: validate_policy_object t policy_rules_def)
qed

lemma sample_quotes_logs: "pg_logs (sample_quotes t) (\<lambda>w. w)"
  by (simp add: sample_quotes_def pg_logs_def log_kept_def recording_def offline_def)

theorem oracle_guards_settlement_witness:
  "case settlement_trigger_handler (sample_quotes 100) sample_env
      (Some (verify_external_signal (sample_quotes 100) (aggregator_new [] []))) None (rated_trigger 120) [] of
     ((status, resp), w') \<Rightarrow> status = 400 \<and> w' = []"
proof -
  obtain m where m: "validate_routing_policy_metadata (trig_payload (rated_trigger 120)) = Inr m" using rated_policy by blast
  obtain st r where st: "fetch_universal_fx (sample_quotes 100) (aggregator_new [] []) [] = (Inr st, [])"
    "map_of (rates st) ''EUR'' = Some (Fin False r)" "99 \<le> r" "r \<le> 101" by (rule sample_rate)
  have rg: "pow2 (- 1000) \<le> r" "r \<le> pow2 1000"
    using st(3,4) pow2_mono [of "- 1000" 0] pow2_mono [of 10 1000] by (simp_all add: pow2_def [of 0] pow2_def [of 10])
  have far: "r / 20 * (1 + 1 / 2 ^ 49) < \<bar>120 - r\<bar>" using st(3,4) by simp
  have cur: "signal_currency (trig_payload (rated_trigger 120)) = ''EUR''"
    by (simp add: signal_currency_def rated_trigger_def policy_object_def)
  have p: "Option.bind (json_get ''exchange_rate'' (trig_payload (rated_trigger 120))) as_f64 = Some 120"
    by (simp add: rated_trigger_def policy_object_def)
  have tee: "starts_with (trig_attestation (rated_trigger 120)) ''TEE_''" by (simp add: rated_trigger_def starts_with_def)
  have src: "trig_source (rated_trigger 120) = ''ISO20022''" by (simp add: rated_trigger_def)
  show ?thesis
    using oracle_guards_settlement [OF tee m src p sample_quotes_logs [of 100], where ke = sample_env
        and agg = "aggregator_new [] []" and kwil = None and w = "[]"]
      st(1,2) cur rg far by (auto split: prod.splits)
qed



text \<open>The history table as the executor reads it: a row with a later time than every other one is the latest.\<close>

definition fx_times :: "sql_write list \<Rightarrow> i64 list" where
  "fx_times qs = List.map_filter (\<lambda>q. case q of InsertFxState _ _ _ _ t \<Rightarrow> Some t | _ \<Rightarrow> None) qs"

definition fx_history :: "'w services \<Rightarrow> ('w \<Rightarrow> sql_write list) \<Rightarrow> bool" where
  "fx_history sv wlog \<longleftrightarrow>
     (\<forall>w pre b r ix ci t. wlog w = pre @ [InsertFxState b r ix ci t] \<and> (\<forall>u \<in> set (fx_times pre). u < t) \<longrightarrow>
        fst (pg_latest_rates sv w) = Inr (Some r))"



text \<open>A negative published rate accepts every signal: the relative difference is then never positive.\<close>

lemma negative_rate_accepts:
  assumes "map_of (rates st) (signal_currency signal) = Some (Fin True r)" and "0 < r"
  shows "rate_accepted st source signal"
proof -
  have "\<not> flt tolerance (rel_diff (Fin s p) (Fin True r))" for s p
  proof -
    have "\<not> flt tolerance (round_f64 True z)" if "0 \<le> z" for z
      by (cases rule: round_f64_cases [OF that, of True]) (simp_all add: thresholds signed_def)
    then have "\<not> flt tolerance (fdiv x (Fin True r))" if "nonneg x" for x
      using that assms(2) by (cases x) (auto simp: thresholds)
    then show ?thesis unfolding rel_diff_def abs_sub by (simp add: nonneg_round)
  qed
  then show ?thesis using assms(1) by (auto simp: rate_accepted_def json_f64_def bind_eq_Some_conv split: option.split)
qed

end
