(* ===== verification/Node.thy ===== *)
theory Node
  imports Startup Oracle
begin

text \<open>
  What \<^verbatim>\<open>src/main.rs\<close> does after its startup: the tasks it spawns, the stream that \<^verbatim>\<open>NexusSync::run\<close> reads, the start of the two
  servers, and the select at the end of \<^verbatim>\<open>main\<close> that ends the process with the first task that ends.
\<close>

section \<open>Synchronisation\<close>

datatype ws_event = Ws_Text string | Ws_Other | Ws_Error string | Ws_Closed

text \<open>\<^verbatim>\<open>NexusSync::run\<close> on one event of its stream: it goes on (\<open>None\<close>) or returns.\<close>

fun sync_message :: "ws_event \<Rightarrow> (string, unit) result option" where
  "sync_message (Ws_Text _) = None"
| "sync_message Ws_Other = None"
| "sync_message (Ws_Error e) = Some (Inl e)"
| "sync_message Ws_Closed = Some (Inr ())"

text \<open>The stream delivers the listed events and then stays open.\<close>

fun drain :: "ws_event list \<Rightarrow> (string, unit) result option" where
  "drain [] = None"
| "drain (m # ms) = (case sync_message m of Some r \<Rightarrow> Some r | None \<Rightarrow> drain ms)"

definition sync_run :: "(string, unit) result \<Rightarrow> ws_event list \<Rightarrow> (string, unit) result option" where
  "sync_run conn ms = (case conn of Inl e \<Rightarrow> Some (Inl e) | Inr _ \<Rightarrow> drain ms)"

definition load_initial_state :: "(string, unit) result" where
  "load_initial_state = Inr ()"

section \<open>Tasks\<close>

datatype task = Sync_Task | Safety_Task | Oracle_Task | Rebalance_Task | Health_Task | Orchestrator_Task | Rest_Task | Grpc_Task

definition spawned :: "'w node \<Rightarrow> task list" where
  "spawned n = [Sync_Task, Safety_Task] @ (if nd_oracle n = None then [] else [Oracle_Task]) @ [Rebalance_Task]
     @ (if nd_nostr n = None then [] else [Health_Task]) @ [Orchestrator_Task, Rest_Task, Grpc_Task]"

text \<open>The servers: an address that cannot be bound or parsed is an error; then they serve, and \<open>None\<close> is a server that still does.\<close>

definition listen_address :: "nat \<Rightarrow> string" where
  "listen_address port = ''0.0.0.0:'' @ show_nat port"

definition start_rest_server ::
  "(string \<Rightarrow> (string, unit) result) \<Rightarrow> (string, unit) result option \<Rightarrow> nat \<Rightarrow> (string, unit) result option" where
  "start_rest_server bind serve port = (case bind (listen_address port) of Inl e \<Rightarrow> Some (Inl e) | Inr _ \<Rightarrow> serve)"

definition start_grpc_server ::
  "(string \<Rightarrow> (string, 'a) result) \<Rightarrow> (NexusGrpcService \<Rightarrow> 'a \<Rightarrow> (string, unit) result option) \<Rightarrow> nat
     \<Rightarrow> (string, unit) result option" where
  "start_grpc_server parse_addr serve port = (case parse_addr (listen_address port) of Inl e \<Rightarrow> Some (Inl e) | Inr addr \<Rightarrow> serve grpc_new addr)"

text \<open>The select at the end of \<^verbatim>\<open>main\<close> takes the first event of a task that was spawned, or the interrupt; a task that was not
  spawned stays pending.  Whatever it is, \<^verbatim>\<open>main\<close> then returns \<^verbatim>\<open>Ok(())\<close>.\<close>

datatype main_event = Ctrl_C | Task_Ended task

fun selectable :: "'w node \<Rightarrow> main_event \<Rightarrow> bool" where
  "selectable n Ctrl_C = True" | "selectable n (Task_Ended t) = (t \<in> set (spawned n))"

definition main_select :: "'w node \<Rightarrow> main_event list \<Rightarrow> main_event option" where
  "main_select n evs = List.find (selectable n) evs"

definition main_result :: "main_event \<Rightarrow> (string, unit) result" where
  "main_result e = Inr ()"

text \<open>The oracle as the settlement handler of the servers gets it.\<close>

definition oracle_check :: "'w services \<Rightarrow> 'w node \<Rightarrow> (string \<Rightarrow> json \<Rightarrow> ('w, string, bool) io) option" where
  "oracle_check sv n = map_option (\<lambda>(url, contract). verify_external_signal sv (aggregator_new url contract)) (nd_oracle n)"

section \<open>Lemmas\<close>

lemma drain_goes_on: "drain ms = None \<longleftrightarrow> (\<forall>m \<in> set ms. sync_message m = None)"
  by (induction ms) (auto split: option.splits)

text \<open>The synchronisation decides over the life of the process: it goes on exactly while the connection stands and delivers no error
  and no end, whatever texts it delivers, and its end is the end of \<^verbatim>\<open>main\<close>, with success as the result.\<close>

lemma sync_goes_on: "sync_run conn ms = None \<longleftrightarrow> (\<exists>u. conn = Inr u) \<and> (\<forall>m \<in> set ms. m \<noteq> Ws_Closed \<and> (\<forall>e. m \<noteq> Ws_Error e))"
proof -
  have "sync_message m = None \<longleftrightarrow> m \<noteq> Ws_Closed \<and> (\<forall>e. m \<noteq> Ws_Error e)" for m by (cases m) simp_all
  then show ?thesis by (auto simp: sync_run_def drain_goes_on split: sum.splits)
qed

lemma sync_end_stops:
  "main_select n (Task_Ended Sync_Task # evs) = Some (Task_Ended Sync_Task) \<and> main_result (Task_Ended Sync_Task) = Inr ()"
  by (simp add: main_select_def main_result_def spawned_def)

end
