(* ===== verification/Spec2Isabelle.thy ===== *)
theory Spec2Isabelle
  imports State_Properties Nexus_Locks Executor Erp Settlement Billing Nexus_Config Admin_Runs Nexus_Sync Rest Surfaces
    Product_Apis Routes Executor_Runs Metering_Runs Heartbeat Node
begin

text \<open>
  Verification of Conxian Nexus, a service that follows the Stacks chain, keeps a verifiable record of
  transactions and serves proofs, submissions, settlements, metering and administration over REST and gRPC.

  \<^bold>\<open>The program.\<close>  \<^verbatim>\<open>src/main.rs\<close> reads the configuration, opens Postgres and Redis, builds one state tracker
  (\<^verbatim>\<open>src/state\<close>), one executor (\<^verbatim>\<open>src/executor\<close>) and the adapters for Kwil, Tableland and Nostr (\<^verbatim>\<open>src/storage\<close>,
  \<^verbatim>\<open>src/api/billing/nostr.rs\<close>), and spawns the block synchronisation (\<^verbatim>\<open>src/sync\<close>), the safety heartbeat (\<^verbatim>\<open>src/safety\<close>),
  the exchange-rate oracle (\<^verbatim>\<open>src/oracle\<close>), the orchestrator (\<^verbatim>\<open>src/orchestrator.rs\<close>) and the two servers (\<^verbatim>\<open>src/api\<close>).  The tasks meet in shared state: the tracker
  behind its mutexes, the safety flag and drift in Redis, the rows in Postgres.

  \<^bold>\<open>The development.\<close>  Each theory holds the data and operations of one part, with the names of the source, then its
  lemmas, then its properties with their witnesses.

  \<^item> \<open>Nexus_Prelude\<close>, \<open>Nexus_Text\<close>: integers of the source with their wrap-around, bytes and hexadecimal, strings as
    UTF-8 bytes, trimming, decimal text, JSON values.  \<open>Nexus_Services\<close>, \<open>Redis_Hashes\<close>: the outside world as the
    record \<open>services\<close> over an arbitrary type of worlds, and the documented behaviour of Redis and Postgres that
    properties assume.  \<open>Payloads\<close>: a locale for canonical signed texts, with its interpretations in \<open>Erp\<close> and \<open>Kwil\<close>.
  \<^item> \<open>Mmr\<close>, \<open>Mmr_Correct\<close>, \<open>Mmr_Paths\<close>, \<open>Nexus_State\<close>, \<open>Nexus_State_Correct\<close>, \<open>State_Properties\<close>: the tracker of
    \<^verbatim>\<open>src/state/mod.rs\<close>.  The Merkle tree and the mountain range are shown to be those of a specification by aligned blocks
    of leaves; proofs are complete, sound for a collision-free hash, and reach a peak.  \<open>Nexus_Locks\<close>: its mutexes under
    interleaving, free of deadlock by a locale on lock orders.
  \<^item> \<open>Safety\<close>, \<open>Executor\<close>, \<open>Lightning\<close>, \<open>Adapters\<close>: \<^verbatim>\<open>src/safety/mod.rs\<close> and \<^verbatim>\<open>src/executor\<close>.  The heartbeat and its
    circuit breaker on doubles, admission of transactions, the payment state machine as a step relation, and the
    BitVM, EVM, Cosmos, Stacks, RGB and Fedimint verifiers.  \<open>Heartbeat\<close>: complete turns of the heartbeat, drift and gateway
    alarm on the same flag, and outages.  \<open>Tasks\<close>: the step relation of interleaved handlers and a locale for handlers
    split at their awaits.  \<open>Executor_Runs\<close>: concurrent submissions as stretches between awaits, equal
    to \<open>submit\<close> when undisturbed: every accepted submission has its own audit row, over a database that may refuse rows, and after
    the handoff to the safety mode only submissions past their check, or whose read of the flag failed, still add one.
    \<open>Metering_Runs\<close>: the same for concurrent telemetry on one key, whose counter hands out every number once.
  \<^item> \<open>Doubles\<close>, \<open>Fx_Aggregation\<close>, \<open>Oracle\<close>: \<^verbatim>\<open>src/oracle\<close>.  The doubles compute: exact rationals rounded to 53 bits, with
    infinities, signed zeros, gradual underflow and the square root; rounding errors are bounded once and for all.  The weighted
    mean stays between its quotes, the verdict on a settlement signal is exact up to rounding, stored rates reach the
    executor, and one source can switch the check off.
  \<^item> \<open>Nexus_Sync\<close>: ingestion of a block across tracker, Redis and Kwil (\<^verbatim>\<open>src/sync/mod.rs\<close>), the Tableland adapter and the
    audit of the orchestrator.  \<open>Kwil\<close>: \<^verbatim>\<open>src/storage/kwil.rs\<close>, whose signed texts determine the write.
  \<^item> \<open>Erp\<close>, \<open>Settlement\<close>, \<open>Billing\<close>, \<open>Nostr\<close>, \<open>Product_Apis\<close>: the handlers of the same names under \<^verbatim>\<open>src/api\<close>, with
    \<^verbatim>\<open>identity.rs\<close>, \<^verbatim>\<open>dlc.rs\<close>, \<^verbatim>\<open>zkml.rs\<close> and \<^verbatim>\<open>analytics.rs\<close> in the last.
  \<^item> \<open>Admin\<close>, \<open>Admin_Handlers\<close>, \<open>Admin_Runs\<close>: \<^verbatim>\<open>src/api/admin.rs\<close>.  Authorisation and dual signatures, with a locale for the
    requests that need them and one interpretation per request, every handler (an accepted request is one whose own message was
    signed), and histories of requests as an inductive relation.  \<open>Routes\<close>: the route tables of \<^verbatim>\<open>app_router\<close> and what they nest, a locale for the documented
    behaviour of the router with an executable instance, and the administration as it is reachable over HTTP.
  \<^item> \<open>Rest\<close>, \<open>Grpc\<close>, \<open>Grpc_Cache\<close>: \<^verbatim>\<open>src/api/rest.rs\<close> and \<^verbatim>\<open>src/api/grpc.rs\<close>, the latter also as interleaved calls on the
    cache of counts, with their answers: one query at a time, no answer older than its time to live; the sequential operation refines them.
  \<^item> \<open>Nexus_Config\<close>, \<open>Startup\<close>: \<^verbatim>\<open>src/config.rs\<close>, the production checks of \<^verbatim>\<open>src/storage/mod.rs\<close> and the wiring in
    \<^verbatim>\<open>src/main.rs\<close>, and what printing a configuration reveals.  \<open>Surfaces\<close>: the safety mode from the heartbeat to every interface.
  \<^item> \<open>Node\<close>: what \<^verbatim>\<open>src/main.rs\<close> does after its startup: the tasks it spawns, the stream that \<^verbatim>\<open>src/sync/mod.rs\<close> reads, the start
    of the servers and the select that ends the process.

  \<^bold>\<open>Conventions.\<close>  A fallible call maps a world to an error or a value and the next world; \<open>io_try\<close> is the question mark of
  Rust.  A panic is \<open>None\<close> at the outside.  Records of handlers keep the fields of the structs with a prefix where names
  would clash.  Unsigned integers are naturals and signed ones integers; where the source can wrap, the wrap-around is
  written out.  Time is in nanoseconds.

  \<^bold>\<open>Parameters.\<close>  SHA-256, HMAC, ECDSA, Groth16, the wallet, the relay client, the database, Redis, HTTP peers, the clock,
  random numbers, RFC 3339 texts and the Unicode upper-case mapping are arguments.  What a property needs of them is a named
  hypothesis, and its witness instantiates it.  Stores may fail: \<open>redis_store\<close> lets every read of a flag fail, and \<open>pg_logs\<close> every
  statement, which then has no effect; \<open>audit_keyed\<close> is the primary key of the audit table, \<open>redis_claims\<close> the conditional set,
  \<open>redis_pairs\<close> the pipelined read.  Where a property is about the normal course of the code it assumes that Redis answers:
  \<open>redis_flags\<close> for a whole turn of the heartbeat, \<open>redis_hashes\<close> for metering, \<open>sync_store\<close> for ingestion.  \<open>clocked\<close> is a clock that never runs
  backwards, \<open>keys_signed\<close> that keys verify only what their holders signed, \<open>inj_on\<close> that the hash does not collide on the strings
  involved.

  \<^bold>\<open>Bounds.\<close>  The mountain range is exact up to \<open>2 ^ 62\<close> leaves, where no 64-bit position wraps; the circuit breaker up
  to \<open>2 ^ 48\<close> verifications, where the quotient of doubles cannot cross a tenth; the aggregation for quotes between
  \<open>2 ^ -990\<close> and \<open>2 ^ 990\<close>, where nothing overflows or underflows.  Loops of the source that end by arithmetic have
  termination proofs; no fuel is used.

  \<^bold>\<open>Not modelled.\<close>  How axum selects a route and tonic serves a call, the layers for CORS, compression, tracing and the
  concurrency limit, which are library code; tracing and its exporter; the text of log lines; SQL migrations and
  Clarity contracts.  There is no step relation of the whole process: where an interleaving is modelled, the other components are a
  relation on the world, constrained by a named condition (\<open>leaves_audit\<close>, \<open>keeps_raised\<close>).  A JSON number loses the sign of a zero.  Handlers interleave where shared state in the process is concerned: the tracker's mutexes,
  the cache of counts, the executor's cache and the maps of the administration; and on the usage counters in Redis.

  \<^bold>\<open>Plan.\<close>  What is left of the program's own logic is how several nodes share one Redis and one Postgres, the metering handlers
  while Redis fails, and the stretches of the settlement and oracle turns between their awaits.
\<close>

end
